(* ===== verification/GoPrelude.thy ===== *)
theory GoPrelude
  imports Complex_Main "HOL-Library.Word" "HOL-Library.Multiset"
begin

text \<open>
  Shared vocabulary of the development: Go's \<open>time\<close> values and 64-bit arithmetic, the string
  functions of package \<open>strings\<close> that the gateway calls, error values with their wrap chains,
  buffered channels used with a \<open>default\<close> branch, and the generic lemmas on lists that the
  components share. Durations and instants are integers (nanoseconds); an instant counts from
  the zero \<open>time.Time\<close>. Nothing here models a file of the repository.
\<close>

named_theorems world_simps \<open>frame and projection facts of state updates\<close>
named_theorems wait_bounds \<open>bounds on taint wait times\<close>

section \<open>Durations, instants and 64-bit wrap-around\<close>

type_synonym duration = int
type_synonym gotime = int
type_synonym u64 = "64 word"
type_synonym u32 = "32 word"

abbreviation millisecond :: duration where "millisecond \<equiv> 1000000"
abbreviation second :: duration where "second \<equiv> 1000000000"
abbreviation minute :: duration where "minute \<equiv> 60 * second"

text \<open>Two's complement reading of an integer in 64 bits: the result of int64 arithmetic.\<close>

definition wrap64 :: "int \<Rightarrow> int" where
  "wrap64 x = (x + 2 ^ 63) mod 2 ^ 64 - 2 ^ 63"

lemma wrap64_id: "- (2 ^ 63) \<le> x \<Longrightarrow> x < 2 ^ 63 \<Longrightarrow> wrap64 x = x"
  by (simp add: wrap64_def mod_pos_pos_trivial)

lemma wrap64_range: "- (2 ^ 63) \<le> wrap64 x \<and> wrap64 x < 2 ^ 63"
  using pos_mod_bound [of "2 ^ 64" "x + 2 ^ 63"] pos_mod_sign [of "2 ^ 64" "x + 2 ^ 63"]
  by (simp add: wrap64_def)

text \<open>\<open>t.Sub(u)\<close> and \<open>time.Since(u)\<close> at instant \<open>t\<close>: the difference, saturated to int64.\<close>

definition time_sub :: "gotime \<Rightarrow> gotime \<Rightarrow> duration" where
  "time_sub t u = max (- (2 ^ 63)) (min (2 ^ 63 - 1) (t - u))"

lemma time_sub_small: "0 \<le> t - u \<Longrightarrow> t - u < 2 ^ 63 \<Longrightarrow> time_sub t u = t - u"
  by (simp add: time_sub_def)

lemma time_sub_le_iff:
  "- (2 ^ 63) \<le> d \<Longrightarrow> d < 2 ^ 63 - 1 \<Longrightarrow> time_sub t u \<le> d \<longleftrightarrow> t - u \<le> d"
  by (auto simp: time_sub_def)

text \<open>\<open>d.Milliseconds()\<close>: division truncates towards zero.\<close>

definition milliseconds :: "duration \<Rightarrow> int" where
  "milliseconds d = (if d < 0 then - ((- d) div millisecond) else d div millisecond)"

lemma unat_u64 [simp]: "unat (n :: u64) < 2 ^ 64"
  using unsigned_less [of n] by simp

section \<open>Strings\<close>

fun cut_prefix :: "'a list \<Rightarrow> 'a list \<Rightarrow> 'a list option" where
  "cut_prefix s [] = Some s"
| "cut_prefix [] (p # ps) = None"
| "cut_prefix (c # s) (p # ps) = (if c = p then cut_prefix s ps else None)"

definition trim_prefix :: "'a list \<Rightarrow> 'a list \<Rightarrow> 'a list" where
  "trim_prefix s p = (case cut_prefix s p of None \<Rightarrow> s | Some after \<Rightarrow> after)"

lemma cut_prefix_Some_iff: "cut_prefix s p = Some t \<longleftrightarrow> s = p @ t"
  by (induction s p rule: cut_prefix.induct) auto

lemma cut_prefix_append [simp]: "cut_prefix (p @ t) p = Some t"
  by (simp add: cut_prefix_Some_iff)

lemma trim_prefix_append [simp]: "trim_prefix (p @ t) p = t"
  by (simp add: trim_prefix_def)

lemma cut_prefix_length: "cut_prefix s p = Some t \<Longrightarrow> length s = length p + length t"
  by (simp add: cut_prefix_Some_iff)

text \<open>\<open>cmp.Or\<close> on two strings: the first one that is not empty.\<close>

definition cmp_or :: "string \<Rightarrow> string \<Rightarrow> string" where
  "cmp_or a b = (if a \<noteq> [] then a else b)"

definition lower_char :: "char \<Rightarrow> char" where
  "lower_char c = (let n = of_char c :: nat in if 65 \<le> n \<and> n \<le> 90 then char_of (n + 32) else c)"

definition upper_char :: "char \<Rightarrow> char" where
  "upper_char c = (let n = of_char c :: nat in if 97 \<le> n \<and> n \<le> 122 then char_of (n - 32) else c)"

abbreviation to_lower :: "string \<Rightarrow> string" where
  "to_lower \<equiv> map lower_char"

text \<open>
  \<open>strings.EqualFold(s, t)\<close> where \<open>t\<close> is an ASCII string, on UTF-8 bytes. Two characters beyond
  ASCII fold to ASCII letters: the Kelvin sign (E2 84 AA) to k and the long s (C5 BF) to s. Field
  names of JSON objects are matched the same way.
\<close>

fun fold_bytes :: "string \<Rightarrow> string" where
  "fold_bytes [] = []"
| "fold_bytes (a # s) =
     (case s of
        b # c # r \<Rightarrow>
          if a = CHR 0xE2 \<and> b = CHR 0x84 \<and> c = CHR 0xAA then CHR ''k'' # fold_bytes r
          else if a = CHR 0xC5 \<and> b = CHR 0xBF then CHR ''s'' # fold_bytes (c # r)
          else lower_char a # fold_bytes s
      | [b] \<Rightarrow> if a = CHR 0xC5 \<and> b = CHR 0xBF then ''s'' else lower_char a # fold_bytes s
      | [] \<Rightarrow> [lower_char a])"

definition equal_fold :: "string \<Rightarrow> string \<Rightarrow> bool" where
  "equal_fold s t \<longleftrightarrow> fold_bytes s = fold_bytes t"

lemma equal_fold_Nil: "equal_fold [] t \<longleftrightarrow> t = []"
  by (cases t) (auto simp: equal_fold_def split: list.splits)

text \<open>The verb \<open>%d\<close> of package \<open>fmt\<close>.\<close>

definition digit_char :: "nat \<Rightarrow> char" where
  "digit_char d = char_of (48 + d)"

fun show_nat :: "nat \<Rightarrow> string" where
  "show_nat n = (if n < 10 then [digit_char n] else show_nat (n div 10) @ [digit_char (n mod 10)])"

declare show_nat.simps [simp del]

definition show_int :: "int \<Rightarrow> string" where
  "show_int i = (if i < 0 then ''-'' @ show_nat (nat (- i)) else show_nat (nat i))"

section \<open>Errors\<close>

text \<open>
  The error values that the code tells apart are sentinels; every other error is its text.
  \<open>fmt.Errorf("...: %w", err)\<close> is \<open>Wrap\<close>, whose text is the prefix followed by the text of
  the wrapped error, and \<open>errors.Is\<close> follows the chain. \<open>CloseError\<close> is the error value of the
  websocket package that carries a close code.
\<close>

datatype sentinel =
    EPIPE | ECONNRESET | ErrClosed | Canceled | DeadlineExceeded | ErrServerClosed
  | ErrCloseSent | ErrSyntax | ErrRange

datatype goerr = Sentinel sentinel | Errorf string | CloseError int string | Wrap string goerr

fun errors_is :: "goerr \<Rightarrow> sentinel \<Rightarrow> bool" where
  "errors_is (Sentinel s) t \<longleftrightarrow> s = t"
| "errors_is (Errorf m) t \<longleftrightarrow> False"
| "errors_is (CloseError c m) t \<longleftrightarrow> False"
| "errors_is (Wrap m e) t \<longleftrightarrow> errors_is e t"

fun sentinel_text :: "sentinel \<Rightarrow> string" where
  "sentinel_text EPIPE = ''broken pipe''"
| "sentinel_text ECONNRESET = ''connection reset by peer''"
| "sentinel_text ErrClosed = ''use of closed network connection''"
| "sentinel_text Canceled = ''context canceled''"
| "sentinel_text DeadlineExceeded = ''context deadline exceeded''"
| "sentinel_text ErrServerClosed = ''http: Server closed''"
| "sentinel_text ErrCloseSent = ''websocket: close sent''"
| "sentinel_text ErrSyntax = ''invalid syntax''"
| "sentinel_text ErrRange = ''value out of range''"

fun err_text :: "goerr \<Rightarrow> string" where
  "err_text (Sentinel s) = sentinel_text s"
| "err_text (Errorf m) = m"
| "err_text (CloseError c m) = ''websocket: close '' @ show_int c @ m"
| "err_text (Wrap m e) = m @ err_text e"

section \<open>Buffered channels with a default branch\<close>

text \<open>
  \<open>select { case ch <- x: default: }\<close> and \<open>select { case x := <-ch: default: }\<close> on a channel with
  buffer size \<open>cap\<close>. The second component tells which branch ran.
\<close>

definition try_send :: "nat \<Rightarrow> 'a \<Rightarrow> 'a list \<Rightarrow> 'a list \<times> bool" where
  "try_send cap x q = (if length q < cap then (q @ [x], True) else (q, False))"

definition try_recv :: "'a list \<Rightarrow> ('a \<times> 'a list) option" where
  "try_recv q = (case q of [] \<Rightarrow> None | x # r \<Rightarrow> Some (x, r))"

lemma try_send_length: "length q \<le> cap \<Longrightarrow> length (fst (try_send cap x q)) \<le> cap"
  by (simp add: try_send_def)

lemma try_recv_length: "try_recv q = Some (x, r) \<Longrightarrow> length q = Suc (length r)"
  by (auto simp: try_recv_def split: list.splits)

section \<open>Objects behind pointers\<close>

text \<open>
  Objects that the code shares through pointers live in a list, and a pointer is an index of it;
  \<open>upd_at\<close> writes through a pointer.
\<close>

definition upd_at :: "nat \<Rightarrow> ('a \<Rightarrow> 'a) \<Rightarrow> 'a list \<Rightarrow> 'a list" where
  "upd_at i f xs = (if i < length xs then xs[i := f (xs ! i)] else xs)"

lemma length_upd_at [simp]: "length (upd_at i f xs) = length xs"
  by (simp add: upd_at_def)

lemma nth_upd_at: "j < length xs \<Longrightarrow> upd_at i f xs ! j = (if i = j then f (xs ! j) else xs ! j)"
  by (simp add: upd_at_def)

lemma nth_upd_at_same [simp]: "i < length xs \<Longrightarrow> upd_at i f xs ! i = f (xs ! i)"
  by (simp add: nth_upd_at)

lemma nth_upd_at_other [simp]: "i \<noteq> j \<Longrightarrow> upd_at i f xs ! j = xs ! j"
  by (simp add: upd_at_def)

lemma map_upd_at: "(\<And>x. g (f x) = g x) \<Longrightarrow> map g (upd_at i f xs) = map g xs"
  by (rule nth_equalityI) (auto simp: nth_upd_at)

section \<open>Loops\<close>

text \<open>What every iteration of a loop keeps.\<close>

lemma fold_keeps: "P s \<Longrightarrow> (\<And>x s. P s \<Longrightarrow> P (f x s)) \<Longrightarrow> P (fold f xs s)"
  by (induction xs arbitrary: s) auto

end
