(* ===== verification/GoJson.thy ===== *)
theory GoJson
  imports GoPrelude
begin

text \<open>
  What the gateway uses of package \<open>encoding/json\<close>: JSON text is parsed (\<open>p_val\<close>, with fuel,
  \<open>p_val_enough\<close> shows that two units per byte and one more are enough), \<open>json_decode\<close> is
  \<open>Decoder.Decode\<close> (the first value of a stream) and \<open>json_unmarshal\<close> is \<open>Unmarshal\<close> (the whole
  text). Values decoded into \<open>any\<close> are \<open>goany\<close>; numbers become float64 values, kept as the
  rational that the float denotes. Decoding into a struct assigns field by field in the order
  of the text, with Go's case-insensitive match of ASCII names. Bytes of a string that are not
  valid UTF-8 are kept as they are, and the nesting limit of the Go decoder is left out.
\<close>

section \<open>Values\<close>

datatype json =
    JNull | JBool bool | JNum string | JStr string
  | JArr "json list" | JObj "(string \<times> json) list"

datatype goany =
    GNil | GBool bool | GNum rat | GStr string
  | GArr "goany list" | GObj "(string \<times> goany) list"

text \<open>The comparison of an \<open>any\<close> used as a map key panics for slices and maps.\<close>

fun hashable :: "goany \<Rightarrow> bool" where
  "hashable (GArr _) = False"
| "hashable (GObj _) = False"
| "hashable _ = True"

section \<open>Parsing\<close>

definition is_space :: "char \<Rightarrow> bool" where
  "is_space c \<longleftrightarrow> c = CHR '' '' \<or> c = CHR 0x09 \<or> c = CHR 0x0A \<or> c = CHR 0x0D"

definition skip_ws :: "string \<Rightarrow> string" where
  "skip_ws s = dropWhile is_space s"

definition is_digit :: "char \<Rightarrow> bool" where
  "is_digit c \<longleftrightarrow> (let n = of_char c :: nat in 48 \<le> n \<and> n \<le> 57)"

definition digit_val :: "char \<Rightarrow> nat" where
  "digit_val c = of_char c - 48"

definition hex_val :: "char \<Rightarrow> nat option" where
  "hex_val c = (let n = of_char c :: nat in
     if 48 \<le> n \<and> n \<le> 57 then Some (n - 48)
     else if 97 \<le> n \<and> n \<le> 102 then Some (n - 87)
     else if 65 \<le> n \<and> n \<le> 70 then Some (n - 55)
     else None)"

definition hex4 :: "char \<Rightarrow> char \<Rightarrow> char \<Rightarrow> char \<Rightarrow> nat option" where
  "hex4 a b c d = (case (hex_val a, hex_val b, hex_val c, hex_val d) of
     (Some w, Some x, Some y, Some z) \<Rightarrow> Some (((w * 16 + x) * 16 + y) * 16 + z)
   | _ \<Rightarrow> None)"

definition utf8 :: "nat \<Rightarrow> string" where
  "utf8 n =
    (if n < 128 then [char_of n]
     else if n < 2048 then [char_of (192 + n div 64), char_of (128 + n mod 64)]
     else if n < 65536 then
       [char_of (224 + n div 4096), char_of (128 + n div 64 mod 64), char_of (128 + n mod 64)]
     else [char_of (240 + n div 262144), char_of (128 + n div 4096 mod 64),
           char_of (128 + n div 64 mod 64), char_of (128 + n mod 64)])"

text \<open>Simple escapes; the escape \<open>u\<close> is handled in \<open>p_str\<close>.\<close>

definition unescape :: "char \<Rightarrow> string option" where
  "unescape c =
    (if c = CHR 0x22 \<or> c = CHR 0x5C \<or> c = CHR ''/'' then Some [c]
     else if c = CHR ''b'' then Some [CHR 0x08]
     else if c = CHR ''f'' then Some [CHR 0x0C]
     else if c = CHR ''n'' then Some [CHR 0x0A]
     else if c = CHR ''r'' then Some [CHR 0x0D]
     else if c = CHR ''t'' then Some [CHR 0x09]
     else None)"

definition surrogate_low :: "string \<Rightarrow> (nat \<times> string) option" where
  "surrogate_low s = (case s of
     x # y # a # b # c # d # r \<Rightarrow>
       if x = CHR 0x5C \<and> y = CHR ''u'' then
         (case hex4 a b c d of
            Some n \<Rightarrow> if 56320 \<le> n \<and> n < 57344 then Some (n, r) else None
          | None \<Rightarrow> None)
       else None
   | _ \<Rightarrow> None)"

text \<open>
  The code point of a \<open>u\<close> escape and the rest of the text: a surrogate pair is one code point,
  a lone surrogate is replaced by U+FFFD.
\<close>

definition p_unicode :: "string \<Rightarrow> (string \<times> string) option" where
  "p_unicode s = (case s of
     a # b # c # d # r \<Rightarrow>
       (case hex4 a b c d of
          None \<Rightarrow> None
        | Some n \<Rightarrow>
            if 55296 \<le> n \<and> n < 56320 then
              (case surrogate_low r of
                 Some (m, r') \<Rightarrow> Some (utf8 (65536 + (n - 55296) * 1024 + (m - 56320)), r')
               | None \<Rightarrow> Some (utf8 65533, r))
            else if 56320 \<le> n \<and> n < 57344 then Some (utf8 65533, r)
            else Some (utf8 n, r))
   | _ \<Rightarrow> None)"

lemma surrogate_low_length: "surrogate_low s = Some (n, r) \<Longrightarrow> length r < length s"
  by (auto simp: surrogate_low_def split: list.splits if_splits option.splits)

lemma p_unicode_length: "p_unicode s = Some (u, r) \<Longrightarrow> length r < length s"
  by (auto simp: p_unicode_def split: list.splits if_splits option.splits
      dest!: surrogate_low_length)

text \<open>The rest of a string literal, after its opening quote.\<close>

function p_str :: "string \<Rightarrow> (string \<times> string) option" where
  "p_str [] = None"
| "p_str (c # s) =
    (if c = CHR 0x22 then Some ([], s)
     else if c = CHR 0x5C then
       (case s of
          [] \<Rightarrow> None
        | e # r \<Rightarrow>
            if e = CHR ''u'' then
              (case p_unicode r of
                 None \<Rightarrow> None
               | Some (u, r') \<Rightarrow> map_option (\<lambda>(t, z). (u @ t, z)) (p_str r'))
            else
              (case unescape e of
                 None \<Rightarrow> None
               | Some u \<Rightarrow> map_option (\<lambda>(t, z). (u @ t, z)) (p_str r)))
     else if (of_char c :: nat) < 32 then None
     else map_option (\<lambda>(t, z). (c # t, z)) (p_str s))"
  by pat_completeness auto
termination
  by (relation "measure length") (auto dest: p_unicode_length)

definition is_num_char :: "char \<Rightarrow> bool" where
  "is_num_char c \<longleftrightarrow> is_digit c \<or> c \<in> set ''+-.eE''"

definition strip_minus :: "string \<Rightarrow> bool \<times> string" where
  "strip_minus s = (case s of c # r \<Rightarrow> if c = CHR ''-'' then (True, r) else (False, s) | [] \<Rightarrow> (False, []))"

definition valid_int_part :: "string \<Rightarrow> bool" where
  "valid_int_part s \<longleftrightarrow> s \<noteq> [] \<and> (hd s = CHR ''0'' \<longrightarrow> tl s = [])"

text \<open>A number literal is split into sign, integer digits, fraction digits and exponent.\<close>

definition split_number :: "string \<Rightarrow> (bool \<times> string \<times> string option \<times> int option) option" where
  "split_number lit =
    (let (neg, s) = strip_minus lit;
         i = takeWhile is_digit s;
         r = dropWhile is_digit s;
         (fp, r1) = (case r of
            c # t \<Rightarrow> if c = CHR ''.'' then (Some (takeWhile is_digit t), dropWhile is_digit t) else (None, r)
          | [] \<Rightarrow> (None, []));
         ex = (case r1 of
            [] \<Rightarrow> Some None
          | c # t \<Rightarrow>
              if c = CHR ''e'' \<or> c = CHR ''E'' then
                (let (eneg, t1) = (case t of
                        d # u \<Rightarrow> if d = CHR ''-'' then (True, u) else if d = CHR ''+'' then (False, u) else (False, t)
                      | [] \<Rightarrow> (False, []))
                 in if t1 \<noteq> [] \<and> list_all is_digit t1
                    then Some (Some ((if eneg then - 1 else 1) * int (foldl (\<lambda>n c. 10 * n + digit_val c) 0 t1)))
                    else None)
              else None)
     in if valid_int_part i \<and> fp \<noteq> Some []
        then map_option (\<lambda>e. (neg, i, fp, e)) ex else None)"

definition p_lit :: "string \<Rightarrow> json \<Rightarrow> string \<Rightarrow> (json \<times> string) option" where
  "p_lit w v s = map_option (Pair v) (cut_prefix s w)"

definition p_num :: "string \<Rightarrow> (json \<times> string) option" where
  "p_num s = (let lit = takeWhile is_num_char s in
     if split_number lit = None then None else Some (JNum lit, dropWhile is_num_char s))"

text \<open>
  Values, the rest of an array after \<open>[\<close> or a comma, the rest of an object after an opening brace
  or a comma.
\<close>

fun p_val :: "nat \<Rightarrow> string \<Rightarrow> (json \<times> string) option"
and p_elems :: "nat \<Rightarrow> string \<Rightarrow> (json list \<times> string) option"
and p_members :: "nat \<Rightarrow> string \<Rightarrow> ((string \<times> json) list \<times> string) option" where
  "p_val 0 s = None"
| "p_val (Suc n) s = (case skip_ws s of
     [] \<Rightarrow> None
   | c # r \<Rightarrow>
       if c = CHR ''{'' then
         (case skip_ws r of
            [] \<Rightarrow> None
          | d # r' \<Rightarrow> if d = CHR ''}'' then Some (JObj [], r')
                     else map_option (\<lambda>(m, z). (JObj m, z)) (p_members n r))
       else if c = CHR ''['' then
         (case skip_ws r of
            [] \<Rightarrow> None
          | d # r' \<Rightarrow> if d = CHR '']'' then Some (JArr [], r')
                     else map_option (\<lambda>(m, z). (JArr m, z)) (p_elems n r))
       else if c = CHR 0x22 then map_option (\<lambda>(t, z). (JStr t, z)) (p_str r)
       else if c = CHR ''t'' then p_lit ''true'' (JBool True) (c # r)
       else if c = CHR ''f'' then p_lit ''false'' (JBool False) (c # r)
       else if c = CHR ''n'' then p_lit ''null'' JNull (c # r)
       else p_num (c # r))"
| "p_elems 0 s = None"
| "p_elems (Suc n) s = (case p_val n s of
     None \<Rightarrow> None
   | Some (v, r) \<Rightarrow>
       (case skip_ws r of
          [] \<Rightarrow> None
        | d # r' \<Rightarrow>
            if d = CHR '']'' then Some ([v], r')
            else if d = CHR '','' then map_option (\<lambda>(vs, z). (v # vs, z)) (p_elems n r')
            else None))"
| "p_members 0 s = None"
| "p_members (Suc n) s = (case skip_ws s of
     [] \<Rightarrow> None
   | q # r \<Rightarrow>
       if q \<noteq> CHR 0x22 then None
       else (case p_str r of
          None \<Rightarrow> None
        | Some (k, r1) \<Rightarrow>
            (case skip_ws r1 of
               [] \<Rightarrow> None
             | d # r2 \<Rightarrow>
                 if d \<noteq> CHR '':'' then None
                 else (case p_val n r2 of
                    None \<Rightarrow> None
                  | Some (v, r3) \<Rightarrow>
                      (case skip_ws r3 of
                         [] \<Rightarrow> None
                       | e # r4 \<Rightarrow>
                           if e = CHR ''}'' then Some ([(k, v)], r4)
                           else if e = CHR '','' then
                             map_option (\<lambda>(kvs, z). ((k, v) # kvs, z)) (p_members n r4)
                           else None)))))"

definition json_fuel :: "string \<Rightarrow> nat" where
  "json_fuel s = Suc (2 * length s)"

definition json_decode :: "string \<Rightarrow> json option" where
  "json_decode s = map_option fst (p_val (json_fuel s) s)"

definition json_unmarshal :: "string \<Rightarrow> json option" where
  "json_unmarshal s = (case p_val (json_fuel s) s of
     Some (v, r) \<Rightarrow> if list_all is_space r then Some v else None
   | None \<Rightarrow> None)"

subsection \<open>The fuel is enough\<close>

lemma skip_ws_length: "length (skip_ws s) \<le> length s"
  by (simp add: skip_ws_def length_dropWhile_le)

lemma skip_ws_Cons: "skip_ws s = c # r \<Longrightarrow> length r < length s"
  using skip_ws_length [of s] by simp

lemma p_str_length: "p_str s = Some (t, r) \<Longrightarrow> length r < length s"
proof (induction s arbitrary: t r rule: length_induct)
  case (1 s)
  have IH: "p_str z = Some (t', r) \<Longrightarrow> length z < length s \<Longrightarrow> length r < length z" for z t'
    using "1.IH" by blast
  from "1.prems" show ?case
    by (cases s) (auto split: if_splits list.splits option.splits prod.splits
        dest: p_unicode_length dest!: IH)
qed

lemma p_lit_length: "p_lit w v s = Some (x, r) \<Longrightarrow> w \<noteq> [] \<Longrightarrow> length r < length s"
  by (cases w) (auto simp: p_lit_def dest!: cut_prefix_length)

lemma split_number_Nil: "split_number [] = None"
  by (simp add: split_number_def strip_minus_def valid_int_part_def)

lemma p_num_length: "p_num s = Some (v, r) \<Longrightarrow> length r < length s"
proof -
  assume "p_num s = Some (v, r)"
  then have r: "r = dropWhile is_num_char s" and ne: "takeWhile is_num_char s \<noteq> []"
    using split_number_Nil by (auto simp: p_num_def Let_def split: if_splits)
  have "length s = length (takeWhile is_num_char s) + length r"
    by (metis r length_append takeWhile_dropWhile_id)
  with ne show ?thesis by simp
qed

lemmas json_splits = if_splits list.splits option.splits prod.splits
lemmas json_lengths = skip_ws_Cons p_str_length p_num_length

lemma p_lengths:
  "(\<forall>s v r. p_val n s = Some (v, r) \<longrightarrow> length r < length s) \<and>
   (\<forall>s v r. p_elems n s = Some (v, r) \<longrightarrow> length r < length s) \<and>
   (\<forall>s v r. p_members n s = Some (v, r) \<longrightarrow> length r < length s)"
proof (induction n)
  case 0
  then show ?case by simp
next
  case (Suc n)
  then have v: "p_val n s = Some (x, r) \<Longrightarrow> length r < length s"
    and e: "p_elems n s = Some (xs, r) \<Longrightarrow> length r < length s"
    and m: "p_members n s = Some (kvs, r) \<Longrightarrow> length r < length s" for s r x xs kvs
    by blast+
  have "p_val (Suc n) s = Some (x, r) \<Longrightarrow> length r < length s" for s r x
    by (auto split: json_splits dest!: json_lengths p_lit_length e m)
  moreover have "p_elems (Suc n) s = Some (xs, r) \<Longrightarrow> length r < length s" for s r xs
    by (auto split: json_splits dest!: json_lengths v e)
  moreover have "p_members (Suc n) s = Some (kvs, r) \<Longrightarrow> length r < length s" for s r kvs
    by (auto split: json_splits dest!: json_lengths v m)
  ultimately show ?case by blast
qed

lemma p_val_length: "p_val n s = Some (v, r) \<Longrightarrow> length r < length s"
  using p_lengths by blast

lemma p_stable:
  "(\<forall>s. 2 * length s < n \<longrightarrow> p_val (Suc n) s = p_val n s) \<and>
   (\<forall>s. Suc (2 * length s) < n \<longrightarrow> p_elems (Suc n) s = p_elems n s) \<and>
   (\<forall>s. Suc (2 * length s) < n \<longrightarrow> p_members (Suc n) s = p_members n s)"
proof (induction n)
  case 0
  then show ?case by simp
next
  case (Suc n)
  then have v: "2 * length s < n \<Longrightarrow> p_val (Suc n) s = p_val n s"
    and e: "Suc (2 * length s) < n \<Longrightarrow> p_elems (Suc n) s = p_elems n s"
    and m: "Suc (2 * length s) < n \<Longrightarrow> p_members (Suc n) s = p_members n s" for s
    by blast+
  have "p_val (Suc (Suc n)) s = p_val (Suc n) s" if "2 * length s < Suc n" for s
  proof (cases "skip_ws s")
    case (Cons c r)
    then have "Suc (2 * length r) < n" using that skip_ws_Cons by fastforce
    with Cons show ?thesis
      by (simp add: e m p_val.simps(2) [of "Suc n" s] p_val.simps(2) [of n s]
          del: p_val.simps p_elems.simps p_members.simps split: list.split)
  qed simp
  moreover have "p_elems (Suc (Suc n)) s = p_elems (Suc n) s" if "Suc (2 * length s) < Suc n" for s
  proof -
    have "p_elems (Suc n) z = p_elems n z" if "length z < length s" for z
      using that \<open>Suc (2 * length s) < Suc n\<close> by (intro e) simp
    moreover have "p_val (Suc n) s = p_val n s" using that by (intro v) simp
    ultimately show ?thesis
      by (auto simp: p_elems.simps(2) [of "Suc n" s] p_elems.simps(2) [of n s]
          simp del: p_val.simps p_elems.simps p_members.simps
          split: list.splits option.splits dest!: p_val_length skip_ws_Cons)
  qed
  moreover have "p_members (Suc (Suc n)) s = p_members (Suc n) s" if "Suc (2 * length s) < Suc n" for s
  proof -
    have m': "p_members (Suc n) z = p_members n z" if "length z < length s" for z
      using that \<open>Suc (2 * length s) < Suc n\<close> by (intro m) simp
    have v': "p_val (Suc n) z = p_val n z" if "length z < length s" for z
      using that \<open>Suc (2 * length s) < Suc n\<close> by (intro v) simp
    note step = p_members.simps(2) [of "Suc n" s] p_members.simps(2) [of n s]
    show ?thesis
    proof (cases "\<exists>q r k r1 d r2. skip_ws s = q # r \<and> p_str r = Some (k, r1) \<and> skip_ws r1 = d # r2")
      case True
      then obtain q r k r1 d r2 where eqs: "skip_ws s = q # r" "p_str r = Some (k, r1)" "skip_ws r1 = d # r2"
        by blast
      then have len: "length r2 < length s" by (auto dest!: json_lengths)
      have "length r4 < length s" if "p_val n r2 = Some (x, r3)" "skip_ws r3 = e # r4" for x r3 e r4
        using that len by (auto dest!: p_val_length skip_ws_Cons)
      with eqs show ?thesis
        by (auto simp: step v' [OF len] m' simp del: p_val.simps p_members.simps
            split: list.split option.split)
    next
      case False
      then show ?thesis
        by (fastforce simp: step simp del: p_val.simps p_members.simps split: list.splits option.splits)
    qed
  qed
  ultimately show ?case by blast
qed

lemma p_val_enough: "json_fuel s \<le> n \<Longrightarrow> p_val n s = p_val (json_fuel s) s"
proof (induction rule: dec_induct)
  case (step k)
  then show ?case using p_stable [of k] by (simp add: json_fuel_def del: p_val.simps)
qed simp

section \<open>Numbers\<close>

text \<open>
  A literal decoded into an integer field: only a plain integer literal is accepted, and the
  range is checked by the field. Decoded into \<open>any\<close>, a literal becomes the float64 nearest to
  it, ties to even, or an error when it is out of range.
\<close>

definition dec_val :: "string \<Rightarrow> nat" where
  "dec_val ds = foldl (\<lambda>n c. 10 * n + digit_val c) 0 ds"

definition lit_int :: "string \<Rightarrow> int option" where
  "lit_int lit = (case split_number lit of
     Some (neg, i, None, None) \<Rightarrow> Some (if neg then - int (dec_val i) else int (dec_val i))
   | _ \<Rightarrow> None)"

definition lit_int64 :: "string \<Rightarrow> int option" where
  "lit_int64 lit = (case lit_int lit of
     Some n \<Rightarrow> if - (2 ^ 63) \<le> n \<and> n < 2 ^ 63 then Some n else None
   | None \<Rightarrow> None)"

definition lit_uint64 :: "string \<Rightarrow> u64 option" where
  "lit_uint64 lit = (case (strip_minus lit, lit_int lit) of
     ((False, _), Some n) \<Rightarrow> if n < 2 ^ 64 then Some (of_int n) else None
   | _ \<Rightarrow> None)"

fun bit_len :: "nat \<Rightarrow> nat" where
  "bit_len n = (if n = 0 then 0 else Suc (bit_len (n div 2)))"

declare bit_len.simps [simp del]

definition round_half_even :: "nat \<Rightarrow> nat \<Rightarrow> nat" where
  "round_half_even p q =
    (let d = p div q; r = p mod q in
     if 2 * r < q then d else if q < 2 * r then Suc d else if even d then d else Suc d)"

definition scale_num :: "nat \<Rightarrow> int \<Rightarrow> nat" where
  "scale_num p e = (if e < 0 then p * 2 ^ nat (- e) else p)"

definition scale_den :: "nat \<Rightarrow> int \<Rightarrow> nat" where
  "scale_den q e = (if e < 0 then q else q * 2 ^ nat e)"

definition f64_exponent :: "nat \<Rightarrow> nat \<Rightarrow> int" where
  "f64_exponent p q =
    (let e = max (int (bit_len p) - int (bit_len q) - 53) (- 1074) in
     if 2 ^ 53 \<le> scale_num p e div scale_den q e then e + 1 else e)"

definition f64_of_ratio :: "nat \<Rightarrow> nat \<Rightarrow> rat option" where
  "f64_of_ratio p q =
    (let e = f64_exponent p q;
         m = round_half_even (scale_num p e) (scale_den q e);
         v = (if e < 0 then of_nat m / 2 ^ nat (- e) else of_nat m * 2 ^ nat e)
     in if v < 2 ^ 1024 then Some v else None)"

definition lit_float :: "string \<Rightarrow> rat option" where
  "lit_float lit = (case split_number lit of
     None \<Rightarrow> None
   | Some (neg, i, fp, ex) \<Rightarrow>
       (let f = (case fp of None \<Rightarrow> [] | Some f \<Rightarrow> f);
            m = dec_val (i @ f);
            e = (case ex of None \<Rightarrow> 0 | Some e \<Rightarrow> e) - int (length f)
        in map_option (\<lambda>v. if neg then - v else v)
             (if e < 0 then f64_of_ratio m (10 ^ nat (- e)) else f64_of_ratio (m * 10 ^ nat e) 1)))"

text \<open>
  The conversion \<open>uint64(f)\<close>. Out of the range of uint64 Go leaves the result to the
  implementation: \<open>oob\<close> is that choice.
\<close>

definition uint64_of_float :: "(rat \<Rightarrow> u64) \<Rightarrow> rat \<Rightarrow> u64" where
  "uint64_of_float oob f = (if 0 \<le> f \<and> f < 2 ^ 64 then of_int \<lfloor>f\<rfloor> else oob f)"

subsection \<open>Integers below \<open>2 ^ 53\<close> are read exactly\<close>

lemma bit_len_bounds: "0 < n \<Longrightarrow> 2 ^ (bit_len n - 1) \<le> n \<and> n < 2 ^ bit_len n \<and> 0 < bit_len n"
proof (induction n rule: bit_len.induct)
  case (1 n)
  show ?case
  proof (cases "n = 1")
    case True
    then show ?thesis by (simp add: bit_len.simps)
  next
    case False
    let ?m = "n div 2"
    have m: "0 < ?m" using False "1.prems" by linarith
    with "1.IH" "1.prems" have IH: "2 ^ (bit_len ?m - 1) \<le> ?m" "?m < 2 ^ bit_len ?m" "0 < bit_len ?m"
      by auto
    have len: "bit_len n = Suc (bit_len ?m)" using "1.prems" by (subst bit_len.simps) simp
    obtain k where k: "bit_len ?m = Suc k" using IH(3) gr0_implies_Suc by blast
    have "2 ^ Suc k \<le> n" using IH(1) k by simp
    moreover have "n < 2 ^ Suc (Suc k)" using IH(2) k by simp
    ultimately show ?thesis by (simp add: len k)
  qed
qed

lemma round_half_even_exact: "0 < q \<Longrightarrow> round_half_even (m * q) q = m"
  by (simp add: round_half_even_def)

lemma bit_len_le:
  assumes "0 < n" and "n < 2 ^ k"
  shows "bit_len n \<le> k"
proof (rule ccontr)
  assume "\<not> bit_len n \<le> k"
  then have "(2::nat) ^ k \<le> 2 ^ (bit_len n - 1)" by (intro power_increasing) auto
  with bit_len_bounds [OF assms(1)] assms(2) show False by linarith
qed

lemma f64_of_small:
  assumes "n < 2 ^ 53"
  shows "f64_of_ratio n 1 = Some (of_nat n)"
proof (cases "n = 0")
  case True
  have "scale_num 0 e = 0" for e by (simp add: scale_num_def)
  then show ?thesis by (simp add: True f64_of_ratio_def round_half_even_def Let_def)
next
  case False
  define b where "b = bit_len n"
  have b: "2 ^ (b - 1) \<le> n" "0 < b" "b \<le> 53"
    using bit_len_bounds [of n] bit_len_le [of n 53] False assms by (auto simp: b_def)
  have one: "bit_len 1 = 1" by (simp add: bit_len.simps)
  have "(2::nat) ^ 53 = 2 ^ (b - 1) * 2 ^ (54 - b)"
    using b by (simp add: power_add [symmetric])
  also have "\<dots> \<le> n * 2 ^ (54 - b)" using b(1) by (rule mult_le_mono1)
  finally have big: "2 ^ 53 \<le> n * 2 ^ (54 - b)" .
  have nat_b: "nat (54 - int b) = 54 - b" "nat (53 - int b) = 53 - b" using b(3) by simp_all
  have max_b: "max (int b - 1 - 53) (- 1074) = int b - 54" using b(2) by simp
  have e: "f64_exponent n 1 = int b - 53"
    using b big unfolding f64_exponent_def one b_def [symmetric] Let_def int_ops(2) max_b
    by (simp add: scale_num_def scale_den_def nat_b)
  have r: "round_half_even (n * 2 ^ (53 - b)) 1 = n * 2 ^ (53 - b)"
    using round_half_even_exact [of 1 "n * 2 ^ (53 - b)"] by simp
  have "(of_nat n :: rat) < of_nat (2 ^ 53)" using assms by (simp only: of_nat_less_iff)
  then have lt: "(of_nat n :: rat) < 2 ^ 1024" by simp
  show ?thesis
  proof (cases "b = 53")
    case True
    with r lt show ?thesis by (simp add: f64_of_ratio_def e scale_num_def scale_den_def Let_def del: One_nat_def)
  next
    case False
    with b(3) r lt show ?thesis
      by (simp add: f64_of_ratio_def e scale_num_def scale_den_def nat_b Let_def del: One_nat_def)
  qed
qed

lemma lit_float_small:
  "split_number lit = Some (False, i, None, None) \<Longrightarrow> dec_val i < 2 ^ 53 \<Longrightarrow>
   lit_float lit = Some (of_nat (dec_val i))"
  by (simp add: lit_float_def f64_of_small del: One_nat_def)

section \<open>Decoding\<close>

fun to_any :: "json \<Rightarrow> goany option" where
  "to_any JNull = Some GNil"
| "to_any (JBool b) = Some (GBool b)"
| "to_any (JNum lit) = map_option GNum (lit_float lit)"
| "to_any (JStr t) = Some (GStr t)"
| "to_any (JArr js) = map_option GArr (those (map to_any js))"
| "to_any (JObj kvs) =
     map_option GObj (those (map (\<lambda>kv. map_option (Pair (fst kv)) (to_any (snd kv))) kvs))"

type_synonym gomap = "string \<Rightarrow> goany option"

text \<open>A Go map built from the members of an object: of two equal keys the later one stays.\<close>

definition gomap_of :: "(string \<times> goany) list \<Rightarrow> gomap" where
  "gomap_of kvs = map_of (rev kvs)"

definition any_map :: "json \<Rightarrow> gomap option" where
  "any_map j = (case j of
     JNull \<Rightarrow> Some Map.empty
   | JObj kvs \<Rightarrow>
       (case to_any j of Some (GObj m) \<Rightarrow> Some (gomap_of m) | _ \<Rightarrow> None)
   | _ \<Rightarrow> None)"

text \<open>\<open>json.Unmarshal(text, &m)\<close> for a variable \<open>m\<close> of type \<open>map[string]any\<close>.\<close>

definition unmarshal_map :: "string \<Rightarrow> gomap option" where
  "unmarshal_map s = Option.bind (json_unmarshal s) any_map"

text \<open>\<open>m[k]\<close>, which is \<open>nil\<close> for a missing key, and the type assertions with \<open>ok\<close>.\<close>

definition map_index :: "gomap \<Rightarrow> string \<Rightarrow> goany" where
  "map_index m k = (case m k of None \<Rightarrow> GNil | Some v \<Rightarrow> v)"

definition as_string :: "goany \<Rightarrow> string option" where
  "as_string v = (case v of GStr s \<Rightarrow> Some s | _ \<Rightarrow> None)"

lemma as_string_iff [simp]: "as_string v = Some t \<longleftrightarrow> v = GStr t"
  by (cases v) (simp_all add: as_string_def)

lemma as_string_GStr [simp]: "as_string (GStr t) = Some t"
  by simp

definition as_float :: "goany \<Rightarrow> rat option" where
  "as_float v = (case v of GNum f \<Rightarrow> Some f | _ \<Rightarrow> None)"

lemma as_float_iff [simp]: "as_float v = Some f \<longleftrightarrow> v = GNum f"
  by (cases v) (simp_all add: as_float_def)

lemma as_float_GNum [simp]: "as_float (GNum f) = Some f"
  by simp

definition as_slice :: "goany \<Rightarrow> goany list option" where
  "as_slice v = (case v of GArr vs \<Rightarrow> Some vs | _ \<Rightarrow> None)"

definition as_map :: "goany \<Rightarrow> gomap option" where
  "as_map v = (case v of GObj kvs \<Rightarrow> Some (gomap_of kvs) | _ \<Rightarrow> None)"

text \<open>
  Decoding an object into a struct: \<open>assign\<close> handles one member, in the order of the text, and
  \<open>None\<close> is a type mismatch, which makes the whole call fail. \<open>decode_struct\<close> is the rule for
  the three shapes of JSON value: an object assigns fields, \<open>null\<close> leaves the value as it is, and
  everything else is a mismatch.
\<close>

fun fold_fields :: "(string \<Rightarrow> json \<Rightarrow> 'a \<Rightarrow> 'a option) \<Rightarrow> (string \<times> json) list \<Rightarrow> 'a \<Rightarrow> 'a option" where
  "fold_fields assign [] a = Some a"
| "fold_fields assign ((k, v) # kvs) a = Option.bind (assign k v a) (fold_fields assign kvs)"

definition decode_struct :: "(string \<Rightarrow> json \<Rightarrow> 'a \<Rightarrow> 'a option) \<Rightarrow> json \<Rightarrow> 'a \<Rightarrow> 'a option" where
  "decode_struct assign j a = (case j of
     JNull \<Rightarrow> Some a
   | JObj kvs \<Rightarrow> fold_fields assign kvs a
   | _ \<Rightarrow> None)"

definition decode_string :: "json \<Rightarrow> string \<Rightarrow> string option" where
  "decode_string j old = (case j of JNull \<Rightarrow> Some old | JStr s \<Rightarrow> Some s | _ \<Rightarrow> None)"

definition decode_int :: "json \<Rightarrow> int \<Rightarrow> int option" where
  "decode_int j old = (case j of JNull \<Rightarrow> Some old | JNum lit \<Rightarrow> lit_int64 lit | _ \<Rightarrow> None)"

definition decode_uint64 :: "json \<Rightarrow> u64 \<Rightarrow> u64 option" where
  "decode_uint64 j old = (case j of JNull \<Rightarrow> Some old | JNum lit \<Rightarrow> lit_uint64 lit | _ \<Rightarrow> None)"

end
