(* ===== verification/GoHttp.thy ===== *)
theory GoHttp
  imports GoJson
begin

text \<open>
  What the gateway uses of package \<open>net/http\<close>: headers with canonical keys, requests and
  responses, the response writer with its single header write, and \<open>io.Copy\<close> into it. The network
  is an environment: which requests are refused before they are sent, and how the upstream server
  answers a request.
\<close>

section \<open>Headers\<close>

type_synonym header = "string \<Rightarrow> string list option"

definition token_char :: "char \<Rightarrow> bool" where
  "token_char c \<longleftrightarrow> (let n = of_char c :: nat in
     (48 \<le> n \<and> n \<le> 57) \<or> (65 \<le> n \<and> n \<le> 90) \<or> (97 \<le> n \<and> n \<le> 122)
     \<or> c \<in> set ''!#$%&*+-.^_`|~'' \<or> n = 39)"

fun canonical_from :: "bool \<Rightarrow> string \<Rightarrow> string" where
  "canonical_from up [] = []"
| "canonical_from up (c # s) =
     (if up then upper_char c else lower_char c) # canonical_from (c = CHR ''-'') s"

text \<open>\<open>textproto.CanonicalMIMEHeaderKey\<close>: a key with a byte that is no token is left alone.\<close>

definition canonical_key :: "string \<Rightarrow> string" where
  "canonical_key k = (if list_all token_char k then canonical_from True k else k)"

definition header_get :: "header \<Rightarrow> string \<Rightarrow> string" where
  "header_get h k = (case h (canonical_key k) of Some (v # _) \<Rightarrow> v | _ \<Rightarrow> [])"

definition header_set :: "header \<Rightarrow> string \<Rightarrow> string \<Rightarrow> header" where
  "header_set h k v = h(canonical_key k \<mapsto> [v])"

text \<open>\<open>maps.Copy(dst, src)\<close>.\<close>

definition maps_copy :: "header \<Rightarrow> header \<Rightarrow> header" where
  "maps_copy dst src = dst ++ src"

text \<open>\<open>for key, value := range m { h.Set(key, value) }\<close> in the iteration order \<open>m\<close>.\<close>

fun set_headers :: "(string \<times> string) list \<Rightarrow> header \<Rightarrow> header" where
  "set_headers [] h = h"
| "set_headers ((k, v) # kvs) h = set_headers kvs (header_set h k v)"

lemma header_get_set_same [simp]: "header_get (header_set h k v) k = v"
  by (simp add: header_get_def header_set_def)

lemma header_get_set_other:
  "canonical_key k \<noteq> canonical_key k' \<Longrightarrow> header_get (header_set h k v) k' = header_get h k'"
  by (simp add: header_get_def header_set_def)

lemma set_headers_other:
  "canonical_key k \<notin> (canonical_key \<circ> fst) ` set kvs \<Longrightarrow>
   set_headers kvs h (canonical_key k) = h (canonical_key k)"
  by (induction kvs h rule: set_headers.induct) (auto simp: header_set_def)

lemma set_headers_lookup:
  "(k, v) \<in> set kvs \<Longrightarrow> distinct (map (canonical_key \<circ> fst) kvs) \<Longrightarrow>
   set_headers kvs h (canonical_key k) = Some [v]"
proof (induction kvs h rule: set_headers.induct)
  case (2 k' v' kvs h)
  show ?case
  proof (cases "(k, v) = (k', v')")
    case True
    with "2.prems"(2) have "canonical_key k \<notin> (canonical_key \<circ> fst) ` set kvs"
      by (auto simp: image_iff)
    with True show ?thesis by (simp add: set_headers_other header_set_def)
  qed (use 2 in auto)
qed simp

section \<open>Requests and responses\<close>

text \<open>An upstream request; \<open>hr_query\<close> is the raw query that is sent.\<close>

record HttpRequest =
  hr_method :: string
  hr_url :: string
  hr_query :: string
  hr_header :: header
  hr_body :: string

text \<open>
  An upstream response. \<open>rs_body\<close> are the bytes the body delivers, and \<open>rs_err\<close> the error that
  ends the body in place of EOF, if any.
\<close>

record HttpResponse =
  rs_status :: int
  rs_header :: header
  rs_body :: string
  rs_err :: "goerr option"

text \<open>
  The environment of outgoing requests: \<open>new_request\<close> is the error of
  \<open>http.NewRequestWithContext\<close> for a method and a URL, \<open>do_request n\<close> is the outcome of the
  n-th \<open>client.Do\<close> of a handler, its context's timeout included.
\<close>

record http_env =
  new_request :: "string \<Rightarrow> string \<Rightarrow> goerr option"
  do_request :: "nat \<Rightarrow> HttpRequest \<Rightarrow> goerr + HttpResponse"

text \<open>\<open>req.URL.RawQuery\<close> of a URL: what follows the first question mark before the fragment.\<close>

definition url_query :: "string \<Rightarrow> string" where
  "url_query u = tl (dropWhile (\<lambda>c. c \<noteq> CHR ''?'') (takeWhile (\<lambda>c. c \<noteq> CHR ''#'') u))"

section \<open>The response writer\<close>

text \<open>
  \<open>rw_sent\<close> is the status and the header snapshot of the first \<open>WriteHeader\<close>; later calls
  change nothing and are counted as superfluous. The body is a list of chunks: bytes of an upstream
  with its name, a JSON value that the gateway writes, plain text. \<open>rw_fail\<close> is the client's connection: after that many more bytes a write
  fails with the error.
\<close>

datatype chunk = Upstream string string | JsonBody goany | PlainText string

record ResponseWriter =
  rw_header :: header
  rw_sent :: "(int \<times> header) option"
  rw_superfluous :: nat
  rw_body :: "chunk list"
  rw_fail :: "(nat \<times> goerr) option"

definition write_header :: "int \<Rightarrow> ResponseWriter \<Rightarrow> ResponseWriter" where
  "write_header status w = (case rw_sent w of
     None \<Rightarrow> w\<lparr>rw_sent := Some (status, rw_header w)\<rparr>
   | Some _ \<Rightarrow> w\<lparr>rw_superfluous := Suc (rw_superfluous w)\<rparr>)"

text \<open>A write before any \<open>WriteHeader\<close> sends status 200 first.\<close>

definition write_chunk :: "chunk \<Rightarrow> ResponseWriter \<Rightarrow> ResponseWriter" where
  "write_chunk c w = (let w1 = (if rw_sent w = None then write_header 200 w else w)
     in w1\<lparr>rw_body := rw_body w1 @ [c]\<rparr>)"

definition set_header :: "string \<Rightarrow> string \<Rightarrow> ResponseWriter \<Rightarrow> ResponseWriter" where
  "set_header k v w = w\<lparr>rw_header := header_set (rw_header w) k v\<rparr>"

text \<open>\<open>http.Error(w, msg, status)\<close>.\<close>

definition http_error :: "string \<Rightarrow> int \<Rightarrow> ResponseWriter \<Rightarrow> ResponseWriter" where
  "http_error msg status w =
    write_chunk (PlainText (msg @ [CHR 0x0A]))
      (write_header status
        (set_header ''X-Content-Type-Options'' ''nosniff''
          (set_header ''Content-Type'' ''text/plain; charset=utf-8''
            (w\<lparr>rw_header := (rw_header w)(canonical_key ''Content-Length'' := None)\<rparr>))))"

text \<open>
  \<open>io.Copy(w, resp.Body)\<close>: reads from the upstream and writes to the client until one of them
  fails or the body ends. The error returned is the writer's when the client fails first, the
  body's otherwise.
\<close>

definition emit :: "string \<Rightarrow> string \<Rightarrow> ResponseWriter \<Rightarrow> ResponseWriter" where
  "emit who bs w = (if bs = [] then w else write_chunk (Upstream who bs) w)"

definition io_copy :: "string \<Rightarrow> HttpResponse \<Rightarrow> ResponseWriter \<Rightarrow> ResponseWriter \<times> goerr option" where
  "io_copy who resp w = (case rw_fail w of
     Some (n, e) \<Rightarrow>
       if n < length (rs_body resp)
       then (emit who (take n (rs_body resp)) (w\<lparr>rw_fail := Some (0, e)\<rparr>), Some e)
       else (emit who (rs_body resp) (w\<lparr>rw_fail := Some (n - length (rs_body resp), e)\<rparr>), rs_err resp)
   | None \<Rightarrow> (emit who (rs_body resp) w, rs_err resp))"

lemma write_header_simps [world_simps]:
  "rw_header (write_header s w) = rw_header w"
  "rw_body (write_header s w) = rw_body w"
  "rw_fail (write_header s w) = rw_fail w"
  "rw_sent (write_header s w) \<noteq> None"
  by (auto simp: write_header_def split: option.splits)

lemma write_chunk_simps [world_simps]:
  "rw_header (write_chunk c w) = rw_header w"
  "rw_body (write_chunk c w) = rw_body w @ [c]"
  "rw_fail (write_chunk c w) = rw_fail w"
  "rw_sent (write_chunk c w) \<noteq> None"
  by (auto simp: write_chunk_def write_header_def Let_def split: option.splits)

lemma write_chunk_sent [world_simps]:
  "rw_sent w \<noteq> None \<Longrightarrow> rw_sent (write_chunk c w) = rw_sent w"
  "rw_superfluous (write_chunk c w) = rw_superfluous w"
  by (auto simp: write_chunk_def write_header_def Let_def)

lemma set_header_simps [world_simps]:
  "rw_header (set_header k v w) = header_set (rw_header w) k v"
  "rw_sent (set_header k v w) = rw_sent w"
  "rw_superfluous (set_header k v w) = rw_superfluous w"
  "rw_body (set_header k v w) = rw_body w"
  "rw_fail (set_header k v w) = rw_fail w"
  by (simp_all add: set_header_def)

lemma write_header_first [world_simps]:
  "rw_sent w = None \<Longrightarrow> rw_sent (write_header s w) = Some (s, rw_header w)"
  "rw_sent w = None \<Longrightarrow> rw_superfluous (write_header s w) = rw_superfluous w"
  by (simp_all add: write_header_def)

lemma emit_simps [world_simps]:
  "rw_header (emit who bs w) = rw_header w"
  "rw_superfluous (emit who bs w) = rw_superfluous w"
  "rw_fail (emit who bs w) = rw_fail w"
  "rw_body (emit who bs w) = rw_body w @ (if bs = [] then [] else [Upstream who bs])"
  "rw_sent w \<noteq> None \<Longrightarrow> rw_sent (emit who bs w) = rw_sent w"
  by (simp_all add: emit_def world_simps)

lemma io_copy_simps [world_simps]:
  "rw_header (fst (io_copy who resp w)) = rw_header w"
  "rw_superfluous (fst (io_copy who resp w)) = rw_superfluous w"
  "rw_sent w \<noteq> None \<Longrightarrow> rw_sent (fst (io_copy who resp w)) = rw_sent w"
  by (auto simp: io_copy_def world_simps split: option.split prod.split)

lemma io_copy_body:
  obtains bs where "rw_body (fst (io_copy who resp w)) = rw_body w @ (if bs = [] then [] else [Upstream who bs])"
proof (cases "rw_fail w")
  case None
  then show thesis by (intro that [of "rs_body resp"]) (simp add: io_copy_def world_simps)
next
  case (Some f)
  obtain n e where "f = (n, e)" by (cases f)
  with Some show thesis
    using that [of "take n (rs_body resp)"] that [of "rs_body resp"]
    by (cases "n < length (rs_body resp)") (simp_all add: io_copy_def world_simps)
qed

lemma io_copy_no_failure:
  "rw_fail w = None \<Longrightarrow> io_copy who resp w = (emit who (rs_body resp) w, rs_err resp)"
  by (simp add: io_copy_def)

end
