(* ===== verification/Config.thy ===== *)
theory Config
  imports GoHttp
begin

text \<open>
  Configuration records: \<open>internal/proxy/config.go\<close>, \<open>internal/metrics/config.go\<close> and
  \<open>internal/rpcgateway/config.go\<close>. The YAML decoder that fills them is not modelled; the logger
  fields are left out with all logging. The header map of a provider is the list of its entries
  in iteration order.
\<close>

section \<open>internal/proxy/config.go\<close>

record HealthCheckConfig =
  hcc_Interval :: duration
  hcc_BlockDiffThreshold :: u64

record HTTPConnection =
  http_URL :: string
  http_Headers :: "(string \<times> string) list"

record WebSocketConnection =
  ws_URL :: string

record ConnectionConfig =
  conn_HTTP :: HTTPConnection
  conn_WebSocket :: WebSocketConnection

record NodeProviderConfig =
  npc_Name :: string
  npc_Connection :: ConnectionConfig

record Config =
  cfg_Path :: string
  cfg_ChainType :: string
  cfg_Timeout :: duration
  cfg_HealthChecks :: HealthCheckConfig
  cfg_Targets :: "NodeProviderConfig list"
  cfg_PathIndex :: int
  cfg_MetricsEnabled :: bool

abbreviation target_http_url :: "NodeProviderConfig \<Rightarrow> string" where
  "target_http_url t \<equiv> http_URL (conn_HTTP (npc_Connection t))"

abbreviation target_ws_url :: "NodeProviderConfig \<Rightarrow> string" where
  "target_ws_url t \<equiv> ws_URL (conn_WebSocket (npc_Connection t))"

abbreviation target_headers :: "NodeProviderConfig \<Rightarrow> (string \<times> string) list" where
  "target_headers t \<equiv> http_Headers (conn_HTTP (npc_Connection t))"

definition mk_target :: "string \<Rightarrow> string \<Rightarrow> (string \<times> string) list \<Rightarrow> string \<Rightarrow> NodeProviderConfig" where
  "mk_target name url headers wsurl =
    \<lparr>npc_Name = name,
     npc_Connection = \<lparr>conn_HTTP = \<lparr>http_URL = url, http_Headers = headers\<rparr>,
                       conn_WebSocket = \<lparr>ws_URL = wsurl\<rparr>\<rparr>\<rparr>"

section \<open>internal/metrics/config.go\<close>

record MetricsConfig =
  met_Port :: u64

definition IsEnabled :: "MetricsConfig \<Rightarrow> bool" where
  "IsEnabled c \<longleftrightarrow> met_Port c > 0"

section \<open>internal/rpcgateway/config.go\<close>

record ProxyConfig =
  pc_Path :: string
  pc_ChainType :: string
  pc_Timeout :: string
  pc_HealthChecks :: HealthCheckConfig
  pc_Targets :: "NodeProviderConfig list"

record RPCGatewayConfig =
  gc_Metrics :: MetricsConfig
  gc_Port :: string
  gc_RandomizeProviders :: bool
  gc_Proxies :: "ProxyConfig list"

end
