(* ===== verification/Interfaces.thy ===== *)
theory Interfaces
  imports GoPrelude
begin

text \<open>
  The interfaces between components, as locales. \<open>absorbing\<close> and \<open>invariant_of\<close> are the contracts
  of step relations, \<open>registry\<close> and \<open>fresh_registry\<close> the contract of the get-or-create tables of
  HTTP clients, \<open>failover\<close> the contract that the request loop of a proxy relies on. Each is
  interpreted on the model's definitions in the theory of the component that provides it.
\<close>

section \<open>Step relations\<close>

inductive reach :: "('s \<Rightarrow> bool) \<Rightarrow> ('s \<Rightarrow> 's \<Rightarrow> bool) \<Rightarrow> 's \<Rightarrow> bool"
  for init :: "'s \<Rightarrow> bool" and step :: "'s \<Rightarrow> 's \<Rightarrow> bool" where
  reach_init: "init s \<Longrightarrow> reach init step s"
| reach_step: "reach init step s \<Longrightarrow> step s t \<Longrightarrow> reach init step t"

lemma reach_steps: "reach init step s \<Longrightarrow> step\<^sup>*\<^sup>* s t \<Longrightarrow> reach init step t"
  by (rotate_tac, induction rule: rtranclp_induct) (auto intro: reach_step)

lemma reach_mono:
  "reach init step s \<Longrightarrow> (\<And>s t. step s t \<Longrightarrow> step' s t) \<Longrightarrow> reach init step' s"
  by (induction rule: reach.induct) (auto intro: reach.intros)

text \<open>A predicate that no step leaves.\<close>

locale absorbing =
  fixes step :: "'s \<Rightarrow> 's \<Rightarrow> bool" and P :: "'s \<Rightarrow> bool"
  assumes absorb: "P s \<Longrightarrow> step s t \<Longrightarrow> P t"
begin

lemma absorb_steps: "step\<^sup>*\<^sup>* s t \<Longrightarrow> P s \<Longrightarrow> P t"
  by (induction rule: rtranclp_induct) (auto intro: absorb)

end

locale invariant_of = absorbing step P
  for step :: "'s \<Rightarrow> 's \<Rightarrow> bool" and P :: "'s \<Rightarrow> bool" +
  fixes init :: "'s \<Rightarrow> bool"
  assumes initially: "init s \<Longrightarrow> P s"
begin

lemma always: "reach init step s \<Longrightarrow> P s"
  by (induction rule: reach.induct) (auto intro: initially absorb)

end

section \<open>Get-or-create tables\<close>

text \<open>
  \<open>get k c s\<close> returns the entry under \<open>k\<close> and creates it from \<open>c\<close> when there is none;
  \<open>lookup s k\<close> is the entry without creating it.
\<close>

locale registry =
  fixes lookup :: "'s \<Rightarrow> 'k \<Rightarrow> 'v option"
    and get :: "'k \<Rightarrow> 'c \<Rightarrow> 's \<Rightarrow> 'v \<times> 's"
    and ok :: "'s \<Rightarrow> bool"
  assumes get_hit: "ok s \<Longrightarrow> lookup s k = Some v \<Longrightarrow> get k c s = (v, s)"
    and get_stored: "ok s \<Longrightarrow> lookup (snd (get k c s)) k = Some (fst (get k c s))"
    and get_frame: "ok s \<Longrightarrow> k' \<noteq> k \<Longrightarrow> lookup (snd (get k c s)) k' = lookup s k'"
    and get_ok: "ok s \<Longrightarrow> ok (snd (get k c s))"
begin

text \<open>A run of requests for entries, in order.\<close>

primrec gets :: "('k \<times> 'c) list \<Rightarrow> 's \<Rightarrow> 's" where
  "gets [] s = s"
| "gets (kc # kcs) s = gets kcs (snd (get (fst kc) (snd kc) s))"

lemma gets_ok: "ok s \<Longrightarrow> ok (gets kcs s)"
  by (induction kcs arbitrary: s) (auto intro: get_ok)

lemma get_keeps: "ok s \<Longrightarrow> lookup s k = Some v \<Longrightarrow> lookup (snd (get k' c s)) k = Some v"
  by (cases "k' = k") (simp_all add: get_hit get_frame)

lemma gets_keep: "ok s \<Longrightarrow> lookup s k = Some v \<Longrightarrow> lookup (gets kcs s) k = Some v"
  by (induction kcs arbitrary: s) (auto intro: get_ok get_keeps)

text \<open>The entry that a request returned is returned by every later request for its key.\<close>

lemma get_again:
  assumes "ok s"
  shows "fst (get k c' (gets kcs (snd (get k c s)))) = fst (get k c s)"
proof -
  have "lookup (gets kcs (snd (get k c s))) k = Some (fst (get k c s))"
    using assms by (intro gets_keep get_ok get_stored)
  with assms show ?thesis by (simp add: get_hit gets_ok get_ok)
qed

end

text \<open>A table whose entries are objects that it allocates: no two keys share one.\<close>

locale fresh_registry = registry lookup get ok
  for lookup :: "'s \<Rightarrow> 'k \<Rightarrow> 'v option" and get :: "'k \<Rightarrow> 'c \<Rightarrow> 's \<Rightarrow> 'v \<times> 's" and ok :: "'s \<Rightarrow> bool" +
  assumes ok_inj: "ok s \<Longrightarrow> lookup s k = Some v \<Longrightarrow> lookup s k' = Some v \<Longrightarrow> k = k'"
begin

lemma get_distinct:
  assumes "ok s" and "k \<noteq> k'"
  shows "fst (get k' c' (gets kcs (snd (get k c s)))) \<noteq> fst (get k c s)"
proof
  let ?v = "fst (get k c s)" and ?t = "gets kcs (snd (get k c s))"
  assume eq: "fst (get k' c' ?t) = ?v"
  have t: "ok ?t" using assms(1) by (intro gets_ok get_ok)
  have "lookup ?t k = Some ?v" using assms(1) by (intro gets_keep get_ok get_stored)
  then have "lookup (snd (get k' c' ?t)) k = Some ?v" by (rule get_keeps [OF t])
  moreover have "lookup (snd (get k' c' ?t)) k' = Some ?v"
    using get_stored [OF t, of k' c'] eq by simp
  ultimately show False using ok_inj [OF get_ok [OF t]] assms(2) by blast
qed

end

section \<open>Tainting\<close>

text \<open>
  What the request loop of a proxy needs of tainting: the tainted checker is no longer healthy, and
  no other checker is affected.
\<close>

locale failover =
  fixes taint :: "'c \<Rightarrow> 's \<Rightarrow> 's" and healthy :: "'s \<Rightarrow> 'c \<Rightarrow> bool" and valid :: "'s \<Rightarrow> 'c \<Rightarrow> bool"
  assumes taint_self: "valid s c \<Longrightarrow> \<not> healthy (taint c s) c"
    and taint_frame: "d \<noteq> c \<Longrightarrow> healthy (taint c s) d = healthy s d"
    and taint_valid: "valid (taint c s) d = valid s d"
begin

text \<open>A run of taints: it leaves healthy what was healthy and is not in the run.\<close>

lemma healthy_after: "list_all (valid s) cs \<Longrightarrow> healthy (fold taint cs s) d \<longleftrightarrow> healthy s d \<and> d \<notin> set cs"
proof (induction cs arbitrary: s)
  case (Cons c cs)
  then have "list_all (valid (taint c s)) cs" by (simp add: taint_valid list_all_def)
  from Cons.IH [OF this] Cons.prems taint_self [of s c] taint_frame [of d c s] show ?case
    by (cases "d = c") auto
qed simp

end

end
