(* ===== verification/HttpClient.thy ===== *)
theory HttpClient
  imports Config Interfaces
begin

text \<open>
  \<open>internal/proxy/httpclient.go\<close>: the client managers, the factory with one manager per proxy
  path, and the package function that shares one client between the health checks and the user
  requests of a path. Clients, transports and managers are objects behind pointers (\<open>HttpWorld\<close>);
  the Go maps are association lists. Locks are left out: every function holds its lock from entry
  to return, so the calls are atomic.
\<close>

record HTTPClientSettings =
  hs_Timeout :: duration
  hs_MaxIdleConns :: int
  hs_MaxIdleConnsPerHost :: int
  hs_IdleConnTimeout :: duration
  hs_ResponseHeaderTimeout :: duration
  hs_DisableCompression :: bool
  hs_ForceAttemptHTTP2 :: bool

definition DefaultHTTPClientConfig :: "duration \<Rightarrow> HTTPClientSettings" where
  "DefaultHTTPClientConfig timeout =
    \<lparr>hs_Timeout = timeout, hs_MaxIdleConns = 512, hs_MaxIdleConnsPerHost = 64,
     hs_IdleConnTimeout = 90 * second, hs_ResponseHeaderTimeout = timeout,
     hs_DisableCompression = True, hs_ForceAttemptHTTP2 = True\<rparr>"

record HTTPTransport =
  tr_MaxIdleConns :: int
  tr_MaxIdleConnsPerHost :: int
  tr_IdleConnTimeout :: duration
  tr_ResponseHeaderTimeout :: duration
  tr_DisableCompression :: bool
  tr_ForceAttemptHTTP2 :: bool
  tr_idle_closed :: bool

record HTTPClient =
  cl_Timeout :: duration
  cl_Transport :: nat

record HTTPClientManager =
  hm_clients :: "(string \<times> nat) list"
  hm_configs :: "(string \<times> HTTPClientSettings) list"
  hm_transports :: "(string \<times> nat) list"

text \<open>The objects, and the \<open>managers\<close> map of the global factory.\<close>

record HttpWorld =
  hw_clients :: "HTTPClient list"
  hw_transports :: "HTTPTransport list"
  hw_managers :: "HTTPClientManager list"
  hw_factory :: "(string \<times> nat) list"

definition empty_manager :: HTTPClientManager where
  "empty_manager = \<lparr>hm_clients = [], hm_configs = [], hm_transports = []\<rparr>"

definition NewHTTPClientManager :: "HttpWorld \<Rightarrow> nat \<times> HttpWorld" where
  "NewHTTPClientManager w = (length (hw_managers w), w\<lparr>hw_managers := hw_managers w @ [empty_manager]\<rparr>)"

definition GetOrCreateClient :: "nat \<Rightarrow> string \<Rightarrow> HTTPClientSettings \<Rightarrow> HttpWorld \<Rightarrow> nat \<times> HttpWorld" where
  "GetOrCreateClient m key config w =
    (case map_of (hm_clients (hw_managers w ! m)) key of
       Some client \<Rightarrow> (client, w)
     | None \<Rightarrow>
        (let transport =
               \<lparr>tr_MaxIdleConns = hs_MaxIdleConns config,
                tr_MaxIdleConnsPerHost = hs_MaxIdleConnsPerHost config,
                tr_IdleConnTimeout = hs_IdleConnTimeout config,
                tr_ResponseHeaderTimeout = hs_ResponseHeaderTimeout config,
                tr_DisableCompression = hs_DisableCompression config,
                tr_ForceAttemptHTTP2 = hs_ForceAttemptHTTP2 config,
                tr_idle_closed = False\<rparr>;
             t = length (hw_transports w);
             client = \<lparr>cl_Timeout = hs_Timeout config, cl_Transport = t\<rparr>;
             c = length (hw_clients w)
         in (c, w\<lparr>hw_transports := hw_transports w @ [transport],
                  hw_clients := hw_clients w @ [client],
                  hw_managers := upd_at m (\<lambda>mg. mg\<lparr>hm_clients := (key, c) # hm_clients mg,
                                                    hm_configs := (key, config) # hm_configs mg,
                                                    hm_transports := (key, t) # hm_transports mg\<rparr>)
                                  (hw_managers w)\<rparr>)))"

definition GetClient :: "nat \<Rightarrow> string \<Rightarrow> HttpWorld \<Rightarrow> nat option" where
  "GetClient m key w = map_of (hm_clients (hw_managers w ! m)) key"

fun close_idle :: "nat list \<Rightarrow> HTTPTransport list \<Rightarrow> HTTPTransport list" where
  "close_idle [] ts = ts"
| "close_idle (p # ps) ts = close_idle ps (upd_at p (\<lambda>t. t\<lparr>tr_idle_closed := True\<rparr>) ts)"

definition manager_Close :: "nat \<Rightarrow> HttpWorld \<Rightarrow> HttpWorld" where
  "manager_Close m w =
    w\<lparr>hw_transports := close_idle (map snd (hm_transports (hw_managers w ! m))) (hw_transports w),
      hw_managers := upd_at m (\<lambda>_. empty_manager) (hw_managers w)\<rparr>"

definition GetManagerForProxy :: "string \<Rightarrow> HttpWorld \<Rightarrow> nat \<times> HttpWorld" where
  "GetManagerForProxy proxyPath w =
    (case map_of (hw_factory w) proxyPath of
       Some manager \<Rightarrow> (manager, w)
     | None \<Rightarrow>
        (let (manager, w1) = NewHTTPClientManager w
         in (manager, w1\<lparr>hw_factory := (proxyPath, manager) # hw_factory w1\<rparr>)))"

definition factory_Close :: "HttpWorld \<Rightarrow> HttpWorld" where
  "factory_Close w = (fold manager_Close (map snd (hw_factory w)) w)\<lparr>hw_factory := []\<rparr>"

definition factory_CreateOptimizedHTTPClient :: "string \<Rightarrow> duration \<Rightarrow> HttpWorld \<Rightarrow> nat \<times> HttpWorld" where
  "factory_CreateOptimizedHTTPClient proxyPath timeout w =
    (let (manager, w1) = GetManagerForProxy proxyPath w;
         config = DefaultHTTPClientConfig timeout;
         key = ''unified-'' @ proxyPath
     in GetOrCreateClient manager key config w1)"

definition CreateOptimizedHTTPClient :: "string \<Rightarrow> duration \<Rightarrow> HttpWorld \<Rightarrow> nat \<times> HttpWorld" where
  "CreateOptimizedHTTPClient key timeout w =
    (let proxyPath = (case cut_prefix key ''proxy-'' of Some after \<Rightarrow> after | None \<Rightarrow> key)
     in factory_CreateOptimizedHTTPClient proxyPath timeout w)"

definition NewHTTPClientFactory :: "HttpWorld \<Rightarrow> HttpWorld" where
  "NewHTTPClientFactory w = w\<lparr>hw_factory := []\<rparr>"

text \<open>The state when the package is initialised.\<close>

definition init_http :: HttpWorld where
  "init_http = NewHTTPClientFactory
     \<lparr>hw_clients = [], hw_transports = [], hw_managers = [], hw_factory = []\<rparr>"

section \<open>Pointers stay valid and unshared\<close>

text \<open>
  Every pointer of a map is to an object, no manager is under two paths, and no client is in two
  managers.
\<close>

definition client_ptrs :: "HttpWorld \<Rightarrow> nat \<Rightarrow> nat set" where
  "client_ptrs w m = snd ` set (hm_clients (hw_managers w ! m))"

definition http_wf :: "HttpWorld \<Rightarrow> bool" where
  "http_wf w \<longleftrightarrow>
     (\<forall>m \<in> snd ` set (hw_factory w). m < length (hw_managers w)) \<and>
     distinct (map snd (hw_factory w)) \<and>
     (\<forall>m < length (hw_managers w). \<forall>c \<in> client_ptrs w m. c < length (hw_clients w)) \<and>
     (\<forall>m < length (hw_managers w). \<forall>m' < length (hw_managers w).
        m \<noteq> m' \<longrightarrow> client_ptrs w m \<inter> client_ptrs w m' = {}) \<and>
     (\<forall>m < length (hw_managers w). distinct (map snd (hm_clients (hw_managers w ! m))))"

lemma map_of_snd: "map_of xs k = Some v \<Longrightarrow> v \<in> snd ` set xs"
  by (force dest: map_of_SomeD)

lemma map_of_distinct_snd:
  "distinct (map snd xs) \<Longrightarrow> map_of xs k = Some v \<Longrightarrow> map_of xs k' = Some v \<Longrightarrow> k = k'"
  by (metis distinct_map fst_conv inj_onD map_of_SomeD snd_conv)

lemma http_wf_init: "http_wf init_http"
  by (simp add: http_wf_def init_http_def NewHTTPClientFactory_def)

lemma GetManagerForProxy_wf:
  assumes "http_wf w"
  shows "http_wf (snd (GetManagerForProxy path w))"
    and "fst (GetManagerForProxy path w) < length (hw_managers (snd (GetManagerForProxy path w)))"
  using assms
  by (auto simp: http_wf_def GetManagerForProxy_def NewHTTPClientManager_def client_ptrs_def
      nth_append empty_manager_def less_Suc_eq split: option.splits dest: map_of_snd)

text \<open>What a call that creates a client leaves in the tables.\<close>

lemma GetOrCreateClient_hit:
  "GetClient m key w = Some c \<Longrightarrow> GetOrCreateClient m key config w = (c, w)"
  by (simp add: GetOrCreateClient_def GetClient_def)

lemma GetOrCreateClient_miss:
  assumes "GetClient m key w = None" and "m < length (hw_managers w)"
  shows "fst (GetOrCreateClient m key config w) = length (hw_clients w)"
    and "hw_factory (snd (GetOrCreateClient m key config w)) = hw_factory w"
    and "length (hw_managers (snd (GetOrCreateClient m key config w))) = length (hw_managers w)"
    and "length (hw_clients (snd (GetOrCreateClient m key config w))) = Suc (length (hw_clients w))"
    and "hm_clients (hw_managers (snd (GetOrCreateClient m key config w)) ! m') =
           (if m' = m then (key, length (hw_clients w)) # hm_clients (hw_managers w ! m)
            else hm_clients (hw_managers w ! m'))"
    and "cl_Timeout (hw_clients (snd (GetOrCreateClient m key config w)) ! length (hw_clients w)) =
           hs_Timeout config"
  using assms by (auto simp: GetOrCreateClient_def GetClient_def Let_def)

lemma GetOrCreateClient_wf:
  assumes "http_wf w" and "m < length (hw_managers w)"
  shows "http_wf (snd (GetOrCreateClient m key config w))"
proof (cases "GetClient m key w")
  case None
  note new = GetOrCreateClient_miss [OF None assms(2), of config]
  let ?w = "snd (GetOrCreateClient m key config w)" and ?n = "length (hw_clients w)"
  have ptrs: "client_ptrs ?w m' = (if m' = m then insert ?n (client_ptrs w m) else client_ptrs w m')" for m'
    by (simp add: client_ptrs_def new)
  have fresh: "?n \<notin> client_ptrs w m'" if "m' < length (hw_managers w)" for m'
    using assms(1) that by (auto simp: http_wf_def)
  have "distinct (map snd (hm_clients (hw_managers ?w ! m')))" if "m' < length (hw_managers w)" for m'
    using assms that fresh [OF assms(2)] by (auto simp: new http_wf_def client_ptrs_def image_iff)
  with assms fresh show ?thesis unfolding http_wf_def new(2-4) ptrs by (auto intro: less_SucI)
next
  case (Some c)
  with assms(1) show ?thesis by (simp add: GetOrCreateClient_hit)
qed

interpretation manager: fresh_registry
  "\<lambda>w key. GetClient m key w" "GetOrCreateClient m" "\<lambda>w. http_wf w \<and> m < length (hw_managers w)"
  for m
proof (unfold_locales, goal_cases)
  case (2 w key config)
  then show ?case
    by (cases "GetClient m key w") (auto simp: GetOrCreateClient_hit GetOrCreateClient_miss GetClient_def)
next
  case (3 w key' key config)
  then show ?case
    by (cases "GetClient m key w") (auto simp: GetOrCreateClient_hit GetOrCreateClient_miss GetClient_def)
next
  case (4 w key config)
  then show ?case
    by (cases "GetClient m key w") (auto simp: GetOrCreateClient_hit GetOrCreateClient_miss intro: GetOrCreateClient_wf)
next
  case (5 w k v k')
  then show ?case by (auto simp: http_wf_def GetClient_def intro: map_of_distinct_snd)
qed (simp add: GetOrCreateClient_hit)

interpretation factory: fresh_registry
  "\<lambda>w. map_of (hw_factory w)" "\<lambda>path (u :: unit). GetManagerForProxy path" http_wf
proof (unfold_locales, goal_cases)
  case (4 w k u)
  then show ?case by (rule GetManagerForProxy_wf(1))
next
  case (5 w k v k')
  then show ?case by (auto simp: http_wf_def intro: map_of_distinct_snd)
qed (auto simp: GetManagerForProxy_def NewHTTPClientManager_def split: option.splits)

section \<open>The shared client of a proxy path\<close>

definition path_client :: "HttpWorld \<Rightarrow> string \<Rightarrow> nat option" where
  "path_client w path =
     Option.bind (map_of (hw_factory w) path) (\<lambda>m. GetClient m (''unified-'' @ path) w)"

lemma GetManagerForProxy_clients:
  assumes "http_wf w"
  shows "GetClient m' key (snd (GetManagerForProxy path w)) =
    (if m' < length (hw_managers w) \<or> map_of (hw_factory w) path \<noteq> None then GetClient m' key w
     else GetClient m' key (snd (GetManagerForProxy path w)))"
  by (auto simp: GetManagerForProxy_def NewHTTPClientManager_def GetClient_def nth_append split: option.splits)

lemma factory_ptr: "http_wf w \<Longrightarrow> map_of (hw_factory w) path = Some m \<Longrightarrow> m < length (hw_managers w)"
  by (auto simp: http_wf_def dest!: map_of_SomeD)

lemma create_split:
  "factory_CreateOptimizedHTTPClient path timeout w =
    GetOrCreateClient (fst (GetManagerForProxy path w)) (''unified-'' @ path)
      (DefaultHTTPClientConfig timeout) (snd (GetManagerForProxy path w))"
  by (simp add: factory_CreateOptimizedHTTPClient_def Let_def split: prod.splits)

lemma GetOrCreateClient_factory: "hw_factory (snd (GetOrCreateClient m key config w)) = hw_factory w"
  by (simp add: GetOrCreateClient_def Let_def split: option.splits)

interpretation paths: fresh_registry path_client factory_CreateOptimizedHTTPClient http_wf
proof (unfold_locales, goal_cases)
  case (1 w path c timeout)
  then show ?case
    by (auto simp: path_client_def create_split bind_eq_Some_conv factory.get_hit
        dest: GetOrCreateClient_hit)
next
  case (2 w path timeout)
  let ?m = "fst (GetManagerForProxy path w)" and ?w = "snd (GetManagerForProxy path w)"
  have "GetClient ?m (''unified-'' @ path) (snd (GetOrCreateClient ?m (''unified-'' @ path)
      (DefaultHTTPClientConfig timeout) ?w)) =
      Some (fst (GetOrCreateClient ?m (''unified-'' @ path) (DefaultHTTPClientConfig timeout) ?w))"
    using 2 by (intro manager.get_stored) (simp add: GetManagerForProxy_wf)
  moreover have "map_of (hw_factory ?w) path = Some ?m" using 2 by (rule factory.get_stored)
  ultimately show ?case by (simp add: path_client_def create_split GetOrCreateClient_factory)
next
  case (3 w path' path timeout)
  let ?m = "fst (GetManagerForProxy path w)" and ?w = "snd (GetManagerForProxy path w)"
  have fac: "map_of (hw_factory ?w) path' = map_of (hw_factory w) path'"
    using 3 by (rule factory.get_frame)
  show ?case
  proof (cases "map_of (hw_factory w) path'")
    case None
    then show ?thesis by (simp add: path_client_def create_split GetOrCreateClient_factory fac)
  next
    case (Some m')
    have st: "map_of (hw_factory ?w) path = Some ?m" using 3(1) by (rule factory.get_stored)
    have "m' \<noteq> ?m"
      using factory.ok_inj [OF GetManagerForProxy_wf(1) [OF 3(1)] st] fac Some 3(2) by fastforce
    moreover have "GetClient m' key ?w = GetClient m' key w" for key
      using GetManagerForProxy_clients [OF 3(1)] factory_ptr [OF 3(1) Some] by metis
    ultimately show ?thesis using GetManagerForProxy_wf [OF 3(1), of path]
      by (simp add: path_client_def create_split GetOrCreateClient_factory fac Some)
         (simp add: GetClient_def GetOrCreateClient_def Let_def split: option.splits)
  qed
next
  case (4 w path timeout)
  then show ?case by (simp add: create_split GetOrCreateClient_wf GetManagerForProxy_wf)
next
  case (5 w p c p')
  then obtain m m' where m: "map_of (hw_factory w) p = Some m" "GetClient m (''unified-'' @ p) w = Some c"
    and m': "map_of (hw_factory w) p' = Some m'" "GetClient m' (''unified-'' @ p') w = Some c"
    by (auto simp: path_client_def bind_eq_Some_conv)
  have "c \<in> client_ptrs w m" "c \<in> client_ptrs w m'"
    using m(2) m'(2) by (auto simp: GetClient_def client_ptrs_def dest: map_of_snd)
  then have "m = m'"
    using 5(1) factory_ptr [OF 5(1) m(1)] factory_ptr [OF 5(1) m'(1)] unfolding http_wf_def by blast
  with 5(1) m(1) m'(1) show ?case by (metis factory.ok_inj)
qed

section \<open>Runs of the package function\<close>

text \<open>The calls that the gateway makes while it is built, in order: keys with their timeouts.\<close>

primrec create_clients :: "(string \<times> duration) list \<Rightarrow> HttpWorld \<Rightarrow> HttpWorld" where
  "create_clients [] w = w"
| "create_clients (kt # kts) w = create_clients kts (snd (CreateOptimizedHTTPClient (fst kt) (snd kt) w))"

definition client_path :: "string \<Rightarrow> string" where
  "client_path key = trim_prefix key ''proxy-''"

lemma Create_path: "CreateOptimizedHTTPClient key t = factory_CreateOptimizedHTTPClient (client_path key) t"
  by (rule ext) (simp add: CreateOptimizedHTTPClient_def client_path_def trim_prefix_def)

lemma client_path_proxy [simp]: "client_path (''proxy-'' @ path) = path"
  unfolding client_path_def by (rule trim_prefix_append)

lemma create_clients_gets:
  "create_clients kts w = paths.gets (map (map_prod client_path id) kts) w"
  by (induction kts arbitrary: w) (simp_all add: Create_path)

lemma create_clients_wf: "http_wf w \<Longrightarrow> http_wf (create_clients kts w)"
  by (simp add: create_clients_gets paths.gets_ok)

text \<open>Client objects are never written after they are made.\<close>

lemma Create_clients_grow:
  "i < length (hw_clients w) \<Longrightarrow>
   i < length (hw_clients (snd (factory_CreateOptimizedHTTPClient p t w))) \<and>
   hw_clients (snd (factory_CreateOptimizedHTTPClient p t w)) ! i = hw_clients w ! i"
  by (auto simp: create_split GetManagerForProxy_def NewHTTPClientManager_def GetOrCreateClient_def
      Let_def nth_append split: option.splits)

lemma create_clients_grow:
  "i < length (hw_clients w) \<Longrightarrow>
   i < length (hw_clients (create_clients kts w)) \<and> hw_clients (create_clients kts w) ! i = hw_clients w ! i"
  by (induction kts arbitrary: w) (auto simp: Create_path Create_clients_grow)

text \<open>
  Whatever clients are created before, between and after, the health checks and the user
  requests of a path get the same client, and so share its connection pool.
\<close>

lemma shared_client:
  "fst (CreateOptimizedHTTPClient (''proxy-'' @ path) t2
         (create_clients later (snd (CreateOptimizedHTTPClient (''proxy-'' @ path) t1
           (create_clients earlier init_http))))) =
   fst (CreateOptimizedHTTPClient (''proxy-'' @ path) t1 (create_clients earlier init_http))"
  unfolding create_clients_gets [of later] Create_path client_path_proxy
  by (rule paths.get_again [OF create_clients_wf [OF http_wf_init]])

text \<open>
  The timeout of a shared client is the one of the call that created it: a later call for the
  same path with another timeout gets a client with the first timeout.
\<close>

lemma first_timeout_wins:
  "(let (c1, w1) = CreateOptimizedHTTPClient (''proxy-'' @ path) t1 init_http;
        (c2, w2) = CreateOptimizedHTTPClient (''proxy-'' @ path) t2 (create_clients others w1)
    in cl_Timeout (hw_clients w2 ! c2) = t1)"
proof -
  obtain c1 w1 where first: "factory_CreateOptimizedHTTPClient path t1 init_http = (c1, w1)"
    by fastforce
  obtain c2 w2 where second: "factory_CreateOptimizedHTTPClient path t2 (create_clients others w1) = (c2, w2)"
    by fastforce
  have "c2 = c1"
    using paths.get_again [OF http_wf_init, of path t2 "map (map_prod client_path id) others" t1] first second
    by (simp add: create_clients_gets)
  moreover have c1: "c1 = 0" "length (hw_clients w1) = 1" "cl_Timeout (hw_clients w1 ! 0) = t1"
    using first by (auto simp: create_split init_http_def NewHTTPClientFactory_def
        GetManagerForProxy_def NewHTTPClientManager_def GetOrCreateClient_def empty_manager_def
        DefaultHTTPClientConfig_def Let_def)
  moreover have "hw_clients w2 ! 0 = hw_clients w1 ! 0"
    using create_clients_grow [of 0 w1 others] Create_clients_grow [of 0 "create_clients others w1" path t2]
      c1(2) second by simp
  ultimately show ?thesis unfolding Create_path client_path_proxy by (simp add: first second)
qed

text \<open>Closing the factory forgets every client and closes the idle connections of its transports.\<close>

lemma close_idle_closed:
  "p \<in> set ps \<Longrightarrow> p < length ts \<Longrightarrow> tr_idle_closed (close_idle ps ts ! p)"
proof (induction ps ts rule: close_idle.induct)
  case (2 q ps ts)
  have keep: "tr_idle_closed (ts ! p) \<Longrightarrow> p < length ts \<Longrightarrow> tr_idle_closed (close_idle ps ts ! p)" for ps ts
    by (induction ps ts rule: close_idle.induct) (auto simp: nth_upd_at)
  show ?case using 2 keep by (cases "p = q") (auto simp: nth_upd_at)
qed simp

lemma factory_Close_forgets: "path_client (factory_Close w) path = None"
  by (simp add: path_client_def factory_Close_def)

end
