(* ===== verification/Taint.thy ===== *)
theory Taint
  imports HttpClient
begin

text \<open>
  The health checker object of \<open>internal/proxy/healthchecker.go\<close> and its taint state: tainting with
  exponential backoff, the removal timer, the wake-up channel that the checker's goroutine drains,
  and the step relation of all of them (\<open>taint_step\<close>). Timers armed with \<open>time.AfterFunc\<close> are
  listed in \<open>h_timers\<close> with their deadline; \<open>h_signals\<close> counts timer functions that have removed
  the taint and have not yet sent their wake-up.
\<close>

section \<open>State\<close>

record TaintConfig =
  tc_InitialWaitTime :: duration
  tc_MaxWaitTime :: duration
  tc_ResetWaitDuration :: duration
  tc_Reason :: string
  tc_Detail :: string

definition healthCheckTaintConfig :: TaintConfig where
  "healthCheckTaintConfig =
    \<lparr>tc_InitialWaitTime = second * 30, tc_MaxWaitTime = minute * 20,
     tc_ResetWaitDuration = minute * 5, tc_Reason = ''health check failure'', tc_Detail = []\<rparr>"

definition httpTaintConfig :: TaintConfig where
  "httpTaintConfig =
    \<lparr>tc_InitialWaitTime = second * 10, tc_MaxWaitTime = second * 60,
     tc_ResetWaitDuration = second * 20, tc_Reason = ''HTTP error'', tc_Detail = []\<rparr>"

record TaintState =
  ts_lastRemoval :: gotime
  ts_waitTime :: duration
  ts_removalTimer :: "nat option"
  ts_config :: TaintConfig

record HealthCheckerConfig =
  hcf_URL :: string
  hcf_Name :: string
  hcf_Interval :: duration
  hcf_Timeout :: duration
  hcf_Path :: string
  hcf_ChainType :: string
  hcf_ConnectionType :: string
  hcf_BlockDiffThreshold :: u64
  hcf_Headers :: "(string \<times> string) list"
  hcf_InitialDelay :: duration

text \<open>
  \<open>h_onBlockNumberUpdate\<close> is the target name that the block number callback captures,
  \<open>h_onBeforeTaint\<close> the websocket proxy that the callback before tainting captures.
\<close>

record HealthChecker =
  h_config :: HealthCheckerConfig
  h_httpClient :: nat
  h_blockNumber :: u64
  h_ethCallCheckCounter :: u32
  h_taintRemoveCh :: "unit list"
  h_isTainted :: bool
  h_taint :: TaintState
  h_onBlockNumberUpdate :: "string option"
  h_onBeforeTaint :: "nat option"
  h_timers :: "(nat \<times> gotime) list"
  h_nextTimer :: nat
  h_signals :: nat

definition NewHealthChecker :: "HealthCheckerConfig \<Rightarrow> HttpWorld \<Rightarrow> HealthChecker \<times> HttpWorld" where
  "NewHealthChecker config0 hw =
    (let config = config0\<lparr>hcf_ChainType := cmp_or (hcf_ChainType config0) ''evm'',
                          hcf_ConnectionType := cmp_or (hcf_ConnectionType config0) ''http''\<rparr>;
         (client, hw') = CreateOptimizedHTTPClient (''proxy-'' @ hcf_Path config) (hcf_Timeout config) hw
     in (\<lparr>h_config = config, h_httpClient = client, h_blockNumber = 0, h_ethCallCheckCounter = 0,
          h_taintRemoveCh = [], h_isTainted = False,
          h_taint = \<lparr>ts_lastRemoval = 0, ts_waitTime = tc_InitialWaitTime healthCheckTaintConfig,
                     ts_removalTimer = None, ts_config = healthCheckTaintConfig\<rparr>,
          h_onBlockNumberUpdate = None, h_onBeforeTaint = None,
          h_timers = [], h_nextTimer = 0, h_signals = 0\<rparr>, hw'))"

definition Name :: "HealthChecker \<Rightarrow> string" where
  "Name h = hcf_Name (h_config h)"

definition IsTainted :: "HealthChecker \<Rightarrow> bool" where
  "IsTainted h = h_isTainted h"

definition IsHealthy :: "HealthChecker \<Rightarrow> bool" where
  "IsHealthy h \<longleftrightarrow> \<not> IsTainted h"

definition BlockNumber :: "HealthChecker \<Rightarrow> u64" where
  "BlockNumber h = h_blockNumber h"

definition SetBlockNumberUpdateCallback :: "string \<Rightarrow> HealthChecker \<Rightarrow> HealthChecker" where
  "SetBlockNumberUpdateCallback name h = h\<lparr>h_onBlockNumberUpdate := Some name\<rparr>"

definition SetBeforeTaintCallback :: "nat \<Rightarrow> HealthChecker \<Rightarrow> HealthChecker" where
  "SetBeforeTaintCallback wsProxy h = h\<lparr>h_onBeforeTaint := Some wsProxy\<rparr>"

section \<open>Operations\<close>

text \<open>Stopping a timer that has fired, or none, changes nothing.\<close>

definition stop_timer :: "nat option \<Rightarrow> (nat \<times> gotime) list \<Rightarrow> (nat \<times> gotime) list" where
  "stop_timer t ts = (case t of None \<Rightarrow> ts | Some i \<Rightarrow> filter (\<lambda>(j, d). j \<noteq> i) ts)"

definition taint_wait :: "TaintConfig \<Rightarrow> gotime \<Rightarrow> TaintState \<Rightarrow> duration" where
  "taint_wait cfg now ts =
    (if time_sub now (ts_lastRemoval ts) \<le> tc_ResetWaitDuration cfg
     then min (wrap64 (ts_waitTime ts * 2)) (tc_MaxWaitTime cfg)
     else tc_InitialWaitTime cfg)"

text \<open>
  The part of \<open>Taint\<close> after the callback: the flag, then the state under the lock. The guard of the
  fast path and the callback are in \<open>Taint\<close> of theory World, which can reach the websocket proxy.
\<close>

definition mark_tainted :: "TaintConfig \<Rightarrow> gotime \<Rightarrow> HealthChecker \<Rightarrow> HealthChecker" where
  "mark_tainted cfg now h =
    (let wait = taint_wait cfg now (h_taint h);
         timers = stop_timer (ts_removalTimer (h_taint h)) (h_timers h);
         timer = h_nextTimer h
     in h\<lparr>h_isTainted := True,
          h_timers := (timer, now + wait) # timers,
          h_nextTimer := Suc timer,
          h_taint := (h_taint h)\<lparr>ts_removalTimer := Some timer, ts_config := cfg,
                                 ts_lastRemoval := now, ts_waitTime := wait\<rparr>\<rparr>)"

text \<open>The taint of one checker whose callback has nothing to do.\<close>

definition taint_checker :: "TaintConfig \<Rightarrow> gotime \<Rightarrow> HealthChecker \<Rightarrow> HealthChecker" where
  "taint_checker cfg now h = (if h_isTainted h then h else mark_tainted cfg now h)"

definition health_check_config :: "string list \<Rightarrow> TaintConfig" where
  "health_check_config detail =
    (case detail of
       d # _ \<Rightarrow> if d \<noteq> [] then healthCheckTaintConfig\<lparr>tc_Detail := d\<rparr> else healthCheckTaintConfig
     | [] \<Rightarrow> healthCheckTaintConfig)"

definition RemoveTaint :: "gotime \<Rightarrow> HealthChecker \<Rightarrow> HealthChecker" where
  "RemoveTaint now h =
    h\<lparr>h_isTainted := False,
      h_taint := (h_taint h)\<lparr>ts_lastRemoval := now, ts_removalTimer := None\<rparr>\<rparr>"

text \<open>
  The function of the removal timer runs in a goroutine of its own: it removes the taint and then
  sends a wake-up without blocking.
\<close>

definition timer_fires :: "nat \<Rightarrow> gotime \<Rightarrow> HealthChecker \<Rightarrow> HealthChecker" where
  "timer_fires i now h =
    (let h1 = RemoveTaint now (h\<lparr>h_timers := stop_timer (Some i) (h_timers h)\<rparr>)
     in h1\<lparr>h_signals := Suc (h_signals h1)\<rparr>)"

definition timer_signals :: "HealthChecker \<Rightarrow> HealthChecker" where
  "timer_signals h =
    h\<lparr>h_signals := h_signals h - 1, h_taintRemoveCh := fst (try_send 1 () (h_taintRemoveCh h))\<rparr>"

definition Stop :: "HealthChecker \<Rightarrow> HealthChecker" where
  "Stop h = h\<lparr>h_taintRemoveCh := fst (try_send 1 () (h_taintRemoveCh h))\<rparr>"

text \<open>The branch of \<open>runHealthChecker\<close> that receives a wake-up.\<close>

definition drain_signal :: "HealthChecker \<Rightarrow> HealthChecker" where
  "drain_signal h = (case try_recv (h_taintRemoveCh h) of
     None \<Rightarrow> h
   | Some (_, q) \<Rightarrow>
       h\<lparr>h_taintRemoveCh := q,
         h_timers := stop_timer (ts_removalTimer (h_taint h)) (h_timers h),
         h_taint := (h_taint h)\<lparr>ts_removalTimer := None\<rparr>\<rparr>)"

section \<open>Wait times\<close>

text \<open>The two configurations that the program taints with; the detail is free.\<close>

definition known_config :: "TaintConfig \<Rightarrow> bool" where
  "known_config cfg \<longleftrightarrow> (\<exists>d. cfg = healthCheckTaintConfig\<lparr>tc_Detail := d\<rparr>) \<or> cfg = httpTaintConfig"

lemma known_http: "known_config httpTaintConfig"
  by (simp add: known_config_def)

lemma known_health_check: "known_config (health_check_config detail)"
proof -
  have "healthCheckTaintConfig = healthCheckTaintConfig\<lparr>tc_Detail := []\<rparr>"
    by (simp add: healthCheckTaintConfig_def)
  then show ?thesis
    by (auto simp: known_config_def health_check_config_def split: list.splits)
qed

definition wait_ok :: "HealthChecker \<Rightarrow> bool" where
  "wait_ok h \<longleftrightarrow> second * 10 \<le> ts_waitTime (h_taint h) \<and> ts_waitTime (h_taint h) \<le> minute * 20"

lemma taint_wait_known [wait_bounds]:
  assumes "known_config cfg" and "second * 10 \<le> ts_waitTime ts" and "ts_waitTime ts \<le> minute * 20"
  shows "second * 10 \<le> taint_wait cfg now ts \<and> taint_wait cfg now ts \<le> tc_MaxWaitTime cfg
    \<and> tc_MaxWaitTime cfg \<le> minute * 20"
proof -
  have "wrap64 (ts_waitTime ts * 2) = ts_waitTime ts * 2"
    using assms(2,3) by (intro wrap64_id) simp_all
  with assms show ?thesis
    by (auto simp: taint_wait_def known_config_def healthCheckTaintConfig_def httpTaintConfig_def)
qed

lemma mark_tainted_wait_ok: "known_config cfg \<Longrightarrow> wait_ok h \<Longrightarrow> wait_ok (mark_tainted cfg now h)"
  using taint_wait_known [of cfg "h_taint h" now] by (auto simp: wait_ok_def mark_tainted_def Let_def)

section \<open>The step relation of one checker\<close>

text \<open>
  A state is the clock and the checker. A taint comes from any goroutine, with one of the two
  configurations, and does nothing on a tainted checker. The removal timer fires at its deadline
  or later; its function removes the taint in one step and sends the wake-up in another, so that
  steps of other goroutines may come between. \<open>stops\<close> is the shutdown of the gateway, present only
  when the flag allows it.
\<close>

type_synonym tsys = "gotime \<times> HealthChecker"

inductive taint_step :: "bool \<Rightarrow> tsys \<Rightarrow> tsys \<Rightarrow> bool" for stoppable :: bool where
  passes: "t \<le> t' \<Longrightarrow> taint_step stoppable (t, h) (t', h)"
| taints: "known_config cfg \<Longrightarrow> taint_step stoppable (t, h) (t, taint_checker cfg t h)"
| fires: "(i, d) \<in> set (h_timers h) \<Longrightarrow> d \<le> t \<Longrightarrow> taint_step stoppable (t, h) (t, timer_fires i t h)"
| signals: "0 < h_signals h \<Longrightarrow> taint_step stoppable (t, h) (t, timer_signals h)"
| drains: "h_taintRemoveCh h \<noteq> [] \<Longrightarrow> taint_step stoppable (t, h) (t, drain_signal h)"
| stops: "stoppable \<Longrightarrow> taint_step stoppable (t, h) (t, Stop h)"

inductive_cases taint_stepE: "taint_step stoppable (t, h) s'"

text \<open>
  The same steps without a shutdown, and with the scheduling that the code needs: a checker is
  tainted only after the wake-up of its last removal has been sent and received.
\<close>

definition quiet :: "HealthChecker \<Rightarrow> bool" where
  "quiet h \<longleftrightarrow> h_signals h = 0 \<and> h_taintRemoveCh h = []"

inductive prompt_step :: "tsys \<Rightarrow> tsys \<Rightarrow> bool" where
  prompt_step: "taint_step False (t, h) (t', h') \<Longrightarrow>
     (h_isTainted h' \<Longrightarrow> h_isTainted h \<or> quiet h) \<Longrightarrow> prompt_step (t, h) (t', h')"

definition taint_init :: "tsys \<Rightarrow> bool" where
  "taint_init = (\<lambda>(t, h). \<not> h_isTainted h \<and> h_timers h = [] \<and> ts_removalTimer (h_taint h) = None
     \<and> quiet h \<and> wait_ok h)"

lemma NewHealthChecker_init: "taint_init (t, fst (NewHealthChecker cfg hw))"
  by (simp add: taint_init_def NewHealthChecker_def quiet_def wait_ok_def healthCheckTaintConfig_def
      Let_def split: prod.splits)

text \<open>
  The invariant: at most one timer is armed, it is the one that the checker remembers, its deadline
  is at most twenty minutes ahead, and a checker that is not tainted has none.
\<close>

definition timer_ok :: "gotime \<Rightarrow> HealthChecker \<Rightarrow> bool" where
  "timer_ok t h \<longleftrightarrow> (case ts_removalTimer (h_taint h) of
     None \<Rightarrow> h_timers h = []
   | Some i \<Rightarrow> h_isTainted h \<and> (\<exists>d. h_timers h = [(i, d)] \<and> d \<le> t + minute * 20))"

definition taint_inv :: "tsys \<Rightarrow> bool" where
  "taint_inv = (\<lambda>(t, h). timer_ok t h \<and> wait_ok h \<and> length (h_taintRemoveCh h) \<le> 1)"

lemma timer_ok_cases:
  assumes "timer_ok t h"
  obtains (unarmed) "ts_removalTimer (h_taint h) = None" "h_timers h = []"
  | (armed) i d where "ts_removalTimer (h_taint h) = Some i" "h_timers h = [(i, d)]" "h_isTainted h"
      "d \<le> t + minute * 20"
  using assms by (auto simp: timer_ok_def split: option.splits)

lemma taint_checker_ok:
  "known_config cfg \<Longrightarrow> timer_ok t h \<Longrightarrow> wait_ok h \<Longrightarrow> timer_ok t (taint_checker cfg t h)"
  using taint_wait_known [of cfg "h_taint h" t]
  by (auto simp: timer_ok_def taint_checker_def mark_tainted_def stop_timer_def wait_ok_def Let_def
      split: option.splits)

lemma timer_fires_ok: "timer_ok t h \<Longrightarrow> (i, d) \<in> set (h_timers h) \<Longrightarrow> timer_ok t (timer_fires i t h)"
  by (erule timer_ok_cases) (auto simp: timer_ok_def timer_fires_def RemoveTaint_def stop_timer_def Let_def)

lemma drain_signal_ok: "timer_ok t h \<Longrightarrow> timer_ok t (drain_signal h)"
  by (erule timer_ok_cases) (auto simp: timer_ok_def drain_signal_def stop_timer_def split: option.splits)

lemma taint_frames [world_simps]:
  "ts_waitTime (h_taint (timer_fires i t h)) = ts_waitTime (h_taint h)"
  "ts_waitTime (h_taint (drain_signal h)) = ts_waitTime (h_taint h)"
  "h_taintRemoveCh (taint_checker cfg t h) = h_taintRemoveCh h"
  "h_taintRemoveCh (timer_fires i t h) = h_taintRemoveCh h"
  "h_signals (taint_checker cfg t h) = h_signals h"
  by (simp_all add: timer_fires_def RemoveTaint_def drain_signal_def taint_checker_def mark_tainted_def
      Let_def split: option.splits)

lemma taint_checker_wait_ok: "known_config cfg \<Longrightarrow> wait_ok h \<Longrightarrow> wait_ok (taint_checker cfg t h)"
  by (simp add: taint_checker_def mark_tainted_wait_ok)

lemma taint_step_inv: "taint_step stoppable s s' \<Longrightarrow> taint_inv s \<Longrightarrow> taint_inv s'"
proof (induction rule: taint_step.induct)
  case (passes t t' h)
  then show ?case by (auto simp: taint_inv_def timer_ok_def split: option.splits)
next
  case (taints cfg t h)
  then show ?case by (simp add: taint_inv_def taint_checker_ok taint_checker_wait_ok world_simps)
next
  case (fires i d h t)
  then show ?case by (auto simp: taint_inv_def timer_fires_ok wait_ok_def world_simps)
next
  case (signals h t)
  then show ?case
    using try_send_length [of "h_taintRemoveCh h" 1 "()"]
    by (auto simp: taint_inv_def timer_signals_def timer_ok_def wait_ok_def split: option.splits)
next
  case (drains h t)
  then show ?case
    by (auto simp: taint_inv_def drain_signal_ok wait_ok_def world_simps)
       (auto simp: drain_signal_def try_recv_def split: list.splits)
next
  case (stops t h)
  then show ?case
    using try_send_length [of "h_taintRemoveCh h" 1 "()"]
    by (auto simp: taint_inv_def Stop_def timer_ok_def wait_ok_def split: option.splits)
qed

interpretation taint_sys: invariant_of "taint_step stoppable" taint_inv taint_init for stoppable
proof (unfold_locales, goal_cases)
  case (1 s t)
  then show ?case using taint_step_inv by blast
next
  case (2 s)
  then show ?case by (auto simp: taint_init_def taint_inv_def timer_ok_def quiet_def)
qed

section \<open>The abstract machine of a taint\<close>

text \<open>
  What a taint promises: a healthy checker may be tainted for ten seconds to twenty minutes, an
  armed taint ends at its deadline or later. The code has one more state, a taint whose timer is
  gone.
\<close>

datatype taint_status = Healthy | Armed gotime | Stranded

definition status :: "HealthChecker \<Rightarrow> taint_status" where
  "status h = (if \<not> h_isTainted h then Healthy
     else case h_timers h of [] \<Rightarrow> Stranded | (i, d) # _ \<Rightarrow> Armed d)"

inductive status_step :: "gotime \<Rightarrow> taint_status \<Rightarrow> taint_status \<Rightarrow> bool" for t :: gotime where
  stays: "status_step t s s"
| tainted_for: "second * 10 \<le> w \<Longrightarrow> w \<le> minute * 20 \<Longrightarrow> status_step t Healthy (Armed (t + w))"
| expires: "d \<le> t \<Longrightarrow> status_step t (Armed d) Healthy"
| loses_timer: "status_step t (Armed d) Stranded"

inductive_simps status_step_Stranded: "status_step t Stranded s"
inductive_simps status_step_Healthy: "status_step t Healthy s"

lemma status_taint:
  assumes "known_config cfg" and "timer_ok t h" and "wait_ok h"
  shows "status_step t (status h) (status (taint_checker cfg t h))"
proof (cases "h_isTainted h")
  case True
  then show ?thesis by (simp add: taint_checker_def stays)
next
  case False
  with assms(2) have "h_timers h = []" by (auto simp: timer_ok_def split: option.splits)
  with False have "status (taint_checker cfg t h) = Armed (t + taint_wait cfg t (h_taint h))"
    by (simp add: status_def taint_checker_def mark_tainted_def stop_timer_def Let_def split: option.splits)
  with False assms show ?thesis
    using taint_wait_known [of cfg "h_taint h" t]
    by (auto simp: status_def [of h] wait_ok_def intro!: tainted_for)
qed

lemma status_fires:
  assumes "timer_ok t h" and "(i, d) \<in> set (h_timers h)" and "d \<le> t"
  shows "status_step t (status h) (status (timer_fires i t h))"
  using assms
  by (elim timer_ok_cases) (auto simp: status_def timer_fires_def RemoveTaint_def Let_def intro: expires)

lemma status_drain: "timer_ok t h \<Longrightarrow> status_step t (status h) (status (drain_signal h))"
  by (erule timer_ok_cases)
     (auto simp: status_def drain_signal_def stop_timer_def split: option.splits list.splits
       intro: stays loses_timer)

lemma status_frame [world_simps]:
  "status (timer_signals h) = status h" "status (Stop h) = status h"
  by (simp_all add: status_def timer_signals_def Stop_def)

lemma taint_refines_step:
  "taint_step stoppable (t, h) (t', h') \<Longrightarrow> taint_inv (t, h) \<Longrightarrow> status_step t (status h) (status h')"
  by (erule taint_stepE)
     (auto simp: taint_inv_def world_simps intro: stays status_taint status_fires status_drain)

subsection \<open>Properties of every schedule\<close>

text \<open>
  In every reachable state the next wait time is between ten seconds and twenty minutes, at
  most one removal timer is armed, and an armed timer fires at most twenty minutes from now.
\<close>

theorem taint_times_bounded:
  assumes "reach taint_init (taint_step stoppable) (t, h)"
  shows "second * 10 \<le> ts_waitTime (h_taint h) \<and> ts_waitTime (h_taint h) \<le> minute * 20 \<and>
    length (h_timers h) \<le> 1 \<and> list_all (\<lambda>(i, d). d \<le> t + minute * 20) (h_timers h)"
  using taint_sys.always [OF assms]
  by (auto simp: taint_inv_def wait_ok_def elim!: timer_ok_cases)

text \<open>
  The code refines the abstract machine of a taint: every step of the checker, of its timer, of
  its goroutine or of a request is a step of the abstract machine on its status.
\<close>

theorem taint_refines_status:
  assumes "reach taint_init (taint_step stoppable) (t, h)"
    and "taint_step stoppable (t, h) (t', h')"
  shows "status_step t (status h) (status h')"
  using taint_refines_step [OF assms(2) taint_sys.always [OF assms(1)]] .

definition sample_checker :: HealthChecker where
  "sample_checker = fst (NewHealthChecker
     \<lparr>hcf_URL = ''http://a'', hcf_Name = ''a'', hcf_Interval = second * 12, hcf_Timeout = second,
      hcf_Path = ''eth'', hcf_ChainType = [], hcf_ConnectionType = [], hcf_BlockDiffThreshold = 2,
      hcf_Headers = [], hcf_InitialDelay = 0\<rparr> init_http)"

lemma sample_reach: "reach taint_init (taint_step stoppable) (t, sample_checker)"
  unfolding sample_checker_def by (rule reach_init) (rule NewHealthChecker_init)

theorem taint_times_bounded_witness:
  "h_timers (taint_checker httpTaintConfig minute sample_checker) \<noteq> [] \<and>
   list_all (\<lambda>(i, d). d \<le> minute + minute * 20) (h_timers (taint_checker httpTaintConfig minute sample_checker))"
proof
  show "h_timers (taint_checker httpTaintConfig minute sample_checker) \<noteq> []"
    by (simp add: taint_checker_def mark_tainted_def sample_checker_def NewHealthChecker_def Let_def split: prod.split)
  have "reach taint_init (taint_step False) (minute, taint_checker httpTaintConfig minute sample_checker)"
    by (rule reach_step [OF sample_reach [where t = minute]]) (intro taint_step.taints known_http)
  from taint_times_bounded [OF this]
  show "list_all (\<lambda>(i, d). d \<le> minute + minute * 20) (h_timers (taint_checker httpTaintConfig minute sample_checker))"
    by simp
qed

theorem taint_refines_status_witness:
  "status_step (minute) (status sample_checker) (status (taint_checker httpTaintConfig minute sample_checker))"
  by (rule taint_refines_status [OF sample_reach taint_step.taints [of _ False, OF known_http]])


text \<open>
  A schedule that strands a checker: a request fails and taints it, ten seconds later the timer
  removes the taint, and before the checker's goroutine receives the wake-up another request
  fails. The goroutine then takes the wake-up of the first taint and stops the timer of the second.
\<close>

definition stranded_checker :: HealthChecker where
  "stranded_checker =
    drain_signal (taint_checker httpTaintConfig (second * 70)
      (timer_signals (timer_fires 0 (second * 70) (taint_checker httpTaintConfig minute sample_checker))))"

lemmas taint_eval =
  sample_checker_def NewHealthChecker_def taint_checker_def mark_tainted_def timer_fires_def
  timer_signals_def drain_signal_def RemoveTaint_def stop_timer_def taint_wait_def time_sub_def
  httpTaintConfig_def healthCheckTaintConfig_def wrap64_def try_send_def try_recv_def Let_def

lemma retainted_run:
  "reach taint_init (taint_step stoppable) (second * 70, taint_checker httpTaintConfig (second * 70)
    (timer_signals (timer_fires 0 (second * 70) (taint_checker httpTaintConfig minute sample_checker))))"
proof -
  let ?h1 = "taint_checker httpTaintConfig minute sample_checker"
  let ?h2 = "timer_fires 0 (second * 70) ?h1"
  have "reach taint_init (taint_step stoppable) (minute, ?h1)"
    by (rule reach_step [OF sample_reach [where t = minute]]) (intro taint_step.taints known_http)
  then have "reach taint_init (taint_step stoppable) (second * 70, ?h1)"
    by (rule reach_step) (rule taint_step.passes, simp)
  moreover have "(0, second * 70) \<in> set (h_timers ?h1)" by (simp add: taint_eval split: prod.splits)
  ultimately have "reach taint_init (taint_step stoppable) (second * 70, ?h2)"
    by (elim reach_step taint_step.fires) simp
  moreover have "0 < h_signals ?h2" by (simp add: timer_fires_def RemoveTaint_def Let_def)
  ultimately have "reach taint_init (taint_step stoppable) (second * 70, timer_signals ?h2)"
    by (elim reach_step taint_step.signals)
  then show ?thesis by (rule reach_step) (intro taint_step.taints known_http)
qed

lemma timer_signals_sent: "h_taintRemoveCh (timer_signals h) \<noteq> []"
  by (auto simp: timer_signals_def try_send_def)

lemma retainted_signal:
  "h_taintRemoveCh (taint_checker httpTaintConfig (second * 70)
    (timer_signals (timer_fires 0 (second * 70) (taint_checker httpTaintConfig minute sample_checker)))) \<noteq> []"
  unfolding taint_frames(3) by (rule timer_signals_sent)

lemma stranded_checker_run: "reach taint_init (taint_step stoppable) (second * 70, stranded_checker)"
  unfolding stranded_checker_def by (rule reach_step [OF retainted_run]) (rule taint_step.drains [OF retainted_signal])

text \<open>A wake-up that is received while a timer is armed disarms it.\<close>

lemma drain_strands:
  assumes "timer_ok t h" and "h_isTainted h" and "h_taintRemoveCh h \<noteq> []"
  shows "status (drain_signal h) = Stranded"
  using assms
  by (elim timer_ok_cases) (auto simp: status_def drain_signal_def stop_timer_def try_recv_def split: list.splits)

lemma stranded_checker_status: "status stranded_checker = Stranded"
  unfolding stranded_checker_def
proof (rule drain_strands [OF _ _ retainted_signal])
  show "timer_ok (second * 70) (taint_checker httpTaintConfig (second * 70)
      (timer_signals (timer_fires 0 (second * 70) (taint_checker httpTaintConfig minute sample_checker))))"
    using taint_sys.always [OF retainted_run] by (simp add: taint_inv_def)
qed (simp add: taint_checker_def mark_tainted_def Let_def)


text \<open>
  C34. The stranded state is reachable without any shutdown: a wake-up left over from an earlier
  taint can disarm the timer of the current one.
\<close>

theorem stale_wakeup_strands:
  "\<exists>t h. reach taint_init (taint_step False) (t, h) \<and> status h = Stranded"
  using stranded_checker_run stranded_checker_status by blast

definition prompt_inv :: "tsys \<Rightarrow> bool" where
  "prompt_inv = (\<lambda>(t, h). taint_inv (t, h) \<and> (h_isTainted h \<longrightarrow> quiet h \<and> h_timers h \<noteq> []))"

lemma prompt_step_inv: "prompt_step s s' \<Longrightarrow> prompt_inv s \<Longrightarrow> prompt_inv s'"
proof (induction rule: prompt_step.induct)
  case (prompt_step t h t' h')
  then have inv: "taint_inv (t', h')" using taint_step_inv by (auto simp: prompt_inv_def)
  from prompt_step have "h_isTainted h' \<longrightarrow> quiet h' \<and> h_timers h' \<noteq> []"
    by (elim taint_stepE)
       (auto simp: prompt_inv_def quiet_def taint_checker_def mark_tainted_def timer_fires_def
         RemoveTaint_def timer_signals_def drain_signal_def Let_def split: option.splits)
  with inv show ?case by (simp add: prompt_inv_def)
qed

interpretation prompt_sys: invariant_of prompt_step prompt_inv taint_init
proof (unfold_locales, goal_cases)
  case (1 s t)
  then show ?case using prompt_step_inv by blast
next
  case (2 s)
  then show ?case by (auto simp: prompt_inv_def taint_sys.initially taint_init_def)
qed

text \<open>
  C18. A taint ends: when no checker is tainted between the removal of a taint and the receipt of its
  wake-up, no checker is ever stranded, and from every state the checker is back in service within twenty minutes,
  by waiting for its timer alone.
\<close>

theorem taint_ends:
  assumes "reach taint_init prompt_step (t, h)"
  shows "status h \<noteq> Stranded \<and>
    (\<exists>t' h'. t \<le> t' \<and> t' \<le> t + minute * 20 \<and> prompt_step\<^sup>*\<^sup>* (t, h) (t', h') \<and> IsHealthy h')"
proof (cases "h_isTainted h")
  case True
  note inv = prompt_sys.always [OF assms]
  with True obtain i d where d: "h_timers h = [(i, d)]" "d \<le> t + minute * 20"
    by (auto simp: prompt_inv_def taint_inv_def elim!: timer_ok_cases)
  let ?t = "max t d"
  have "prompt_step (t, h) (?t, h)" using True by (intro prompt_step.intros taint_step.passes) auto
  moreover have "prompt_step (?t, h) (?t, timer_fires i ?t h)"
    using True d by (intro prompt_step.intros taint_step.fires [of i d]) auto
  ultimately have "prompt_step\<^sup>*\<^sup>* (t, h) (?t, timer_fires i ?t h)" by simp
  moreover have "IsHealthy (timer_fires i ?t h)"
    by (simp add: IsHealthy_def IsTainted_def timer_fires_def RemoveTaint_def Let_def)
  ultimately show ?thesis using d by (intro conjI exI [of _ ?t] exI [of _ "timer_fires i ?t h"]) (auto simp: status_def)
next
  case False
  then show ?thesis by (auto simp: status_def IsHealthy_def IsTainted_def intro!: exI [of _ t] exI [of _ h])
qed

theorem taint_ends_witness:
  "IsTainted (taint_checker httpTaintConfig minute sample_checker) \<and>
   (\<exists>t' h'. minute \<le> t' \<and> t' \<le> minute * 21 \<and>
      prompt_step\<^sup>*\<^sup>* (minute, taint_checker httpTaintConfig minute sample_checker) (t', h') \<and> IsHealthy h')"
proof
  show "IsTainted (taint_checker httpTaintConfig minute sample_checker)"
    by (simp add: IsTainted_def taint_checker_def mark_tainted_def Let_def)
  have "reach taint_init prompt_step (minute, sample_checker)"
    unfolding sample_checker_def by (rule reach_init) (rule NewHealthChecker_init)
  moreover have "prompt_step (minute, sample_checker) (minute, taint_checker httpTaintConfig minute sample_checker)"
    by (intro prompt_step.intros taint_step.taints known_http)
       (simp add: quiet_def sample_checker_def NewHealthChecker_def Let_def split: prod.splits)
  ultimately have r: "reach taint_init prompt_step (minute, taint_checker httpTaintConfig minute sample_checker)"
    by (rule reach_step)
  from taint_ends [OF r] show "\<exists>t' h'. minute \<le> t' \<and> t' \<le> minute * 21 \<and>
      prompt_step\<^sup>*\<^sup>* (minute, taint_checker httpTaintConfig minute sample_checker) (t', h') \<and> IsHealthy h'" by auto
qed

section \<open>Backoff\<close>

text \<open>
  A provider that keeps failing: it is tainted at \<open>t\<close>, its timer fires on time, and \<open>gap\<close> later it
  is tainted again, \<open>n\<close> times.
\<close>

primrec taint_cycles :: "TaintConfig \<Rightarrow> duration \<Rightarrow> nat \<Rightarrow> gotime \<Rightarrow> HealthChecker \<Rightarrow> gotime \<times> HealthChecker" where
  "taint_cycles cfg gap 0 t h = (t, taint_checker cfg t h)"
| "taint_cycles cfg gap (Suc n) t h =
    (let (t1, h1) = taint_cycles cfg gap n t h;
         t2 = t1 + ts_waitTime (h_taint h1);
         h2 = timer_fires (the (ts_removalTimer (h_taint h1))) t2 h1
     in (t2 + gap, taint_checker cfg (t2 + gap) h2))"

lemma taint_cycles_wait:
  assumes "0 < tc_InitialWaitTime cfg" and "tc_InitialWaitTime cfg \<le> tc_MaxWaitTime cfg"
    and "tc_MaxWaitTime cfg < 2 ^ 62" and "0 \<le> gap" and "gap \<le> tc_ResetWaitDuration cfg"
    and "tc_ResetWaitDuration cfg < 2 ^ 62"
    and "\<not> h_isTainted h" and "tc_ResetWaitDuration cfg < time_sub t (ts_lastRemoval (h_taint h))"
  shows "h_isTainted (snd (taint_cycles cfg gap n t h)) \<and>
    ts_waitTime (h_taint (snd (taint_cycles cfg gap n t h))) =
      min (tc_InitialWaitTime cfg * 2 ^ n) (tc_MaxWaitTime cfg)"
proof (induction n)
  case 0
  then show ?case using assms by (simp add: taint_checker_def mark_tainted_def taint_wait_def Let_def)
next
  case (Suc n)
  let ?I = "tc_InitialWaitTime cfg" and ?M = "tc_MaxWaitTime cfg"
  obtain t1 h1 where eq: "taint_cycles cfg gap n t h = (t1, h1)" by fastforce
  with Suc have w: "ts_waitTime (h_taint h1) = min (?I * 2 ^ n) ?M" by simp
  have pos: "0 < ?I * 2 ^ n" using assms(1) by simp
  have wrap: "wrap64 (min x ?M * 2) = min x ?M * 2" if "0 < x" for x
    using assms(1-3) that by (intro wrap64_id) (auto simp: min_def)
  have cap: "min (min x ?M * 2) ?M = min (2 * x) ?M" if "0 < x" for x
    using assms(1,2) that by (auto simp: min_def)
  have soon: "time_sub (x + gap) x \<le> tc_ResetWaitDuration cfg" for x
    using assms(4-6) by (auto simp: time_sub_def)
  show ?case
    using wrap [OF pos] cap [OF pos] soon
    by (simp add: eq w taint_checker_def mark_tainted_def timer_fires_def RemoveTaint_def taint_wait_def
        Let_def algebra_simps)
qed

text \<open>
  C26. Exponential backoff with a cap: a checker whose last removal is long past and that fails
  again each time within the reset window waits, after its n-th relapse, ten seconds times 2 to
  the n, at most a minute, for request failures, and thirty seconds times 2 to the n, at most
  twenty minutes, for failed health checks.
\<close>

theorem backoff_is_exponential:
  assumes "\<not> h_isTainted h" and "minute * 5 < time_sub t (ts_lastRemoval (h_taint h))"
    and "0 \<le> gap" and "gap \<le> second * 20"
  shows "ts_waitTime (h_taint (snd (taint_cycles httpTaintConfig gap n t h))) =
      min (second * 10 * 2 ^ n) (second * 60)
    \<and> ts_waitTime (h_taint (snd (taint_cycles (health_check_config detail) gap n t h))) =
      min (second * 30 * 2 ^ n) (minute * 20)"
proof
  show "ts_waitTime (h_taint (snd (taint_cycles httpTaintConfig gap n t h))) =
      min (second * 10 * 2 ^ n) (second * 60)"
    using taint_cycles_wait [of httpTaintConfig gap h t n] assms by (simp add: httpTaintConfig_def)
  have cfg: "tc_InitialWaitTime (health_check_config detail) = second * 30"
    "tc_MaxWaitTime (health_check_config detail) = minute * 20"
    "tc_ResetWaitDuration (health_check_config detail) = minute * 5"
    by (auto simp: health_check_config_def healthCheckTaintConfig_def split: list.splits)
  show "ts_waitTime (h_taint (snd (taint_cycles (health_check_config detail) gap n t h))) =
      min (second * 30 * 2 ^ n) (minute * 20)"
    using taint_cycles_wait [of "health_check_config detail" gap h t n] assms by (simp add: cfg)
qed

theorem backoff_is_exponential_witness:
  "ts_waitTime (h_taint (snd (taint_cycles httpTaintConfig second 2 (minute * 60) sample_checker))) = second * 40
   \<and> ts_waitTime (h_taint (snd (taint_cycles (health_check_config []) second 2 (minute * 60) sample_checker))) =
     second * 120"
proof -
  have "\<not> h_isTainted sample_checker" "minute * 5 < time_sub (minute * 60) (ts_lastRemoval (h_taint sample_checker))"
    by (simp_all add: sample_checker_def NewHealthChecker_def time_sub_def Let_def split: prod.splits)
  from backoff_is_exponential [OF this, of second 2 "[]"] show ?thesis by simp
qed

end
