(* ===== verification/HealthUtils.thy ===== *)
theory HealthUtils
  imports Config
begin

text \<open>
  \<open>internal/proxy/healthchecker_utils.go\<close> and the JSON-RPC response type of
  \<open>internal/proxy/healthchecker.go\<close>: hexadecimal block numbers, the client-disconnect test on
  error values, and the \<open>eth_call\<close> probe of the SHA-256 precompile.
\<close>

section \<open>parseHex\<close>

text \<open>
  \<open>strconv.ParseUint(s, 16, 64)\<close>, as the Go library computes it: the accumulator is a 64-bit
  word, \<open>cutoff\<close> is the first value whose multiplication by the base overflows.
\<close>

abbreviation cutoff16 :: u64 where "cutoff16 \<equiv> 2 ^ 60"

fun parse_uint_loop :: "u64 \<Rightarrow> string \<Rightarrow> sentinel + u64" where
  "parse_uint_loop n [] = Inr n"
| "parse_uint_loop n (c # s) = (case hex_val c of
     None \<Rightarrow> Inl ErrSyntax
   | Some d \<Rightarrow>
       if cutoff16 \<le> n then Inl ErrRange
       else (let m = n * 16; n1 = m + of_nat d in
             if n1 < m then Inl ErrRange else parse_uint_loop n1 s))"

definition num_error :: "string \<Rightarrow> sentinel \<Rightarrow> goerr" where
  "num_error s e = Wrap (''strconv.ParseUint: parsing '' @ s @ '': '') (Sentinel e)"

definition ParseUint16 :: "string \<Rightarrow> goerr + u64" where
  "ParseUint16 s = (if s = [] then Inl (num_error s ErrSyntax)
     else (case parse_uint_loop 0 s of Inl e \<Rightarrow> Inl (num_error s e) | Inr n \<Rightarrow> Inr n))"

definition parseHex :: "string \<Rightarrow> goerr + u64" where
  "parseHex s0 =
    (if length s0 = 0 then Inr 0
     else
       (let s = (case cut_prefix s0 ''0x'' of
                   Some after \<Rightarrow> after
                 | None \<Rightarrow> (case cut_prefix s0 ''0X'' of Some after \<Rightarrow> after | None \<Rightarrow> s0))
        in if length s = 0 then Inr 0 else ParseUint16 s))"

text \<open>The specification: the natural number that a string of hexadecimal digits denotes.\<close>

definition hex_digits :: "string \<Rightarrow> bool" where
  "hex_digits s \<longleftrightarrow> list_all (\<lambda>c. hex_val c \<noteq> None) s"

definition hex_step :: "nat \<Rightarrow> char \<Rightarrow> nat" where
  "hex_step n c = 16 * n + the (hex_val c)"

definition hex_value :: "string \<Rightarrow> nat" where
  "hex_value s = foldl hex_step 0 s"

definition hex_char :: "nat \<Rightarrow> char" where
  "hex_char d = char_of (if d < 10 then 48 + d else 87 + d)"

fun hex_string :: "nat \<Rightarrow> string" where
  "hex_string n = (if n < 16 then [hex_char n] else hex_string (n div 16) @ [hex_char (n mod 16)])"

declare hex_string.simps [simp del]

lemma hex_val_less: "hex_val c = Some d \<Longrightarrow> d < 16"
  by (auto simp: hex_val_def Let_def split: if_splits)

lemma foldl_hex_ge: "n \<le> foldl hex_step n s"
proof (induction s arbitrary: n)
  case (Cons c s)
  have "n \<le> hex_step n c" by (simp add: hex_step_def)
  also have "\<dots> \<le> foldl hex_step (hex_step n c) s" by (rule Cons.IH)
  finally show ?case by simp
qed simp

lemma parse_step_exact:
  assumes "n < cutoff16" and "d < 16"
  shows "unat (n * 16 + of_nat d) = 16 * unat n + d" and "\<not> n * 16 + of_nat d < n * 16"
proof -
  have "unat n < 2 ^ 60" using assms(1) by (simp add: word_less_nat_alt)
  then have m: "unat (n * 16) = 16 * unat n" by (simp add: unat_word_ariths)
  with \<open>unat n < 2 ^ 60\<close> assms(2) show "unat (n * 16 + of_nat d) = 16 * unat n + d"
    by (simp add: unat_word_ariths m unat_of_nat)
  with m show "\<not> n * 16 + of_nat d < n * 16" by (simp add: word_less_nat_alt)
qed

lemma parse_uint_loop_value:
  "hex_digits s \<Longrightarrow>
   parse_uint_loop n s =
     (let v = foldl hex_step (unat n) s in if v < 2 ^ 64 then Inr (of_nat v) else Inl ErrRange)"
proof (induction s arbitrary: n)
  case Nil
  then show ?case using unat_u64 [of n] by (simp add: Let_def)
next
  case (Cons c s)
  then obtain d where d: "hex_val c = Some d" and s: "hex_digits s"
    by (auto simp: hex_digits_def)
  have step: "hex_step k c = 16 * k + d" for k by (simp add: hex_step_def d)
  show ?case
  proof (cases "cutoff16 \<le> n")
    case True
    then have "2 ^ 60 \<le> unat n" by (simp add: word_le_nat_alt)
    then have "2 ^ 64 \<le> hex_step (unat n) c" by (simp add: step)
    also have "\<dots> \<le> foldl hex_step (hex_step (unat n) c) s" by (rule foldl_hex_ge)
    finally show ?thesis using True by (simp add: d)
  next
    case False
    then have lt: "n < cutoff16" by simp
    note exact = parse_step_exact [OF lt hex_val_less [OF d]]
    show ?thesis
      using Cons.IH [OF s, of "n * 16 + of_nat d"] False exact by (simp add: d step Let_def)
  qed
qed

lemma ParseUint16_value:
  "hex_digits s \<Longrightarrow> s \<noteq> [] \<Longrightarrow>
   ParseUint16 s = (if hex_value s < 2 ^ 64 then Inr (of_nat (hex_value s)) else Inl (num_error s ErrRange))"
  by (simp add: ParseUint16_def parse_uint_loop_value hex_value_def Let_def)

lemma parse_uint_loop_bad: "\<not> hex_digits s \<Longrightarrow> \<exists>e. parse_uint_loop n s = Inl e"
proof (induction s arbitrary: n)
  case (Cons c s)
  show ?case
  proof (cases "hex_val c")
    case (Some d)
    with Cons.prems have "\<not> hex_digits s" by (simp add: hex_digits_def)
    with Cons.IH Some show ?thesis by (simp add: Let_def)
  qed simp
qed (simp add: hex_digits_def)

lemma ParseUint16_Inr_iff:
  "s \<noteq> [] \<Longrightarrow> ParseUint16 s = Inr n \<longleftrightarrow> hex_digits s \<and> hex_value s = unat n"
proof (cases "hex_digits s")
  case True
  assume "s \<noteq> []"
  then have eq: "ParseUint16 s =
      (if hex_value s < 2 ^ 64 then Inr (of_nat (hex_value s)) else Inl (num_error s ErrRange))"
    by (rule ParseUint16_value [OF True])
  have "unat n < 2 ^ 64" by (rule unat_u64)
  then show ?thesis by (auto simp: eq True unat_of_nat split: if_splits)
next
  case False
  then obtain e where "parse_uint_loop 0 s = Inl e" using parse_uint_loop_bad by blast
  with False show ?thesis by (simp add: ParseUint16_def)
qed

definition without_0x :: "string \<Rightarrow> string" where
  "without_0x s = (if take 2 s = ''0x'' \<or> take 2 s = ''0X'' then drop 2 s else s)"

lemma cut_prefix_take: "cut_prefix s p = (if take (length p) s = p then Some (drop (length p) s) else None)"
  by (induction s p rule: cut_prefix.induct) auto

lemma parseHex_without_0x:
  "parseHex s = (if without_0x s = [] then Inr 0 else ParseUint16 (without_0x s))"
  by (auto simp: parseHex_def cut_prefix_take without_0x_def numeral_2_eq_2)

lemma hex_value_Nil [simp]: "hex_value [] = 0"
  by (simp add: hex_value_def)

lemma hex_val_hex_char: "d < 16 \<Longrightarrow> hex_val (hex_char d) = Some d"
  by (auto simp: hex_val_def hex_char_def Let_def)

lemma hex_string_value: "hex_digits (hex_string n) \<and> hex_value (hex_string n) = n \<and> hex_string n \<noteq> []"
proof (induction n rule: hex_string.induct)
  case (1 n)
  show ?case
  proof (cases "n < 16")
    case True
    then show ?thesis
      by (simp add: hex_string.simps [of n] hex_digits_def hex_value_def hex_step_def hex_val_hex_char)
  next
    case False
    with 1 have IH: "hex_digits (hex_string (n div 16))" "hex_value (hex_string (n div 16)) = n div 16"
      by auto
    have "n mod 16 < 16" by simp
    with False IH show ?thesis
      by (simp add: hex_string.simps [of n] hex_digits_def hex_value_def hex_step_def
          hex_val_hex_char [OF \<open>n mod 16 < 16\<close>])
  qed
qed

lemma parseHex_Inr_iff:
  "parseHex s = Inr n \<longleftrightarrow> hex_digits (without_0x s) \<and> hex_value (without_0x s) = unat n"
proof (cases "without_0x s = []")
  case True
  then show ?thesis by (auto simp: parseHex_without_0x hex_digits_def unat_eq_0 dest: sym)
next
  case False
  then show ?thesis by (simp add: parseHex_without_0x ParseUint16_Inr_iff)
qed

text \<open>
  C27. \<open>parseHex\<close>, with or without a prefix \<open>0x\<close> or \<open>0X\<close>, returns the value of a hexadecimal string
  when it fits 64 bits and a range error when it does not; a string with another character is an
  error; a bare prefix and the empty string are zero.
\<close>

theorem parseHex_correct:
  "if hex_digits (without_0x s)
   then parseHex s = (if hex_value (without_0x s) < 2 ^ 64 then Inr (of_nat (hex_value (without_0x s)))
                      else Inl (num_error (without_0x s) ErrRange))
   else \<exists>e. parseHex s = Inl (num_error (without_0x s) e)"
proof (cases "without_0x s = []")
  case False
  then show ?thesis
    using parse_uint_loop_bad [of "without_0x s" 0] ParseUint16_value [of "without_0x s"]
    by (cases "hex_digits (without_0x s)") (force simp: parseHex_without_0x ParseUint16_def)+
qed (simp add: parseHex_without_0x hex_digits_def)

text \<open>C28. Printing a block number in hexadecimal and parsing it gives the number back.\<close>

theorem parseHex_roundtrip: "parseHex (''0x'' @ hex_string (unat n)) = Inr n"
  using hex_string_value [of "unat n"]
  by (simp add: parseHex_without_0x without_0x_def ParseUint16_Inr_iff)

section \<open>isBrokenPipeError\<close>

definition isBrokenPipeError :: "goerr \<Rightarrow> bool" where
  "isBrokenPipeError err \<longleftrightarrow> errors_is err EPIPE \<or> errors_is err ECONNRESET \<or> errors_is err ErrClosed"

text \<open>The error at the end of a wrap chain decides.\<close>

fun root_cause :: "goerr \<Rightarrow> goerr" where
  "root_cause (Wrap m e) = root_cause e"
| "root_cause e = e"

lemma errors_is_root: "errors_is e t \<longleftrightarrow> root_cause e = Sentinel t"
  by (induction e) auto

section \<open>JSON-RPC responses\<close>

record JSONRPCError =
  je_Code :: int
  je_Message :: string

record JSONRPCResponse =
  jr_Result :: goany
  jr_Error :: "JSONRPCError option"

definition assign_error :: "string \<Rightarrow> json \<Rightarrow> JSONRPCError \<Rightarrow> JSONRPCError option" where
  "assign_error k v e =
    (if equal_fold k ''code'' then map_option (\<lambda>n. e\<lparr>je_Code := n\<rparr>) (decode_int v (je_Code e))
     else if equal_fold k ''message'' then map_option (\<lambda>m. e\<lparr>je_Message := m\<rparr>) (decode_string v (je_Message e))
     else Some e)"

text \<open>A pointer field: \<open>null\<close> clears it, an object is decoded into the struct it points to.\<close>

definition assign_response :: "string \<Rightarrow> json \<Rightarrow> JSONRPCResponse \<Rightarrow> JSONRPCResponse option" where
  "assign_response k v r =
    (if equal_fold k ''result'' then map_option (\<lambda>x. r\<lparr>jr_Result := x\<rparr>) (to_any v)
     else if equal_fold k ''error'' then
       (if v = JNull then Some (r\<lparr>jr_Error := None\<rparr>)
        else map_option (\<lambda>e. r\<lparr>jr_Error := Some e\<rparr>)
          (decode_struct assign_error v
            (case jr_Error r of Some e \<Rightarrow> e | None \<Rightarrow> \<lparr>je_Code = 0, je_Message = []\<rparr>)))
     else Some r)"

text \<open>\<open>json.NewDecoder(body).Decode(&out)\<close> for a response that starts as the zero value.\<close>

definition decode_response :: "string \<Rightarrow> JSONRPCResponse option" where
  "decode_response body =
     Option.bind (json_decode body)
       (\<lambda>j. decode_struct assign_response j \<lparr>jr_Result = GNil, jr_Error = None\<rparr>)"

definition decode_error :: goerr where
  "decode_error = Errorf ''invalid JSON or a value of another type''"

section \<open>performEthCallHealthCheck\<close>

definition sha256PrecompileInput :: string where
  "sha256PrecompileInput = ''0xdeadbeef''"

definition sha256PrecompileExpect :: string where
  "sha256PrecompileExpect = ''0x5f78c33274e43fa9de5659265c1d917e25c03722dcb0b8d27db8d5feaa813953''"

text \<open>A line of the request literal: tabs, text, line feed.\<close>

definition code_line :: "nat \<Rightarrow> string \<Rightarrow> string" where
  "code_line n t = replicate n (CHR 0x09) @ t @ [CHR 0x0A]"

definition ethCallRaw :: string where
  "ethCallRaw = code_line 0 ''{''
     @ code_line 2 ''\"method\": \"eth_call\",''
     @ code_line 2 ''\"params\": [''
     @ code_line 3 ''{''
     @ code_line 4 ''\"to\": \"0x0000000000000000000000000000000000000002\",''
     @ code_line 4 (''\"data\": \"'' @ sha256PrecompileInput @ ''\"'')
     @ code_line 3 ''},''
     @ code_line 3 ''\"latest\"''
     @ code_line 2 ''],''
     @ code_line 2 ''\"id\": 1,''
     @ code_line 2 ''\"jsonrpc\": \"2.0\"''
     @ [CHR 0x09] @ ''}''"

definition eth_call_request :: "string \<Rightarrow> HttpRequest" where
  "eth_call_request url =
    \<lparr>hr_method = ''POST'', hr_url = url, hr_query = url_query url,
     hr_header = header_set Map.empty ''Content-Type'' ''application/json'', hr_body = ethCallRaw\<rparr>"

definition performEthCallHealthCheck :: "http_env \<Rightarrow> string \<Rightarrow> goerr option" where
  "performEthCallHealthCheck env url =
    (case new_request env ''POST'' url of
       Some err \<Rightarrow> Some (Wrap ''ethCallHealth: new request: '' err)
     | None \<Rightarrow>
    (case do_request env 0 (eth_call_request url) of
       Inl err \<Rightarrow> Some (Wrap ''ethCallHealth: do request: '' err)
     | Inr resp \<Rightarrow>
       if rs_status resp \<noteq> 200
       then Some (Errorf (''ethCallHealth: unexpected status '' @ show_int (rs_status resp)))
       else
    (case decode_response (rs_body resp) of
       None \<Rightarrow> Some (Wrap ''ethCallHealth: decode: '' decode_error)
     | Some result \<Rightarrow>
    (case jr_Error result of
       Some e \<Rightarrow> Some (Errorf (''ethCallHealth: rpc error: code='' @ show_int (je_Code e)
                        @ '' message='' @ je_Message e))
     | None \<Rightarrow>
       if jr_Result result = GNil \<or> jr_Result result = GStr [] then Some (Errorf ''ethCallHealth: empty result'')
       else
    (case as_string (jr_Result result) of
       None \<Rightarrow> Some (Errorf ''invalid result type'')
     | Some resultStr \<Rightarrow>
       if \<not> equal_fold resultStr sha256PrecompileExpect
       then Some (Errorf (''ethCallHealth: unexpected result \"'' @ resultStr @ ''\"''))
       else None)))))"

text \<open>
  C29. The probe passes exactly when the provider answers the request with status 200 and a
  JSON-RPC response that has no error and whose result is, up to case, the SHA-256 digest that
  the precompile must return.
\<close>

theorem eth_call_probe_passes_iff:
  "performEthCallHealthCheck env url = None \<longleftrightarrow>
    new_request env ''POST'' url = None \<and>
    (\<exists>resp r t. do_request env 0 (eth_call_request url) = Inr resp \<and> rs_status resp = 200 \<and>
       decode_response (rs_body resp) = Some r \<and> jr_Error r = None \<and>
       jr_Result r = GStr t \<and> equal_fold t sha256PrecompileExpect)"
  by (auto simp: performEthCallHealthCheck_def as_string_def equal_fold_Nil sha256PrecompileExpect_def
      split: option.splits sum.splits goany.splits if_splits)


text \<open>The request literal is well-formed JSON.\<close>

lemma ethCallRaw_json:
  "json_unmarshal ethCallRaw = Some (JObj
     [(''method'', JStr ''eth_call''),
      (''params'', JArr [JObj [(''to'', JStr ''0x0000000000000000000000000000000000000002''),
                               (''data'', JStr sha256PrecompileInput)], JStr ''latest'']),
      (''id'', JNum ''1''), (''jsonrpc'', JStr ''2.0'')])"
  by code_simp

end
