(* ===== verification/HealthCheck.thy ===== *)
theory HealthCheck
  imports Taint HealthUtils
begin

text \<open>
  The probes of \<open>internal/proxy/healthchecker.go\<close>: the JSON-RPC call over HTTP, the block number
  of an EVM, a Solana and a Tron node over HTTP and over a websocket, and the \<open>eth_call\<close> probe.
  What the provider answers is the environment \<open>probe_env\<close>. The request bodies are the text that
  \<open>encoding/json\<close> writes.
\<close>

section \<open>The environment of one health check\<close>

text \<open>
  \<open>pe_block\<close> and \<open>pe_eth\<close> answer the HTTP requests of the two checks. \<open>pe_dial\<close>, \<open>pe_write\<close> and
  \<open>pe_read\<close> are a websocket connection: the error of dialling, of the n-th write, and the n-th
  message or the error of reading it. \<open>pe_isUnexpectedCloseError\<close> is
  \<open>websocket.IsUnexpectedCloseError\<close>, and \<open>pe_uint64\<close> the result of converting a float that no
  uint64 holds.
\<close>

record probe_env =
  pe_block :: http_env
  pe_eth :: http_env
  pe_dial :: "goerr option"
  pe_write :: "nat \<Rightarrow> goany \<Rightarrow> goerr option"
  pe_read :: "nat \<Rightarrow> goerr + string"
  pe_isUnexpectedCloseError :: "goerr \<Rightarrow> int list \<Rightarrow> bool"
  pe_uint64 :: "rat \<Rightarrow> u64"

section \<open>makeJSONRPCCall\<close>

definition userAgent :: string where
  "userAgent = ''rpc-gateway-health-check''"

text \<open>
  JSON text of a value, as the encoder writes it without HTML escaping; exact for strings of
  printable ASCII without quote and backslash, and for integers, which are all that the probes send.
\<close>

fun join_with :: "string \<Rightarrow> string list \<Rightarrow> string" where
  "join_with sep [] = []"
| "join_with sep [s] = s"
| "join_with sep (s # t # ts) = s @ sep @ join_with sep (t # ts)"

definition quoted :: "string \<Rightarrow> string" where
  "quoted t = ''\"'' @ t @ ''\"''"

fun encode_any :: "goany \<Rightarrow> string" where
  "encode_any GNil = ''null''"
| "encode_any (GBool b) = (if b then ''true'' else ''false'')"
| "encode_any (GNum x) = show_int \<lfloor>x\<rfloor>"
| "encode_any (GStr t) = quoted t"
| "encode_any (GArr vs) = ''['' @ join_with '','' (map encode_any vs) @ '']''"
| "encode_any (GObj kvs) =
     ''{'' @ join_with '','' (map (\<lambda>kv. quoted (fst kv) @ '':'' @ encode_any (snd kv)) kvs) @ ''}''"

definition rpc_call_body :: "string \<Rightarrow> goany list \<Rightarrow> string" where
  "rpc_call_body method params =
     encode_any (GObj [(''jsonrpc'', GStr ''2.0''), (''id'', GNum 1), (''method'', GStr method),
                       (''params'', GArr params)]) @ [CHR 0x0A]"

definition rpc_call_request :: "HealthChecker \<Rightarrow> string \<Rightarrow> goany list \<Rightarrow> HttpRequest" where
  "rpc_call_request h method params =
    \<lparr>hr_method = ''POST'', hr_url = hcf_URL (h_config h), hr_query = url_query (hcf_URL (h_config h)),
     hr_header = set_headers (hcf_Headers (h_config h))
       (header_set (header_set Map.empty ''Content-Type'' ''application/json'') ''User-Agent'' userAgent),
     hr_body = rpc_call_body method params\<rparr>"

definition makeJSONRPCCall ::
  "http_env \<Rightarrow> HealthChecker \<Rightarrow> string \<Rightarrow> goany list \<Rightarrow> goerr + JSONRPCResponse" where
  "makeJSONRPCCall env h method params =
    (case new_request env ''POST'' (hcf_URL (h_config h)) of
       Some err \<Rightarrow> Inl (Wrap ''failed to create request: '' err)
     | None \<Rightarrow>
    (case do_request env 0 (rpc_call_request h method params) of
       Inl err \<Rightarrow> Inl (Wrap ''failed to send request: '' err)
     | Inr resp \<Rightarrow>
       if rs_status resp \<noteq> 200
       then Inl (Errorf (''unexpected status code: '' @ show_int (rs_status resp)))
       else
    (case decode_response (rs_body resp) of
       None \<Rightarrow> Inl (Wrap ''failed to decode response: '' decode_error)
     | Some out \<Rightarrow>
    (case jr_Error out of
       Some e \<Rightarrow> Inl (Errorf (''RPC error: '' @ je_Message e))
     | None \<Rightarrow> Inr out))))"

section \<open>The websocket probes\<close>

text \<open>\<open>conn.ReadJSON(&v)\<close>: the next message, decoded.\<close>

definition read_json :: "probe_env \<Rightarrow> nat \<Rightarrow> (json \<Rightarrow> 'a option) \<Rightarrow> goerr + 'a" where
  "read_json env n decode = (case pe_read env n of
     Inl err \<Rightarrow> Inl err
   | Inr text \<Rightarrow> (case Option.bind (json_decode text) decode of None \<Rightarrow> Inl decode_error | Some v \<Rightarrow> Inr v))"

definition rpc_message :: "int \<Rightarrow> string \<Rightarrow> goany list \<Rightarrow> goany" where
  "rpc_message i method params =
     GObj [(''id'', GNum (of_int i)), (''jsonrpc'', GStr ''2.0''), (''method'', GStr method),
           (''params'', GArr params)]"

definition assign_result :: "string \<Rightarrow> json \<Rightarrow> goany \<Rightarrow> goany option" where
  "assign_result k v r = (if equal_fold k ''Result'' then to_any v else Some r)"

definition assign_result_string :: "string \<Rightarrow> json \<Rightarrow> string \<Rightarrow> string option" where
  "assign_result_string k v r = (if equal_fold k ''result'' then decode_string v r else Some r)"

text \<open>The zero value of a type assertion that fails.\<close>

definition string_or_empty :: "goany \<Rightarrow> string" where
  "string_or_empty v = (case as_string v of None \<Rightarrow> [] | Some t \<Rightarrow> t)"

definition map_or_nil :: "goany \<Rightarrow> gomap" where
  "map_or_nil v = (case as_map v of None \<Rightarrow> Map.empty | Some m \<Rightarrow> m)"

text \<open>The second component lists the messages that the probe has sent.\<close>

definition checkSolanaSlotViaWebSocket :: "probe_env \<Rightarrow> (goerr + u64) \<times> goany list" where
  "checkSolanaSlotViaWebSocket env =
    (let sub = rpc_message 1 ''slotSubscribe'' [] in
     case pe_write env 0 sub of
       Some err \<Rightarrow> (Inl (Wrap ''slotSubscribe failed: '' err), [])
     | None \<Rightarrow>
    (case read_json env 0 (\<lambda>j. decode_struct assign_result j GNil) of
       Inl err \<Rightarrow> (Inl (Wrap ''subscription response failed: '' err), [sub])
     | Inr subID \<Rightarrow>
    (case read_json env 1 any_map of
       Inl err \<Rightarrow>
         (Inl (if pe_isUnexpectedCloseError env err [] then Wrap ''websocket closed unexpectedly: '' err
               else if errors_is err ErrCloseSent then Wrap ''websocket close sent: '' err
               else Wrap ''slot notification failed: '' err), [sub])
     | Inr msg \<Rightarrow>
       (let method = string_or_empty (map_index msg ''method'') in
        if method \<noteq> ''slotNotification''
        then (Inl (Errorf (''unexpected notification method: '' @ method)), [sub])
        else
          (let params = map_or_nil (map_index msg ''params'');
               result = map_or_nil (map_index params ''result'')
           in case as_float (map_index result ''slot'') of
                None \<Rightarrow> (Inl (Errorf ''invalid slot format''), [sub])
              | Some slot \<Rightarrow>
                  (let unsub = rpc_message 2 ''slotUnsubscribe'' [subID] in
                   (Inr (uint64_of_float (pe_uint64 env) slot),
                    sub # (if pe_write env 1 unsub = None then [unsub] else []))))))))"

definition checkEVMBlockNumberViaWebSocket :: "probe_env \<Rightarrow> goerr + u64" where
  "checkEVMBlockNumberViaWebSocket env =
    (case pe_write env 0 (rpc_message 1 ''eth_blockNumber'' []) of
       Some err \<Rightarrow> Inl (Wrap ''eth_blockNumber request failed: '' err)
     | None \<Rightarrow>
    (case read_json env 0 (\<lambda>j. decode_struct assign_result_string j []) of
       Inl err \<Rightarrow> Inl (Wrap ''eth_blockNumber response failed: '' err)
     | Inr result \<Rightarrow>
    (case parseHex result of
       Inl err \<Rightarrow> Inl (Wrap ''failed to parse block number: '' err)
     | Inr blockNumber \<Rightarrow> Inr blockNumber)))"

section \<open>checkBlockNumber\<close>

text \<open>The struct of a Tron response; only its nested number is used, but its types are checked.\<close>

record TronResponse =
  tr_BlockID :: string
  tr_Number :: u64

definition assign_raw_data :: "string \<Rightarrow> json \<Rightarrow> TronResponse \<Rightarrow> TronResponse option" where
  "assign_raw_data k v r =
    (if equal_fold k ''number'' then map_option (\<lambda>n. r\<lparr>tr_Number := n\<rparr>) (decode_uint64 v (tr_Number r))
     else Some r)"

definition assign_block_header :: "string \<Rightarrow> json \<Rightarrow> TronResponse \<Rightarrow> TronResponse option" where
  "assign_block_header k v r =
    (if equal_fold k ''raw_data'' then decode_struct assign_raw_data v r else Some r)"

definition assign_tron :: "string \<Rightarrow> json \<Rightarrow> TronResponse \<Rightarrow> TronResponse option" where
  "assign_tron k v r =
    (if equal_fold k ''blockID'' then map_option (\<lambda>t. r\<lparr>tr_BlockID := t\<rparr>) (decode_string v (tr_BlockID r))
     else if equal_fold k ''block_header'' then decode_struct assign_block_header v r
     else Some r)"

definition decode_tron :: "string \<Rightarrow> TronResponse option" where
  "decode_tron body =
     Option.bind (json_decode body) (\<lambda>j. decode_struct assign_tron j \<lparr>tr_BlockID = [], tr_Number = 0\<rparr>)"

definition tron_request :: "HealthChecker \<Rightarrow> HttpRequest" where
  "tron_request h =
    (let url = hcf_URL (h_config h) @ ''/wallet/getnowblock'' in
     \<lparr>hr_method = ''POST'', hr_url = url, hr_query = url_query url,
      hr_header = set_headers (hcf_Headers (h_config h)) Map.empty, hr_body = []\<rparr>)"

definition checkTronBlockNumber :: "http_env \<Rightarrow> HealthChecker \<Rightarrow> goerr + u64" where
  "checkTronBlockNumber env h =
    (case new_request env ''POST'' (hcf_URL (h_config h) @ ''/wallet/getnowblock'') of
       Some err \<Rightarrow> Inl (Wrap ''failed to create request: '' err)
     | None \<Rightarrow>
    (case do_request env 0 (tron_request h) of
       Inl err \<Rightarrow> Inl (Wrap ''failed to send request: '' err)
     | Inr resp \<Rightarrow>
       if rs_status resp \<noteq> 200
       then Inl (Errorf (''unexpected status code: '' @ show_int (rs_status resp)))
       else
    (case decode_tron (rs_body resp) of
       None \<Rightarrow> Inl (Wrap ''failed to decode response: '' decode_error)
     | Some response \<Rightarrow> Inr (tr_Number response))))"

definition checkBlockNumber :: "probe_env \<Rightarrow> HealthChecker \<Rightarrow> goerr + u64" where
  "checkBlockNumber env h =
    (if hcf_ConnectionType (h_config h) = ''websocket'' then
       (case pe_dial env of
          Some err \<Rightarrow> Inl err
        | None \<Rightarrow>
            if hcf_ChainType (h_config h) = ''solana'' then fst (checkSolanaSlotViaWebSocket env)
            else checkEVMBlockNumberViaWebSocket env)
     else if hcf_ChainType (h_config h) = ''solana'' then
       (case makeJSONRPCCall (pe_block env) h ''getSlot'' [GObj [(''commitment'', GStr ''processed'')]] of
          Inl err \<Rightarrow> Inl err
        | Inr rpcResp \<Rightarrow>
            (case as_float (jr_Result rpcResp) of
               None \<Rightarrow> Inl (Errorf ''invalid result type for getSlot'')
             | Some result \<Rightarrow> Inr (uint64_of_float (pe_uint64 env) result)))
     else if hcf_ChainType (h_config h) = ''tron'' then checkTronBlockNumber (pe_block env) h
     else
       (case makeJSONRPCCall (pe_block env) h ''eth_blockNumber'' [] of
          Inl err \<Rightarrow> Inl err
        | Inr rpcResp \<Rightarrow>
            (case as_string (jr_Result rpcResp) of
               None \<Rightarrow> Inl (Errorf ''invalid result type for eth_blockNumber'')
             | Some result \<Rightarrow>
                 (case parseHex result of
                    Inl err \<Rightarrow> Inl (Wrap ''failed to parse block number: '' err)
                  | Inr blockNumber \<Rightarrow> Inr blockNumber))))"

section \<open>checkEthCall\<close>

definition checkEthCall :: "probe_env \<Rightarrow> HealthChecker \<Rightarrow> goerr option" where
  "checkEthCall env h =
    (if hcf_ChainType (h_config h) \<noteq> ''evm'' \<or> hcf_ConnectionType (h_config h) = ''websocket'' then None
     else performEthCallHealthCheck (pe_eth env) (hcf_URL (h_config h)))"

section \<open>Properties\<close>

lemma makeJSONRPCCall_Inr_iff:
  "makeJSONRPCCall env h method params = Inr r \<longleftrightarrow>
    new_request env ''POST'' (hcf_URL (h_config h)) = None \<and>
    (\<exists>resp. do_request env 0 (rpc_call_request h method params) = Inr resp \<and> rs_status resp = 200 \<and>
       decode_response (rs_body resp) = Some r \<and> jr_Error r = None)"
  by (auto simp: makeJSONRPCCall_def split: option.splits sum.splits)

text \<open>The request bodies of the probes are the JSON-RPC calls that they should be.\<close>

lemma rpc_call_body_json:
  "json_unmarshal (rpc_call_body ''eth_blockNumber'' []) = Some (JObj
     [(''jsonrpc'', JStr ''2.0''), (''id'', JNum ''1''), (''method'', JStr ''eth_blockNumber''),
      (''params'', JArr [])])"
  "json_unmarshal (rpc_call_body ''getSlot'' [GObj [(''commitment'', GStr ''processed'')]]) = Some (JObj
     [(''jsonrpc'', JStr ''2.0''), (''id'', JNum ''1''), (''method'', JStr ''getSlot''),
      (''params'', JArr [JObj [(''commitment'', JStr ''processed'')]])])"
  by code_simp+

text \<open>A checker and a provider that answers every request with status 200 and the given text.\<close>

definition probe_checker :: "string \<Rightarrow> string \<Rightarrow> HealthChecker" where
  "probe_checker chain conn = fst (NewHealthChecker
     \<lparr>hcf_URL = ''https://a'', hcf_Name = ''a'', hcf_Interval = 5 * second, hcf_Timeout = second,
      hcf_Path = ''eth'', hcf_ChainType = chain, hcf_ConnectionType = conn, hcf_BlockDiffThreshold = 2,
      hcf_Headers = [], hcf_InitialDelay = 0\<rparr> init_http)"

definition answering :: "string \<Rightarrow> http_env" where
  "answering text = \<lparr>new_request = (\<lambda>m u. None),
     do_request = (\<lambda>n r. Inr \<lparr>rs_status = 200, rs_header = Map.empty, rs_body = text, rs_err = None\<rparr>)\<rparr>"

definition answering_probe :: "string \<Rightarrow> string \<Rightarrow> probe_env" where
  "answering_probe block eth = \<lparr>pe_block = answering block, pe_eth = answering eth, pe_dial = None,
     pe_write = (\<lambda>n v. None), pe_read = (\<lambda>n. Inl (Sentinel DeadlineExceeded)),
     pe_isUnexpectedCloseError = (\<lambda>e cs. False), pe_uint64 = (\<lambda>f. 0)\<rparr>"

lemma probe_checker_config [simp]:
  "hcf_URL (h_config (probe_checker chain conn)) = ''https://a''"
  "hcf_Headers (h_config (probe_checker chain conn)) = []"
  "hcf_ChainType (h_config (probe_checker chain conn)) = cmp_or chain ''evm''"
  "hcf_ConnectionType (h_config (probe_checker chain conn)) = cmp_or conn ''http''"
  by (simp_all add: probe_checker_def NewHealthChecker_def Let_def split: prod.splits)

lemma probe_checker_fresh [simp]:
  "\<not> h_isTainted (probe_checker chain conn)" "h_ethCallCheckCounter (probe_checker chain conn) = 0"
  "h_blockNumber (probe_checker chain conn) = 0"
  "h_onBlockNumberUpdate (probe_checker chain conn) = None"
  by (simp_all add: probe_checker_def NewHealthChecker_def Let_def split: prod.splits)

abbreviation evm_answer :: string where
  "evm_answer \<equiv> ''{\"jsonrpc\":\"2.0\",\"id\":1,\"result\":\"0x10\"}''"

lemma evm_answer_decoded: "decode_response evm_answer = Some \<lparr>jr_Result = GStr ''0x10'', jr_Error = None\<rparr>"
  by code_simp

text \<open>
  C30. The block number of an EVM node over HTTP is \<open>n\<close> exactly when the node answers the request
  with status 200 and a JSON-RPC response without error whose result is a hexadecimal string of
  value \<open>n\<close>; everything else is an error.
\<close>

theorem evm_block_number_iff:
  assumes "hcf_ConnectionType (h_config h) \<noteq> ''websocket''"
    and "hcf_ChainType (h_config h) \<notin> {''solana'', ''tron''}"
  shows "checkBlockNumber env h = Inr n \<longleftrightarrow>
    new_request (pe_block env) ''POST'' (hcf_URL (h_config h)) = None \<and>
    (\<exists>resp r t. do_request (pe_block env) 0 (rpc_call_request h ''eth_blockNumber'' []) = Inr resp \<and>
       rs_status resp = 200 \<and> decode_response (rs_body resp) = Some r \<and> jr_Error r = None \<and>
       jr_Result r = GStr t \<and> hex_digits (without_0x t) \<and> hex_value (without_0x t) = unat n)"
proof -
  have "checkBlockNumber env h = Inr n \<longleftrightarrow>
      (\<exists>r t. makeJSONRPCCall (pe_block env) h ''eth_blockNumber'' [] = Inr r \<and>
         jr_Result r = GStr t \<and> parseHex t = Inr n)"
    using assms by (auto simp: checkBlockNumber_def split: option.splits sum.splits)
  then show ?thesis
    unfolding makeJSONRPCCall_Inr_iff parseHex_Inr_iff by blast
qed

lemma evm_probe_answer:
  "do_request (pe_block (answering_probe t u)) 0 r =
     Inr \<lparr>rs_status = 200, rs_header = Map.empty, rs_body = t, rs_err = None\<rparr>"
  "new_request (pe_block (answering_probe t u)) m l = None"
  "do_request (pe_eth (answering_probe t u)) 0 r =
     Inr \<lparr>rs_status = 200, rs_header = Map.empty, rs_body = u, rs_err = None\<rparr>"
  "new_request (pe_eth (answering_probe t u)) m l = None"
  by (simp_all add: answering_probe_def answering_def)

theorem evm_block_number_iff_witness:
  "checkBlockNumber (answering_probe evm_answer []) (probe_checker ''evm'' ''http'') = Inr 16"
proof -
  have "hex_digits (without_0x ''0x10'') \<and> hex_value (without_0x ''0x10'') = 16" by code_simp
  then show ?thesis
    by (subst evm_block_number_iff) (simp_all add: cmp_or_def evm_probe_answer evm_answer_decoded)
qed

lemma solana_fields:
  "\<not> equal_fold ''jsonrpc'' ''result''" "\<not> equal_fold ''jsonrpc'' ''error''"
  "\<not> equal_fold ''id'' ''result''" "\<not> equal_fold ''id'' ''error''" "equal_fold ''result'' ''result''"
  by code_simp+


abbreviation solana_answer :: string where
  "solana_answer \<equiv> ''{\"jsonrpc\":\"2.0\",\"result\":312345678,\"id\":1}''"


text \<open>
  The slot subscription of a websocket check does not outlive a check that succeeds: it sent
  the subscription and nothing else before the slot came, and then tried to end exactly the
  subscription that the node named.
\<close>

lemma solana_probe_unsubscribes:
  "checkSolanaSlotViaWebSocket env = (Inr n, sent) \<longleftrightarrow>
    (\<exists>subID msg params result slot.
      pe_write env 0 (rpc_message 1 ''slotSubscribe'' []) = None \<and>
      read_json env 0 (\<lambda>j. decode_struct assign_result j GNil) = Inr subID \<and>
      read_json env 1 any_map = Inr msg \<and> map_index msg ''method'' = GStr ''slotNotification'' \<and>
      map_index msg ''params'' = GObj params \<and>
      map_index (gomap_of params) ''result'' = GObj result \<and>
      map_index (gomap_of result) ''slot'' = GNum slot \<and> n = uint64_of_float (pe_uint64 env) slot \<and>
      sent = rpc_message 1 ''slotSubscribe'' [] #
        (if pe_write env 1 (rpc_message 2 ''slotUnsubscribe'' [subID]) = None
         then [rpc_message 2 ''slotUnsubscribe'' [subID]] else []))"
proof -
  have is_method: "string_or_empty v = ''slotNotification'' \<longleftrightarrow> v = GStr ''slotNotification''" for v
    by (cases v) (simp_all add: string_or_empty_def as_string_def)
  have step: "map_index (map_or_nil v) k = w \<longleftrightarrow> (\<exists>kvs. v = GObj kvs \<and> map_index (gomap_of kvs) k = w)"
    if "w \<noteq> GNil" for v w k
    using that by (cases v) (auto simp: map_or_nil_def as_map_def map_index_def)
  have obj: "map_or_nil (GObj kvs) = gomap_of kvs" for kvs by (simp add: map_or_nil_def as_map_def)
  show ?thesis
    by (auto simp: checkSolanaSlotViaWebSocket_def Let_def is_method step obj
        split: option.splits sum.splits if_splits)
qed

end
