(* ===== verification/WebSocket.thy ===== *)
theory WebSocket
  imports Config Interfaces
begin

text \<open>
  \<open>internal/proxy/websocketproxy.go\<close>: subscription tracking, the connection pool, unsubscribing,
  and the life of one proxied connection. The websocket package is third-party code: connections
  are numbers, the outcomes of dialling, pinging and writing are the environment \<open>ws_env\<close>, and
  \<open>websocket.IsCloseError\<close> is a parameter. \<open>wp_wire\<close> records what is done to upstream connections.
\<close>

section \<open>State\<close>

datatype wire = Dialed nat | Sent nat goany bool | ClosedConn nat

record WebSocketProxy =
  wp_targetURL :: string
  wp_timeout :: duration
  wp_subscriptions :: "string list"
  wp_connPool :: "nat list"
  wp_wire :: "wire list"

record ws_env =
  we_dial :: "string \<Rightarrow> nat option"
  we_ping :: "nat \<Rightarrow> bool"
  we_write :: "nat \<Rightarrow> goany \<Rightarrow> bool"

abbreviation pool_size :: nat where "pool_size \<equiv> 5"

definition NewWebSocketProxy :: "string \<Rightarrow> duration \<Rightarrow> WebSocketProxy" where
  "NewWebSocketProxy targetURL timeout =
    \<lparr>wp_targetURL = targetURL, wp_timeout = timeout, wp_subscriptions = [], wp_connPool = [], wp_wire = []\<rparr>"

definition log_wire :: "wire \<Rightarrow> WebSocketProxy \<Rightarrow> WebSocketProxy" where
  "log_wire e p = p\<lparr>wp_wire := wp_wire p @ [e]\<rparr>"

definition TrackSubscription :: "string \<Rightarrow> WebSocketProxy \<Rightarrow> WebSocketProxy" where
  "TrackSubscription subID p = p\<lparr>wp_subscriptions := List.insert subID (wp_subscriptions p)\<rparr>"

definition RemoveSubscription :: "string \<Rightarrow> WebSocketProxy \<Rightarrow> WebSocketProxy" where
  "RemoveSubscription subID p = p\<lparr>wp_subscriptions := removeAll subID (wp_subscriptions p)\<rparr>"

section \<open>The connection pool\<close>

definition createNewConnection :: "ws_env \<Rightarrow> WebSocketProxy \<Rightarrow> nat option \<times> WebSocketProxy" where
  "createNewConnection env p = (case we_dial env (wp_targetURL p) of
     None \<Rightarrow> (None, p)
   | Some conn \<Rightarrow> (Some conn, log_wire (Dialed conn) p))"

definition getConnection :: "ws_env \<Rightarrow> WebSocketProxy \<Rightarrow> nat option \<times> WebSocketProxy" where
  "getConnection env p = (case try_recv (wp_connPool p) of
     Some (conn, pool) \<Rightarrow>
       (let p1 = p\<lparr>wp_connPool := pool\<rparr> in
        if \<not> we_ping env conn then createNewConnection env (log_wire (ClosedConn conn) p1)
        else (Some conn, p1))
   | None \<Rightarrow> createNewConnection env p)"

definition returnConnection :: "nat option \<Rightarrow> WebSocketProxy \<Rightarrow> WebSocketProxy" where
  "returnConnection c p = (case c of
     None \<Rightarrow> p
   | Some conn \<Rightarrow>
       (let (pool, sent) = try_send pool_size conn (wp_connPool p) in
        if sent then p\<lparr>wp_connPool := pool\<rparr> else log_wire (ClosedConn conn) p))"

definition unsubscribe_message :: "string \<Rightarrow> goany" where
  "unsubscribe_message subID =
     GObj [(''id'', GNum 1), (''jsonrpc'', GStr ''2.0''), (''method'', GStr ''eth_unsubscribe''),
           (''params'', GArr [GStr subID])]"

primrec send_unsubscribes :: "ws_env \<Rightarrow> nat \<Rightarrow> string list \<Rightarrow> WebSocketProxy \<Rightarrow> WebSocketProxy" where
  "send_unsubscribes env conn [] p = p"
| "send_unsubscribes env conn (subID # subIDs) p =
     (let m = unsubscribe_message subID
      in send_unsubscribes env conn subIDs (log_wire (Sent conn m (we_write env conn m)) p))"

definition UnsubscribeAll :: "ws_env \<Rightarrow> WebSocketProxy \<Rightarrow> WebSocketProxy" where
  "UnsubscribeAll env p =
    (let subIDs = wp_subscriptions p in
     if length subIDs = 0 then p
     else (case getConnection env p of
        (None, p1) \<Rightarrow> p1
      | (Some conn, p1) \<Rightarrow>
          returnConnection (Some conn)
            (send_unsubscribes env conn subIDs (p1\<lparr>wp_subscriptions := []\<rparr>))))"

section \<open>Tracking subscriptions\<close>

text \<open>
  The two maps of one proxied connection. A key of the second map is an \<open>any\<close>, so using a slice or
  a map as key panics: the left value.
\<close>

record ConnState =
  cs_subscriptions :: "string list"
  cs_pending :: "goany list"

definition new_conn :: ConnState where
  "new_conn = \<lparr>cs_subscriptions = [], cs_pending = []\<rparr>"

definition unhashable_panic :: string where
  "unhashable_panic = ''runtime error: hash of unhashable type''"

text \<open>The two checks of \<open>trackSubscriptionFromMessage\<close>: a request to subscribe, to unsubscribe.\<close>

definition note_subscribe :: "string \<Rightarrow> gomap \<Rightarrow> ConnState \<Rightarrow> string + ConnState" where
  "note_subscribe method msg c =
    (if method \<in> {''eth_subscribe'', ''shh_subscribe'', ''net_subscribe''} then
       (case msg ''id'' of
          None \<Rightarrow> Inr c
        | Some requestID \<Rightarrow>
            if requestID = GNil then Inr c
            else if \<not> hashable requestID then Inl unhashable_panic
            else Inr (c\<lparr>cs_pending := List.insert requestID (cs_pending c)\<rparr>))
     else Inr c)"

definition note_unsubscribe ::
  "string \<Rightarrow> gomap \<Rightarrow> ConnState \<Rightarrow> WebSocketProxy \<Rightarrow> ConnState \<times> WebSocketProxy" where
  "note_unsubscribe method msg c p =
    (if method \<in> {''eth_unsubscribe'', ''shh_unsubscribe'', ''net_unsubscribe''} then
       (case as_slice (map_index msg ''params'') of
          Some (GStr subID # _) \<Rightarrow>
            (c\<lparr>cs_subscriptions := removeAll subID (cs_subscriptions c)\<rparr>, RemoveSubscription subID p)
        | _ \<Rightarrow> (c, p))
     else (c, p))"

definition trackSubscriptionFromMessage ::
  "string \<Rightarrow> ConnState \<Rightarrow> WebSocketProxy \<Rightarrow> string + ConnState \<times> WebSocketProxy" where
  "trackSubscriptionFromMessage msgBytes c p = (case unmarshal_map msgBytes of
     None \<Rightarrow> Inr (c, p)
   | Some msg \<Rightarrow> (case as_string (map_index msg ''method'') of
     None \<Rightarrow> Inr (c, p)
   | Some method \<Rightarrow> (case note_subscribe method msg c of
     Inl panic \<Rightarrow> Inl panic
   | Inr c1 \<Rightarrow> Inr (note_unsubscribe method msg c1 p))))"

definition trackSubscriptionResponse ::
  "gomap \<Rightarrow> ConnState \<Rightarrow> WebSocketProxy \<Rightarrow> string + ConnState \<times> WebSocketProxy" where
  "trackSubscriptionResponse msg c p = (case msg ''id'' of
     None \<Rightarrow> Inr (c, p)
   | Some requestID \<Rightarrow>
       if \<not> hashable requestID then Inl unhashable_panic
       else if requestID \<notin> set (cs_pending c) then Inr (c, p)
       else
         (let c1 = c\<lparr>cs_pending := removeAll requestID (cs_pending c)\<rparr> in
          case msg ''result'' of
            Some (GStr subID) \<Rightarrow>
              Inr (c1\<lparr>cs_subscriptions := List.insert subID (cs_subscriptions c1)\<rparr>, TrackSubscription subID p)
          | _ \<Rightarrow> Inr (c1, p)))"

text \<open>The attributes of the debug record that \<open>logJSONRPCError\<close> writes, if it writes one.\<close>

definition logJSONRPCError :: "gomap \<Rightarrow> (rat \<times> string) option" where
  "logJSONRPCError msg = (case as_map (map_index msg ''error'') of
     None \<Rightarrow> None
   | Some errObj \<Rightarrow>
       Some (case as_float (map_index errObj ''code'') of None \<Rightarrow> 0 | Some f \<Rightarrow> f,
             case as_string (map_index errObj ''message'') of None \<Rightarrow> [] | Some m \<Rightarrow> m))"

definition cleanupConnectionSubscriptions :: "ConnState \<Rightarrow> WebSocketProxy \<Rightarrow> ConnState \<times> WebSocketProxy" where
  "cleanupConnectionSubscriptions c p =
    (if length (cs_subscriptions c) = 0 then (c, p)
     else (c\<lparr>cs_subscriptions := []\<rparr>,
           p\<lparr>wp_subscriptions := filter (\<lambda>s. s \<notin> set (cs_subscriptions c)) (wp_subscriptions p)\<rparr>))"

section \<open>One proxied connection\<close>

datatype direction = ClientToTarget | TargetToClient

record upstreamCloseInfo =
  uc_err :: goerr
  uc_isGracefulClose :: bool

text \<open>
  What the goroutines of a connection see: a message that was read and forwarded, a read error, an
  error while forwarding, a failed ping.
\<close>

datatype pipe_event =
    Message direction string
  | ReadError direction goerr
  | ForwardError direction goerr
  | PingError goerr

text \<open>The part of \<open>pipe\<close> after a message has been forwarded.\<close>

definition pipe_message ::
  "direction \<Rightarrow> string \<Rightarrow> ConnState \<Rightarrow> WebSocketProxy \<Rightarrow> string + ConnState \<times> WebSocketProxy" where
  "pipe_message dir msgBytes c p = (case dir of
     ClientToTarget \<Rightarrow> trackSubscriptionFromMessage msgBytes c p
   | TargetToClient \<Rightarrow>
       (case unmarshal_map msgBytes of
          None \<Rightarrow> Inr (c, p)
        | Some msg \<Rightarrow> trackSubscriptionResponse msg c p))"

text \<open>\<open>isCloseError err codes\<close> is \<open>websocket.IsCloseError(err, codes...)\<close>.\<close>

definition pipe_read_error :: "(goerr \<Rightarrow> int list \<Rightarrow> bool) \<Rightarrow> direction \<Rightarrow> goerr \<Rightarrow> upstreamCloseInfo" where
  "pipe_read_error isCloseError dir err =
    \<lparr>uc_err = err, uc_isGracefulClose = (dir = TargetToClient \<and> isCloseError err [])\<rparr>"

text \<open>
  The first error ends the connection: \<open>closeAll\<close> cleans up, sends a close frame to the client when
  the upstream closed gracefully, and closes both connections.
\<close>

datatype session_end =
    Running nat ConnState WebSocketProxy
  | Crashed string
  | Terminated upstreamCloseInfo bool WebSocketProxy

definition closeAll :: "upstreamCloseInfo \<Rightarrow> nat \<Rightarrow> ConnState \<Rightarrow> WebSocketProxy \<Rightarrow> session_end" where
  "closeAll info targetConn c p =
    (let (c1, p1) = cleanupConnectionSubscriptions c p;
         closeFrame = uc_isGracefulClose info
     in Terminated info closeFrame (log_wire (ClosedConn targetConn) p1))"

fun serve_session ::
  "(goerr \<Rightarrow> int list \<Rightarrow> bool) \<Rightarrow> nat \<Rightarrow> pipe_event list \<Rightarrow> ConnState \<Rightarrow> WebSocketProxy \<Rightarrow> session_end" where
  "serve_session isCloseError conn [] c p = Running conn c p"
| "serve_session isCloseError conn (Message dir bs # es) c p =
     (case pipe_message dir bs c p of
        Inl panic \<Rightarrow> Crashed panic
      | Inr (c1, p1) \<Rightarrow> serve_session isCloseError conn es c1 p1)"
| "serve_session isCloseError conn (ReadError dir err # es) c p =
     closeAll (pipe_read_error isCloseError dir err) conn c p"
| "serve_session isCloseError conn (ForwardError dir err # es) c p =
     closeAll \<lparr>uc_err = err, uc_isGracefulClose = False\<rparr> conn c p"
| "serve_session isCloseError conn (PingError err # es) c p =
     closeAll \<lparr>uc_err = err, uc_isGracefulClose = False\<rparr> conn c p"

datatype ws_served = UpgradeFailed goerr | NoTarget WebSocketProxy | Served session_end

text \<open>
  \<open>ServeHTTP\<close>: \<open>upgrade\<close> is the outcome of the protocol upgrade and \<open>es\<close> what then happens on the
  two connections.
\<close>

definition ws_ServeHTTP ::
  "(goerr \<Rightarrow> int list \<Rightarrow> bool) \<Rightarrow> ws_env \<Rightarrow> goerr option \<Rightarrow> pipe_event list \<Rightarrow> WebSocketProxy \<Rightarrow> ws_served" where
  "ws_ServeHTTP isCloseError env upgrade es p = (case upgrade of
     Some err \<Rightarrow> UpgradeFailed err
   | None \<Rightarrow> (case createNewConnection env p of
       (None, p1) \<Rightarrow> NoTarget p1
     | (Some targetConn, p1) \<Rightarrow> Served (serve_session isCloseError targetConn es new_conn p1)))"

section \<open>Facts about the operations\<close>

lemma log_wire_simps [world_simps]:
  "wp_subscriptions (log_wire e p) = wp_subscriptions p"
  "wp_connPool (log_wire e p) = wp_connPool p"
  "wp_targetURL (log_wire e p) = wp_targetURL p"
  "wp_wire (log_wire e p) = wp_wire p @ [e]"
  by (simp_all add: log_wire_def)

lemma createNewConnection_simps [world_simps]:
  "wp_subscriptions (snd (createNewConnection env p)) = wp_subscriptions p"
  "wp_connPool (snd (createNewConnection env p)) = wp_connPool p"
  "fst (createNewConnection env p) = we_dial env (wp_targetURL p)"
  by (simp_all add: createNewConnection_def world_simps split: option.split)

lemma getConnection_subs [world_simps]:
  "wp_subscriptions (snd (getConnection env p)) = wp_subscriptions p"
  by (auto simp: getConnection_def world_simps Let_def split: option.split)

lemma getConnection_pool: "length (wp_connPool (snd (getConnection env p))) \<le> length (wp_connPool p)"
  by (auto simp: getConnection_def world_simps Let_def split: option.split dest: try_recv_length)

lemma returnConnection_subs [world_simps]:
  "wp_subscriptions (returnConnection c p) = wp_subscriptions p"
  by (simp add: returnConnection_def world_simps split: option.split prod.split)

lemma returnConnection_pool:
  "length (wp_connPool p) \<le> pool_size \<Longrightarrow> length (wp_connPool (returnConnection c p)) \<le> pool_size"
  by (auto simp: returnConnection_def try_send_def world_simps Let_def split: option.splits)

lemma send_unsubscribes_simps [world_simps]:
  "wp_subscriptions (send_unsubscribes env conn ids p) = wp_subscriptions p"
  "wp_connPool (send_unsubscribes env conn ids p) = wp_connPool p"
  by (induction ids arbitrary: p) (simp_all add: world_simps Let_def)

lemma send_unsubscribes_wire [world_simps]:
  "wp_wire (send_unsubscribes env conn ids p) =
     wp_wire p @ map (\<lambda>i. Sent conn (unsubscribe_message i) (we_write env conn (unsubscribe_message i))) ids"
  by (induction ids arbitrary: p) (simp_all add: world_simps Let_def)

lemma UnsubscribeAll_pool:
  assumes "length (wp_connPool p) \<le> pool_size"
  shows "length (wp_connPool (UnsubscribeAll env p)) \<le> pool_size"
proof (cases "getConnection env p")
  case (Pair c p1)
  have "length (wp_connPool p1) \<le> pool_size" using getConnection_pool [of env p] assms Pair by simp
  with assms Pair show ?thesis
    by (auto simp: UnsubscribeAll_def Let_def world_simps split: option.splits
        intro!: returnConnection_pool)
qed

lemma UnsubscribeAll_clears:
  "getConnection env p = (Some conn, p1) \<Longrightarrow> wp_subscriptions (UnsubscribeAll env p) = []"
  using getConnection_subs [of env p] by (simp add: UnsubscribeAll_def Let_def world_simps)

text \<open>What tracking may change: identifiers leave both maps together and enter both together.\<close>

definition tracks :: "ConnState \<Rightarrow> WebSocketProxy \<Rightarrow> ConnState \<Rightarrow> WebSocketProxy \<Rightarrow> bool" where
  "tracks c p c' p' \<longleftrightarrow> wp_connPool p' = wp_connPool p \<and> wp_wire p' = wp_wire p \<and>
     (\<exists>add del. set (cs_subscriptions c') = set (cs_subscriptions c) \<union> add - del \<and>
       set (wp_subscriptions p') = set (wp_subscriptions p) \<union> add - del)"

lemma tracks_same: "set (cs_subscriptions c') = set (cs_subscriptions c) \<Longrightarrow> tracks c p c' p"
  unfolding tracks_def by (intro conjI exI [of _ "{}"]) auto

lemma tracks_insert:
  "cs_subscriptions c1 = cs_subscriptions c \<Longrightarrow>
   tracks c p (c1\<lparr>cs_subscriptions := List.insert s (cs_subscriptions c)\<rparr>) (TrackSubscription s p)"
  unfolding tracks_def TrackSubscription_def
  by (intro conjI exI [of _ "{s}"] exI [of _ "{}"]) auto

lemma note_subscribe_subs: "note_subscribe method msg c = Inr c' \<Longrightarrow> cs_subscriptions c' = cs_subscriptions c"
  by (auto simp: note_subscribe_def split: if_splits option.splits)

lemma note_unsubscribe_tracks: "note_unsubscribe method msg c p = (c', p') \<Longrightarrow> tracks c p c' p'"
proof -
  have "tracks c p (c\<lparr>cs_subscriptions := removeAll s (cs_subscriptions c)\<rparr>) (RemoveSubscription s p)" for s
    unfolding tracks_def RemoveSubscription_def
    by (intro conjI exI [of _ "{}"] exI [of _ "{s}"]) auto
  moreover assume "note_unsubscribe method msg c p = (c', p')"
  ultimately show ?thesis
    by (auto simp: note_unsubscribe_def tracks_same split: if_splits option.splits list.splits goany.splits)
qed

lemma tracks_cong: "cs_subscriptions c1 = cs_subscriptions c \<Longrightarrow> tracks c1 p c' p' \<Longrightarrow> tracks c p c' p'"
  by (simp add: tracks_def)

lemma trackSubscriptionResponse_tracks:
  "trackSubscriptionResponse msg c p = Inr (c', p') \<Longrightarrow> tracks c p c' p'"
  using tracks_insert [of "c\<lparr>cs_pending := _\<rparr>" c]
  by (auto simp: trackSubscriptionResponse_def Let_def intro: tracks_same
      split: option.splits goany.splits if_splits)

lemma trackSubscriptionFromMessage_tracks:
  assumes "trackSubscriptionFromMessage bs c p = Inr (c', p')"
  shows "tracks c p c' p'"
proof (cases "c' = c \<and> p' = p")
  case True
  then show ?thesis by (simp add: tracks_same)
next
  case False
  with assms obtain meth msg c1 where "note_subscribe meth msg c = Inr c1"
    "note_unsubscribe meth msg c1 p = (c', p')"
    by (auto simp: trackSubscriptionFromMessage_def split: option.splits sum.splits)
  then show ?thesis by (meson note_subscribe_subs note_unsubscribe_tracks tracks_cong)
qed

lemma pipe_message_tracks: "pipe_message dir bs c p = Inr (c', p') \<Longrightarrow> tracks c p c' p'"
  by (auto simp: pipe_message_def intro: tracks_same trackSubscriptionFromMessage_tracks
      trackSubscriptionResponse_tracks split: direction.splits option.splits)

section \<open>All connections of a proxy\<close>

text \<open>
  The proxy with its connections: a new connection, a forwarded message on one of them, the end of
  one, and \<open>UnsubscribeAll\<close> before a taint. The end of a connection is the cleanup of \<open>closeAll\<close>;
  a pipe that has already read a message may still handle it afterwards (\<open>late\<close>).
\<close>

record ws_session =
  se_conn :: ConnState
  se_closed :: bool

type_synonym ws_sys = "WebSocketProxy \<times> ws_session list"

inductive ws_step :: "bool \<Rightarrow> ws_sys \<Rightarrow> ws_sys \<Rightarrow> bool" for late :: bool where
  connects: "ws_step late (p, ss) (p, ss @ [\<lparr>se_conn = new_conn, se_closed = False\<rparr>])"
| forwards: "i < length ss \<Longrightarrow> \<not> se_closed (ss ! i) \<Longrightarrow>
     pipe_message dir bs (se_conn (ss ! i)) p = Inr (c, p') \<Longrightarrow>
     ws_step late (p, ss) (p', ss[i := (ss ! i)\<lparr>se_conn := c\<rparr>])"
| forwards_late: "late \<Longrightarrow> i < length ss \<Longrightarrow> se_closed (ss ! i) \<Longrightarrow>
     pipe_message dir bs (se_conn (ss ! i)) p = Inr (c, p') \<Longrightarrow>
     ws_step late (p, ss) (p', ss[i := (ss ! i)\<lparr>se_conn := c\<rparr>])"
| closes: "i < length ss \<Longrightarrow> \<not> se_closed (ss ! i) \<Longrightarrow>
     cleanupConnectionSubscriptions (se_conn (ss ! i)) p = (c, p') \<Longrightarrow>
     ws_step late (p, ss) (p', ss[i := \<lparr>se_conn = c, se_closed = True\<rparr>])"
| unsubscribes: "ws_step late (p, ss) (UnsubscribeAll env p, ss)"

definition ws_init :: "ws_sys \<Rightarrow> bool" where
  "ws_init = (\<lambda>(p, ss). wp_subscriptions p = [] \<and> wp_connPool p = [] \<and> ss = [])"

definition live_subs :: "ws_session list \<Rightarrow> string set" where
  "live_subs ss = (\<Union>s \<in> {s \<in> set ss. \<not> se_closed s}. set (cs_subscriptions (se_conn s)))"

definition ws_inv :: "ws_sys \<Rightarrow> bool" where
  "ws_inv = (\<lambda>(p, ss). set (wp_subscriptions p) \<subseteq> live_subs ss)"

definition pool_inv :: "ws_sys \<Rightarrow> bool" where
  "pool_inv = (\<lambda>(p, ss). length (wp_connPool p) \<le> pool_size)"

lemma live_subs_iff:
  "x \<in> live_subs ss \<longleftrightarrow> (\<exists>i < length ss. \<not> se_closed (ss ! i) \<and> x \<in> set (cs_subscriptions (se_conn (ss ! i))))"
  by (auto simp: live_subs_def in_set_conv_nth)

lemma live_subs_other:
  assumes "x \<in> live_subs ss" and "x \<notin> set (cs_subscriptions (se_conn (ss ! i)))"
  shows "x \<in> live_subs (ss[i := s])"
proof -
  obtain j where j: "j < length ss" "\<not> se_closed (ss ! j)" "x \<in> set (cs_subscriptions (se_conn (ss ! j)))"
    using assms(1) live_subs_iff by blast
  with assms(2) have "j \<noteq> i" by blast
  with j show ?thesis unfolding live_subs_iff by (intro exI [of _ j]) simp
qed

lemma live_subs_append [simp]: "live_subs (ss @ [s]) = live_subs ss \<union> live_subs [s]"
  by (auto simp: live_subs_def)

lemma UnsubscribeAll_subs: "set (wp_subscriptions (UnsubscribeAll env p)) \<subseteq> set (wp_subscriptions p)"
proof (cases "getConnection env p")
  case (Pair c p1)
  then have "wp_subscriptions p1 = wp_subscriptions p" using getConnection_subs [of env p] by simp
  with Pair show ?thesis by (auto simp: UnsubscribeAll_def Let_def world_simps split: option.splits)
qed

lemma cleanup_subs:
  "cleanupConnectionSubscriptions c p = (c', p') \<Longrightarrow>
   set (wp_subscriptions p') = set (wp_subscriptions p) - set (cs_subscriptions c) \<and>
   cs_subscriptions c' = [] \<and> wp_connPool p' = wp_connPool p"
  by (auto simp: cleanupConnectionSubscriptions_def split: if_splits)

lemma ws_step_inv: "ws_step False s s' \<Longrightarrow> ws_inv s \<Longrightarrow> ws_inv s'"
proof (induction rule: ws_step.induct)
  case (connects p ss)
  then show ?case by (auto simp: ws_inv_def)
next
  case (forwards i ss dir bs p c p')
  from pipe_message_tracks [OF forwards(3)] obtain add del where
    c: "set (cs_subscriptions c) = set (cs_subscriptions (se_conn (ss ! i))) \<union> add - del"
    and p: "set (wp_subscriptions p') = set (wp_subscriptions p) \<union> add - del"
    unfolding tracks_def by blast
  have "x \<in> live_subs (ss[i := (ss ! i)\<lparr>se_conn := c\<rparr>])" if "x \<in> set (wp_subscriptions p')" for x
  proof (cases "x \<in> set (cs_subscriptions c)")
    case True
    with forwards(1,2) show ?thesis by (auto simp: live_subs_iff)
  next
    case False
    with c p that have "x \<in> set (wp_subscriptions p)" "x \<notin> set (cs_subscriptions (se_conn (ss ! i)))"
      by blast+
    with forwards.prems have "x \<in> live_subs ss" by (auto simp: ws_inv_def)
    then show ?thesis
      using \<open>x \<notin> set (cs_subscriptions (se_conn (ss ! i)))\<close> by (rule live_subs_other)
  qed
  then show ?case by (auto simp: ws_inv_def)
next
  case (closes i ss p c p')
  note cl = cleanup_subs [OF closes(3)]
  have "x \<in> live_subs (ss[i := \<lparr>se_conn = c, se_closed = True\<rparr>])" if "x \<in> set (wp_subscriptions p')" for x
  proof -
    from that cl closes.prems have "x \<in> live_subs ss" "x \<notin> set (cs_subscriptions (se_conn (ss ! i)))"
      by (auto simp: ws_inv_def)
    then show ?thesis by (rule live_subs_other)
  qed
  then show ?case by (auto simp: ws_inv_def)
next
  case (unsubscribes p ss env)
  then show ?case using UnsubscribeAll_subs [of env p] by (auto simp: ws_inv_def)
qed simp

lemma pool_step_inv: "ws_step late s s' \<Longrightarrow> pool_inv s \<Longrightarrow> pool_inv s'"
  by (induction rule: ws_step.induct)
     (auto simp: pool_inv_def tracks_def UnsubscribeAll_pool dest: pipe_message_tracks cleanup_subs)

interpretation ws_tracking: invariant_of "ws_step False" ws_inv ws_init
proof (unfold_locales, goal_cases)
  case (1 s t)
  then show ?case using ws_step_inv by blast
qed (auto simp: ws_inv_def ws_init_def)

interpretation ws_pool: invariant_of "ws_step late" pool_inv ws_init for late
proof (unfold_locales, goal_cases)
  case (1 s t)
  then show ?case using pool_step_inv by blast
qed (auto simp: pool_inv_def ws_init_def)

section \<open>Properties\<close>

text \<open>
  No leak: in every run whose pipes stop before the cleanup, a tracked subscription belongs to
  an open connection, so a proxy without open connections tracks none.
\<close>

theorem tracked_subscriptions_are_live:
  assumes "reach ws_init (ws_step False) (p, ss)"
  shows "set (wp_subscriptions p) \<subseteq> live_subs ss"
  using ws_tracking.always [OF assms] by (simp add: ws_inv_def)

abbreviation subscribe_msg :: string where
  "subscribe_msg \<equiv> ''{\"id\":\"1\",\"method\":\"eth_subscribe\"}''"

abbreviation subscribed_msg :: string where
  "subscribed_msg \<equiv> ''{\"id\":\"1\",\"result\":\"0xa\"}''"

definition pending_conn :: ConnState where
  "pending_conn = \<lparr>cs_subscriptions = [], cs_pending = [GStr ''1'']\<rparr>"

definition subscribed_conn :: ConnState where
  "subscribed_conn = \<lparr>cs_subscriptions = [''0xa''], cs_pending = []\<rparr>"

lemma subscribe_msg_map:
  "\<exists>m. unmarshal_map subscribe_msg = Some m \<and> m ''id'' = Some (GStr ''1'') \<and>
     map_index m ''method'' = GStr ''eth_subscribe''"
proof -
  have "json_unmarshal subscribe_msg = Some (JObj [(''id'', JStr ''1''), (''method'', JStr ''eth_subscribe'')])"
    by code_simp
  then show ?thesis by (simp add: unmarshal_map_def any_map_def gomap_of_def map_index_def)
qed

lemma subscribed_msg_map:
  "\<exists>m. unmarshal_map subscribed_msg = Some m \<and> m ''id'' = Some (GStr ''1'') \<and> m ''result'' = Some (GStr ''0xa'')"
proof -
  have "json_unmarshal subscribed_msg = Some (JObj [(''id'', JStr ''1''), (''result'', JStr ''0xa'')])"
    by code_simp
  then show ?thesis by (simp add: unmarshal_map_def any_map_def gomap_of_def)
qed

lemma subscribe_msg_step: "pipe_message ClientToTarget subscribe_msg new_conn p = Inr (pending_conn, p)"
  using subscribe_msg_map
  by (auto simp: pipe_message_def trackSubscriptionFromMessage_def note_subscribe_def note_unsubscribe_def
      as_string_def new_conn_def pending_conn_def List.insert_def)

lemma subscribed_msg_step:
  "pipe_message TargetToClient subscribed_msg pending_conn p = Inr (subscribed_conn, TrackSubscription ''0xa'' p)"
  using subscribed_msg_map
  by (auto simp: pipe_message_def trackSubscriptionResponse_def pending_conn_def subscribed_conn_def
      List.insert_def Let_def)

text \<open>A run: one client connects, subscribes, and gets its subscription identifier.\<close>

definition sample_ws :: WebSocketProxy where
  "sample_ws = NewWebSocketProxy ''wss://a'' second"

lemma sample_ws_pending:
  "reach ws_init (ws_step late) (sample_ws, [\<lparr>se_conn = pending_conn, se_closed = False\<rparr>])"
proof -
  have "reach ws_init (ws_step late) (sample_ws, [])"
    by (rule reach_init) (simp add: ws_init_def sample_ws_def NewWebSocketProxy_def)
  then have "reach ws_init (ws_step late) (sample_ws, [] @ [\<lparr>se_conn = new_conn, se_closed = False\<rparr>])"
    by (rule reach_step) (rule ws_step.connects)
  from reach_step [OF this ws_step.forwards [of 0 _ ClientToTarget subscribe_msg]]
  show ?thesis by (simp add: subscribe_msg_step)
qed

lemma sample_ws_tracked:
  "reach ws_init (ws_step late)
    (TrackSubscription ''0xa'' sample_ws, [\<lparr>se_conn = subscribed_conn, se_closed = False\<rparr>])"
  using reach_step [OF sample_ws_pending ws_step.forwards [of 0 _ TargetToClient subscribed_msg]]
  by (simp add: subscribed_msg_step)

theorem tracked_subscriptions_are_live_witness:
  "''0xa'' \<in> set (wp_subscriptions (TrackSubscription ''0xa'' sample_ws)) \<and>
   set (wp_subscriptions (TrackSubscription ''0xa'' sample_ws))
     \<subseteq> live_subs [\<lparr>se_conn = subscribed_conn, se_closed = False\<rparr>]"
proof
  show "set (wp_subscriptions (TrackSubscription ''0xa'' sample_ws))
      \<subseteq> live_subs [\<lparr>se_conn = subscribed_conn, se_closed = False\<rparr>]"
    by (rule tracked_subscriptions_are_live [OF sample_ws_tracked])
qed (simp add: TrackSubscription_def)

text \<open>
  C40. The race with the cleanup leaks: when a pipe handles a message that it read before the
  connection was cleaned up, the proxy keeps a subscription that no open connection has.
\<close>

theorem late_message_leaks:
  "\<exists>p ss. reach ws_init (ws_step True) (p, ss) \<and> live_subs ss = {} \<and> wp_subscriptions p \<noteq> []"
proof -
  have "cleanupConnectionSubscriptions pending_conn sample_ws = (pending_conn, sample_ws)"
    by (simp add: cleanupConnectionSubscriptions_def pending_conn_def)
  with reach_step [OF sample_ws_pending ws_step.closes [of 0]]
  have "reach ws_init (ws_step True) (sample_ws, [\<lparr>se_conn = pending_conn, se_closed = True\<rparr>])"
    by simp
  from reach_step [OF this ws_step.forwards_late [of True 0 _ TargetToClient subscribed_msg]]
  have "reach ws_init (ws_step True)
      (TrackSubscription ''0xa'' sample_ws, [\<lparr>se_conn = subscribed_conn, se_closed = True\<rparr>])"
    by (simp add: subscribed_msg_step)
  then show ?thesis
    by (intro exI conjI, assumption) (auto simp: live_subs_def TrackSubscription_def List.insert_def)
qed

text \<open>The connection pool never holds more connections than its channel has room for.\<close>

theorem pool_is_bounded:
  assumes "reach ws_init (ws_step late) (p, ss)"
  shows "length (wp_connPool p) \<le> 5"
  using ws_pool.always [OF assms] by (simp add: pool_inv_def)

theorem pool_is_bounded_witness:
  "wp_connPool (UnsubscribeAll \<lparr>we_dial = (\<lambda>u. Some 7), we_ping = (\<lambda>c. True), we_write = (\<lambda>c m. True)\<rparr>
     (TrackSubscription ''0xa'' sample_ws)) = [7] \<and>
   length (wp_connPool (UnsubscribeAll \<lparr>we_dial = (\<lambda>u. Some 7), we_ping = (\<lambda>c. True), we_write = (\<lambda>c m. True)\<rparr>
     (TrackSubscription ''0xa'' sample_ws))) \<le> 5"
proof
  show "length (wp_connPool (UnsubscribeAll \<lparr>we_dial = (\<lambda>u. Some 7), we_ping = (\<lambda>c. True), we_write = (\<lambda>c m. True)\<rparr>
     (TrackSubscription ''0xa'' sample_ws))) \<le> 5"
    by (rule pool_is_bounded [OF reach_step [OF sample_ws_tracked [of False] ws_step.unsubscribes]])
qed (simp add: UnsubscribeAll_def TrackSubscription_def sample_ws_def NewWebSocketProxy_def getConnection_def
    try_recv_def createNewConnection_def returnConnection_def try_send_def log_wire_def Let_def)

text \<open>
  C24. \<open>UnsubscribeAll\<close>: without a connection the tracked subscriptions stay as they are; with one,
  none is left, and each got exactly one unsubscribe message on that connection.
\<close>

theorem UnsubscribeAll_correct:
  "(case getConnection env p of
      (None, p1) \<Rightarrow> wp_subscriptions (UnsubscribeAll env p) = wp_subscriptions p
    | (Some conn, p1) \<Rightarrow>
        wp_subscriptions (UnsubscribeAll env p) = [] \<and>
        (wp_subscriptions p = [] \<or>
         take (length (wp_subscriptions p)) (drop (length (wp_wire p1)) (wp_wire (UnsubscribeAll env p))) =
           map (\<lambda>i. Sent conn (unsubscribe_message i) (we_write env conn (unsubscribe_message i)))
             (wp_subscriptions p)))"
proof (cases "getConnection env p")
  case (Pair c p1)
  have subs: "wp_subscriptions p1 = wp_subscriptions p" using getConnection_subs [of env p] Pair by simp
  have wire: "\<exists>t. wp_wire (returnConnection (Some conn) q) = wp_wire q @ t" for conn q
    by (auto simp: returnConnection_def world_simps Let_def split: prod.splits)
  show ?thesis
  proof (cases c)
    case None
    with Pair subs show ?thesis by (simp add: UnsubscribeAll_def Let_def)
  next
    case (Some conn)
    let ?q = "send_unsubscribes env conn (wp_subscriptions p) (p1\<lparr>wp_subscriptions := []\<rparr>)"
    obtain t where "wp_wire (returnConnection (Some conn) ?q) = wp_wire ?q @ t" using wire by blast
    with Pair Some show ?thesis by (auto simp: UnsubscribeAll_def Let_def world_simps)
  qed
qed

text \<open>
  C39. A message crashes the gateway exactly when its identifier is an array or an object and it is
  an answer from the upstream or a request of the client to subscribe.
\<close>

theorem pipe_panics_iff:
  "pipe_message dir bs c p = Inl e \<longleftrightarrow>
    e = unhashable_panic \<and>
    (\<exists>msg i. unmarshal_map bs = Some msg \<and> msg ''id'' = Some i \<and> i \<in> range GArr \<union> range GObj \<and>
       (dir = TargetToClient \<or> map_index msg ''method'' \<in>
          {GStr ''eth_subscribe'', GStr ''shh_subscribe'', GStr ''net_subscribe''}))"
proof -
  have hash: "i \<in> range GArr \<union> range GObj \<longleftrightarrow> \<not> hashable i" for i
    by (cases i) auto
  have str: "as_string v = None \<longleftrightarrow> (\<forall>t. v \<noteq> GStr t)" "as_string v = Some t \<longleftrightarrow> v = GStr t" for v t
    by (cases v; simp add: as_string_def)+
  have nsub: "note_subscribe m msg c = Inl e \<longleftrightarrow> e = unhashable_panic \<and>
      m \<in> {''eth_subscribe'', ''shh_subscribe'', ''net_subscribe''} \<and>
      (\<exists>i. msg ''id'' = Some i \<and> i \<in> range GArr \<union> range GObj)" for m msg
    unfolding hash by (auto simp: note_subscribe_def split: option.splits)
  show ?thesis
  proof (cases dir)
    case ClientToTarget
    have "trackSubscriptionFromMessage bs c p = Inl e \<longleftrightarrow>
        (\<exists>msg m. unmarshal_map bs = Some msg \<and> map_index msg ''method'' = GStr m \<and>
           note_subscribe m msg c = Inl e)"
      by (auto simp: trackSubscriptionFromMessage_def str split: option.splits sum.splits)
    with ClientToTarget show ?thesis unfolding nsub by (auto simp: pipe_message_def)
  next
    case TargetToClient
    have "trackSubscriptionResponse msg c p = Inl e \<longleftrightarrow> e = unhashable_panic \<and>
        (\<exists>i. msg ''id'' = Some i \<and> i \<in> range GArr \<union> range GObj)" for msg
      unfolding hash
      by (auto simp: trackSubscriptionResponse_def Let_def split: option.splits goany.splits)
    with TargetToClient show ?thesis by (auto simp: pipe_message_def split: option.splits)
  qed
qed

text \<open>The events of a connection can be taken one at a time.\<close>

lemma serve_session_append:
  "serve_session ic conn (es @ es') c p = (case serve_session ic conn es c p of
     Running conn' c1 p1 \<Rightarrow> serve_session ic conn es' c1 p1
   | Crashed e \<Rightarrow> Crashed e
   | Terminated info f q \<Rightarrow> Terminated info f q)"
  by (induction ic conn es c p rule: serve_session.induct) (auto simp: closeAll_def split: sum.split prod.split)

lemma serve_session_Cons:
  "serve_session ic conn (e # es) c p = (case serve_session ic conn [e] c p of
     Running conn' c1 p1 \<Rightarrow> serve_session ic conn es c1 p1
   | Crashed e \<Rightarrow> Crashed e
   | Terminated info f q \<Rightarrow> Terminated info f q)"
  using serve_session_append [of ic conn "[e]" es c p] by simp

lemma serve_session_conn: "serve_session ic conn es c p = Running conn' c' p' \<Longrightarrow> conn' = conn"
  by (induction ic conn es c p rule: serve_session.induct) (auto simp: closeAll_def split: sum.splits prod.splits)

lemma serve_session_tracked:
  "serve_session ic conn es c p = Terminated info f p' \<Longrightarrow>
   set (wp_subscriptions p) \<subseteq> S \<union> set (cs_subscriptions c) \<Longrightarrow>
   set (wp_subscriptions p') \<subseteq> S"
proof (induction ic conn es c p rule: serve_session.induct)
  case (2 ic conn dir bs es c p)
  then obtain c1 p1 where m: "pipe_message dir bs c p = Inr (c1, p1)"
    by (auto split: sum.splits)
  from pipe_message_tracks [OF m] obtain add del where
    "set (cs_subscriptions c1) = set (cs_subscriptions c) \<union> add - del"
    "set (wp_subscriptions p1) = set (wp_subscriptions p) \<union> add - del"
    unfolding tracks_def by blast
  with "2.prems"(2) have "set (wp_subscriptions p1) \<subseteq> S \<union> set (cs_subscriptions c1)" by blast
  with 2 m show ?case by auto
qed (auto simp: closeAll_def cleanupConnectionSubscriptions_def world_simps split: if_splits)

lemma serve_session_wire:
  "serve_session ic conn es c p = Terminated info f p' \<Longrightarrow>
   wp_wire p' = wp_wire p @ [ClosedConn conn] \<and> wp_connPool p' = wp_connPool p"
proof (induction ic conn es c p rule: serve_session.induct)
  case (2 ic conn dir bs es c p)
  then obtain c1 p1 where m: "pipe_message dir bs c p = Inr (c1, p1)"
    by (auto split: sum.splits)
  with 2 pipe_message_tracks [OF m] show ?case by (auto simp: tracks_def)
qed (auto simp: closeAll_def cleanupConnectionSubscriptions_def world_simps split: if_splits)

text \<open>
  A proxied connection that ends leaves nothing behind: it tracked no subscription beyond
  those tracked before it, its dedicated upstream connection was dialled and is closed, and the pool is
  untouched.
\<close>

theorem ended_session_leaves_nothing:
  assumes "ws_ServeHTTP isCloseError env upgrade es p = Served (Terminated info f p')"
  shows "set (wp_subscriptions p') \<subseteq> set (wp_subscriptions p) \<and> wp_connPool p' = wp_connPool p \<and>
    (\<exists>conn. we_dial env (wp_targetURL p) = Some conn \<and>
       wp_wire p' = wp_wire p @ [Dialed conn, ClosedConn conn])"
proof -
  obtain conn where dial: "we_dial env (wp_targetURL p) = Some conn"
    and s: "serve_session isCloseError conn es new_conn (log_wire (Dialed conn) p) = Terminated info f p'"
    using assms by (auto simp: ws_ServeHTTP_def createNewConnection_def split: option.splits)
  have "set (wp_subscriptions p') \<subseteq> set (wp_subscriptions p)"
    using serve_session_tracked [OF s, of "set (wp_subscriptions p)"] by (simp add: world_simps)
  with dial serve_session_wire [OF s] show ?thesis by (simp add: world_simps)
qed

text \<open>A client that subscribes, is answered, and goes away.\<close>

definition sample_events :: "pipe_event list" where
  "sample_events = [Message ClientToTarget subscribe_msg, Message TargetToClient subscribed_msg,
     ReadError ClientToTarget (CloseError 1001 [])]"

definition sample_ws_env :: ws_env where
  "sample_ws_env = \<lparr>we_dial = (\<lambda>u. Some 7), we_ping = (\<lambda>c. True), we_write = (\<lambda>c m. True)\<rparr>"

lemma sample_session:
  "ws_ServeHTTP ic sample_ws_env None sample_events sample_ws =
     Served (Terminated \<lparr>uc_err = CloseError 1001 [], uc_isGracefulClose = False\<rparr> False
       (sample_ws\<lparr>wp_wire := [Dialed 7, ClosedConn 7]\<rparr>))"
  by (simp add: ws_ServeHTTP_def createNewConnection_def sample_ws_env_def sample_events_def
      subscribe_msg_step subscribed_msg_step pipe_read_error_def closeAll_def TrackSubscription_def
      cleanupConnectionSubscriptions_def subscribed_conn_def log_wire_def sample_ws_def
      NewWebSocketProxy_def List.insert_def)

theorem ended_session_leaves_nothing_witness:
  "ws_ServeHTTP (\<lambda>e cs. False) sample_ws_env None sample_events sample_ws =
     Served (Terminated \<lparr>uc_err = CloseError 1001 [], uc_isGracefulClose = False\<rparr> False
       (sample_ws\<lparr>wp_wire := [Dialed 7, ClosedConn 7]\<rparr>)) \<and>
   set (wp_subscriptions (sample_ws\<lparr>wp_wire := [Dialed 7, ClosedConn 7]\<rparr>)) \<subseteq>
     set (wp_subscriptions sample_ws)"
  using sample_session ended_session_leaves_nothing [OF sample_session] by blast

lemma serve_session_frame:
  "serve_session ic conn es c p = Terminated info f p' \<Longrightarrow> (\<And>err. \<not> ic err []) \<Longrightarrow>
   \<not> f \<and> \<not> uc_isGracefulClose info"
proof (induction ic conn es c p rule: serve_session.induct)
  case (2 ic conn dir bs es c p)
  then obtain c1 p1 where "pipe_message dir bs c p = Inr (c1, p1)"
    by (auto split: sum.splits)
  with 2 show ?case by auto
qed (auto simp: closeAll_def pipe_read_error_def split: prod.splits)

text \<open>
  The close frame that should tell the client of a graceful close of the upstream is never
  sent: \<open>websocket.IsCloseError\<close> is true only of a close error with one of the codes it is given,
  and the code gives it none.
\<close>

theorem graceful_close_never_forwarded:
  assumes isCloseError: "\<And>err codes. isCloseError err codes \<Longrightarrow> \<exists>c t. err = CloseError c t \<and> c \<in> set codes"
    and "ws_ServeHTTP isCloseError env upgrade es p = Served (Terminated info f p')"
  shows "\<not> f \<and> \<not> uc_isGracefulClose info"
proof -
  have never: "\<not> isCloseError err []" for err using isCloseError by fastforce
  from assms(2) show ?thesis
    by (auto simp: ws_ServeHTTP_def split: option.splits prod.splits
        dest!: serve_session_frame [where ic = isCloseError] simp: never)
qed

definition gorilla_isCloseError :: "goerr \<Rightarrow> int list \<Rightarrow> bool" where
  "gorilla_isCloseError err codes = (case err of CloseError c t \<Rightarrow> c \<in> set codes | _ \<Rightarrow> False)"

theorem graceful_close_never_forwarded_witness:
  "ws_ServeHTTP gorilla_isCloseError sample_ws_env None [ReadError TargetToClient (CloseError 1000 [])]
     sample_ws = Served (Terminated \<lparr>uc_err = CloseError 1000 [], uc_isGracefulClose = False\<rparr> False
       (sample_ws\<lparr>wp_wire := [Dialed 7, ClosedConn 7]\<rparr>)) \<and> \<not> False"
proof -
  have s: "ws_ServeHTTP gorilla_isCloseError sample_ws_env None [ReadError TargetToClient (CloseError 1000 [])]
     sample_ws = Served (Terminated \<lparr>uc_err = CloseError 1000 [], uc_isGracefulClose = False\<rparr> False
       (sample_ws\<lparr>wp_wire := [Dialed 7, ClosedConn 7]\<rparr>))"
    by (simp add: ws_ServeHTTP_def createNewConnection_def sample_ws_env_def pipe_read_error_def
        closeAll_def cleanupConnectionSubscriptions_def new_conn_def log_wire_def sample_ws_def
        NewWebSocketProxy_def gorilla_isCloseError_def)
  have "\<not> False \<and> \<not> uc_isGracefulClose \<lparr>uc_err = CloseError 1000 [], uc_isGracefulClose = False\<rparr>"
  proof (rule graceful_close_never_forwarded [OF _ s])
    fix err codes
    assume "gorilla_isCloseError err codes"
    then show "\<exists>c t. err = CloseError c t \<and> c \<in> set codes"
      by (auto simp: gorilla_isCloseError_def split: goerr.splits)
  qed
  with s show ?thesis by blast
qed

end
