(* ===== verification/World.thy ===== *)
theory World
  imports HealthCheck WebSocket
begin

text \<open>
  The objects of the gateway that components share through pointers: health checkers, websocket
  proxies and HTTP clients. Here is \<open>Taint\<close> of \<open>internal/proxy/healthchecker.go\<close> as a whole: its
  guard, the callback before tainting, which reaches a websocket proxy, and the new taint state.
\<close>

record World =
  w_checkers :: "HealthChecker list"
  w_wsProxies :: "WebSocketProxy list"
  w_http :: HttpWorld

abbreviation checker :: "World \<Rightarrow> nat \<Rightarrow> HealthChecker" where
  "checker w h \<equiv> w_checkers w ! h"

definition upd_checker :: "nat \<Rightarrow> (HealthChecker \<Rightarrow> HealthChecker) \<Rightarrow> World \<Rightarrow> World" where
  "upd_checker h f w = w\<lparr>w_checkers := upd_at h f (w_checkers w)\<rparr>"

definition upd_ws :: "nat \<Rightarrow> (WebSocketProxy \<Rightarrow> WebSocketProxy) \<Rightarrow> World \<Rightarrow> World" where
  "upd_ws p f w = w\<lparr>w_wsProxies := upd_at p f (w_wsProxies w)\<rparr>"

text \<open>The callback is called for websocket checkers only, and only by the first taint.\<close>

definition before_taint :: "ws_env \<Rightarrow> nat \<Rightarrow> World \<Rightarrow> World" where
  "before_taint env h w =
    (if hcf_ConnectionType (h_config (checker w h)) = ''websocket'' then
       (case h_onBeforeTaint (checker w h) of
          Some wsProxy \<Rightarrow> upd_ws wsProxy (UnsubscribeAll env) w
        | None \<Rightarrow> w)
     else w)"

definition Taint :: "ws_env \<Rightarrow> gotime \<Rightarrow> TaintConfig \<Rightarrow> nat \<Rightarrow> World \<Rightarrow> World" where
  "Taint env now cfg h w =
    (if h_isTainted (checker w h) then w
     else upd_checker h (mark_tainted cfg now) (before_taint env h w))"

definition TaintHTTP :: "ws_env \<Rightarrow> gotime \<Rightarrow> nat \<Rightarrow> World \<Rightarrow> World" where
  "TaintHTTP env now h w = Taint env now httpTaintConfig h w"

definition TaintHealthCheck :: "ws_env \<Rightarrow> gotime \<Rightarrow> string list \<Rightarrow> nat \<Rightarrow> World \<Rightarrow> World" where
  "TaintHealthCheck env now detail h w = Taint env now (health_check_config detail) h w"

section \<open>Frame facts\<close>

lemma upd_checker_simps [world_simps]:
  "w_wsProxies (upd_checker h f w) = w_wsProxies w"
  "w_http (upd_checker h f w) = w_http w"
  "length (w_checkers (upd_checker h f w)) = length (w_checkers w)"
  "h < length (w_checkers w) \<Longrightarrow> checker (upd_checker h f w) h = f (checker w h)"
  "h \<noteq> k \<Longrightarrow> checker (upd_checker h f w) k = checker w k"
  by (simp_all add: upd_checker_def)

lemma upd_ws_simps [world_simps]:
  "w_checkers (upd_ws p g w) = w_checkers w"
  "w_http (upd_ws p g w) = w_http w"
  "length (w_wsProxies (upd_ws p g w)) = length (w_wsProxies w)"
  by (simp_all add: upd_ws_def)

lemma before_taint_simps [world_simps]:
  "w_checkers (before_taint env h w) = w_checkers w"
  "w_http (before_taint env h w) = w_http w"
  "length (w_wsProxies (before_taint env h w)) = length (w_wsProxies w)"
  by (simp_all add: before_taint_def world_simps split: option.split)

lemma mark_tainted_simps [world_simps]:
  "h_isTainted (mark_tainted cfg now h)"
  "h_config (mark_tainted cfg now h) = h_config h"
  "h_blockNumber (mark_tainted cfg now h) = h_blockNumber h"
  "h_httpClient (mark_tainted cfg now h) = h_httpClient h"
  "h_onBeforeTaint (mark_tainted cfg now h) = h_onBeforeTaint h"
  "h_onBlockNumberUpdate (mark_tainted cfg now h) = h_onBlockNumberUpdate h"
  "h_ethCallCheckCounter (mark_tainted cfg now h) = h_ethCallCheckCounter h"
  by (simp_all add: mark_tainted_def Let_def)

lemma Taint_tainted [simp]: "h_isTainted (checker w h) \<Longrightarrow> Taint env now cfg h w = w"
  by (simp add: Taint_def)

lemma Taint_length [simp]:
  "length (w_checkers (Taint env now cfg h w)) = length (w_checkers w)"
  "length (w_wsProxies (Taint env now cfg h w)) = length (w_wsProxies w)"
  by (simp_all add: Taint_def world_simps)

lemma Taint_http [simp]: "w_http (Taint env now cfg h w) = w_http w"
  by (simp add: Taint_def world_simps)

lemma Taint_other: "k \<noteq> h \<Longrightarrow> checker (Taint env now cfg h w) k = checker w k"
  by (simp add: Taint_def world_simps)

lemma Taint_self:
  "h < length (w_checkers w) \<Longrightarrow> checker (Taint env now cfg h w) h = taint_checker cfg now (checker w h)"
  by (simp add: Taint_def taint_checker_def world_simps)

lemma Taint_marks: "h < length (w_checkers w) \<Longrightarrow> h_isTainted (checker (Taint env now cfg h w) h)"
  by (simp add: Taint_self taint_checker_def world_simps)

lemma Taint_frame:
  assumes "\<And>c. f (mark_tainted cfg now c) = f c"
  shows "f (checker (Taint env now cfg h w) k) = f (checker w k)"
  using assms
  by (cases "k = h"; cases "h < length (w_checkers w)")
     (simp_all add: Taint_self Taint_other taint_checker_def,
      simp add: Taint_def upd_checker_def upd_at_def world_simps)

lemma Taint_frames [world_simps]:
  "h_config (checker (Taint env now cfg h w) k) = h_config (checker w k)"
  "h_blockNumber (checker (Taint env now cfg h w) k) = h_blockNumber (checker w k)"
  "h_onBeforeTaint (checker (Taint env now cfg h w) k) = h_onBeforeTaint (checker w k)"
  "h_onBlockNumberUpdate (checker (Taint env now cfg h w) k) = h_onBlockNumberUpdate (checker w k)"
  "h_ethCallCheckCounter (checker (Taint env now cfg h w) k) = h_ethCallCheckCounter (checker w k)"
  by (rule Taint_frame, simp add: world_simps)+

text \<open>
  One taint counts: while a checker is tainted, a second taint with any configuration changes
  nothing, neither its backoff nor, by a second unsubscribing, its websocket proxy.
\<close>

lemma taint_is_idempotent:
  assumes "h < length (w_checkers w)"
  shows "Taint env' now' cfg' h (Taint env now cfg h w) = Taint env now cfg h w"
  using Taint_marks [OF assms] by simp

definition sample_world :: World where
  "sample_world = \<lparr>w_checkers = [SetBeforeTaintCallback 0 (probe_checker ''evm'' ''websocket'')],
     w_wsProxies = [TrackSubscription ''0xa'' sample_ws], w_http = init_http\<rparr>"

lemma Taint_wsProxies:
  "w_wsProxies (Taint env now cfg h w) =
    (if h_isTainted (checker w h) then w_wsProxies w else w_wsProxies (before_taint env h w))"
  by (simp add: Taint_def world_simps)



end
