(* ===== verification/Manager.thy ===== *)
theory Manager
  imports World
begin

text \<open>
  \<open>internal/proxy/healthcheckmanager.go\<close>, and the operations of a health checker that run a health
  check (\<open>CheckAndSetHealth\<close> in \<open>internal/proxy/healthchecker.go\<close>): they end in the manager's
  callback, which compares the block numbers of all checkers of the path.
\<close>

section \<open>Building the checkers\<close>

record HealthCheckManager =
  hcm_config :: HealthCheckConfig
  hcm_targets :: "NodeProviderConfig list"
  hcm_checkers :: "nat list"
  hcm_path :: string
  hcm_initialDelay :: duration
  hcm_checkerMap :: "string \<Rightarrow> nat option"

definition checker_key :: "string \<Rightarrow> string \<Rightarrow> string" where
  "checker_key name connectionType = name @ '':'' @ connectionType"

definition path_delay :: "int \<Rightarrow> duration" where
  "path_delay pathIndex = wrap64 (wrap64 (pathIndex * 1000) * millisecond)"

definition connections :: "NodeProviderConfig \<Rightarrow> (string \<times> string) list" where
  "connections target = [(target_http_url target, ''http''), (target_ws_url target, ''websocket'')]"

definition checker_config :: "Config \<Rightarrow> duration \<Rightarrow> NodeProviderConfig \<Rightarrow> string \<times> string \<Rightarrow> HealthCheckerConfig" where
  "checker_config cfg delay target conn =
    \<lparr>hcf_URL = fst conn, hcf_Name = npc_Name target, hcf_Interval = hcc_Interval (cfg_HealthChecks cfg),
     hcf_Timeout = cfg_Timeout cfg, hcf_Path = cfg_Path cfg, hcf_ChainType = cfg_ChainType cfg,
     hcf_ConnectionType = snd conn, hcf_BlockDiffThreshold = hcc_BlockDiffThreshold (cfg_HealthChecks cfg),
     hcf_Headers = target_headers target,
     hcf_InitialDelay = (if snd conn = ''websocket'' then wrap64 (delay + 500 * millisecond) else delay)\<rparr>"

type_synonym hcm_state = "HealthCheckManager \<times> World"

text \<open>The body of the inner loop. \<open>NewHealthChecker\<close> never fails.\<close>

definition add_checker :: "Config \<Rightarrow> NodeProviderConfig \<Rightarrow> string \<times> string \<Rightarrow> hcm_state \<Rightarrow> hcm_state" where
  "add_checker cfg target conn = (\<lambda>(hcm, w).
    if fst conn = [] then (hcm, w)
    else
      (let (c, hw) = NewHealthChecker (checker_config cfg (hcm_initialDelay hcm) target conn) (w_http w);
           c1 = SetBlockNumberUpdateCallback (npc_Name target) c;
           p = length (w_checkers w)
       in (hcm\<lparr>hcm_checkers := hcm_checkers hcm @ [p],
               hcm_checkerMap := (hcm_checkerMap hcm)(checker_key (npc_Name target) (snd conn) \<mapsto> p)\<rparr>,
           w\<lparr>w_checkers := w_checkers w @ [c1], w_http := hw\<rparr>)))"

definition NewHealthCheckManager :: "Config \<Rightarrow> World \<Rightarrow> hcm_state" where
  "NewHealthCheckManager cfg w =
    fold (\<lambda>target. fold (add_checker cfg target) (connections target)) (cfg_Targets cfg)
      (\<lparr>hcm_config = cfg_HealthChecks cfg, hcm_targets = cfg_Targets cfg, hcm_checkers = [],
        hcm_path = cfg_Path cfg, hcm_initialDelay = path_delay (cfg_PathIndex cfg),
        hcm_checkerMap = Map.empty\<rparr>, w)"

definition GetHealthChecker :: "HealthCheckManager \<Rightarrow> string \<Rightarrow> string \<Rightarrow> nat option" where
  "GetHealthChecker hcm name connectionType = hcm_checkerMap hcm (checker_key name connectionType)"

text \<open>The map of websocket proxies by name is given in its iteration order.\<close>

fun SetWebSocketProxyReferences :: "(string \<times> nat) list \<Rightarrow> HealthCheckManager \<Rightarrow> World \<Rightarrow> World" where
  "SetWebSocketProxyReferences [] hcm w = w"
| "SetWebSocketProxyReferences ((name, wsProxy) # wsProxies) hcm w =
     SetWebSocketProxyReferences wsProxies hcm
       (case hcm_checkerMap hcm (name @ '':websocket'') of
          Some c \<Rightarrow> upd_checker c (SetBeforeTaintCallback wsProxy) w
        | None \<Rightarrow> w)"

text \<open>\<open>Stop\<close> wakes every checker, in order.\<close>

definition manager_Stop :: "HealthCheckManager \<Rightarrow> World \<Rightarrow> World" where
  "manager_Stop hcm w = fold (\<lambda>c. upd_checker c Stop) (hcm_checkers hcm) w"

section \<open>Block lag\<close>

text \<open>One pass: the largest block number, and the last checker with the name.\<close>

definition lag_scan :: "string \<Rightarrow> World \<Rightarrow> nat list \<Rightarrow> u64 \<times> nat option" where
  "lag_scan name w cs =
    fold (\<lambda>c (maxBlock, target).
      (if BlockNumber (checker w c) > maxBlock then BlockNumber (checker w c) else maxBlock,
       if Name (checker w c) = name then Some c else target)) cs (0, None)"

definition lag_detail :: "u64 \<Rightarrow> u64 \<Rightarrow> u64 \<Rightarrow> string" where
  "lag_detail block maxBlock threshold =
     ''block lag: block='' @ show_nat (unat block) @ '' max='' @ show_nat (unat maxBlock)
       @ '' threshold='' @ show_nat (unat threshold)"

definition checkBlockLagAndTaint ::
  "ws_env \<Rightarrow> gotime \<Rightarrow> HealthCheckManager \<Rightarrow> string \<Rightarrow> u64 \<Rightarrow> World \<Rightarrow> World" where
  "checkBlockLagAndTaint env now hcm updatedRPCName updatedBlockNumber w =
    (let (maxBlock, targetChecker) = lag_scan updatedRPCName w (hcm_checkers hcm);
         threshold = hcc_BlockDiffThreshold (hcm_config hcm)
     in if maxBlock > updatedBlockNumber + threshold then
          (case targetChecker of
             Some c \<Rightarrow> TaintHealthCheck env now [lag_detail updatedBlockNumber maxBlock threshold] c w
           | None \<Rightarrow> w)
        else w)"

section \<open>A health check\<close>

definition checkAndSetBlockNumberHealth ::
  "probe_env \<Rightarrow> ws_env \<Rightarrow> gotime \<Rightarrow> HealthCheckManager \<Rightarrow> nat \<Rightarrow> World \<Rightarrow> World" where
  "checkAndSetBlockNumberHealth penv env now hcm h w =
    (case checkBlockNumber penv (checker w h) of
       Inl err \<Rightarrow> TaintHealthCheck env now [''eth_blockNumber: '' @ err_text err] h w
     | Inr blockNumber \<Rightarrow>
         (let w1 = upd_checker h (\<lambda>c. c\<lparr>h_blockNumber := blockNumber\<rparr>) w in
          case h_onBlockNumberUpdate (checker w1 h) of
            Some name \<Rightarrow> checkBlockLagAndTaint env now hcm name blockNumber w1
          | None \<Rightarrow> w1))"

definition checkAndSetEthCallHealth ::
  "probe_env \<Rightarrow> ws_env \<Rightarrow> gotime \<Rightarrow> nat \<Rightarrow> World \<Rightarrow> World" where
  "checkAndSetEthCallHealth penv env now h w =
    (if hcf_ChainType (h_config (checker w h)) \<noteq> ''evm'' then w
     else
       (let counter = h_ethCallCheckCounter (checker w h) + 1;
            w1 = upd_checker h (\<lambda>c. c\<lparr>h_ethCallCheckCounter := counter\<rparr>) w
        in if counter mod 2 \<noteq> 0 then w1
           else (case checkEthCall penv (checker w1 h) of
             Some err \<Rightarrow> TaintHealthCheck env now [''eth_call sha256: '' @ err_text err] h w1
           | None \<Rightarrow> w1)))"

definition CheckAndSetHealth ::
  "probe_env \<Rightarrow> ws_env \<Rightarrow> gotime \<Rightarrow> HealthCheckManager \<Rightarrow> nat \<Rightarrow> World \<Rightarrow> World" where
  "CheckAndSetHealth penv env now hcm h w =
    (if IsTainted (checker w h) then w
     else
       (let w1 = checkAndSetBlockNumberHealth penv env now hcm h w in
        if \<not> IsTainted (checker w1 h) then checkAndSetEthCallHealth penv env now h w1 else w1))"

section \<open>Which checkers a manager has\<close>

lemma split_at_last_colon:
  "n @ CHR '':'' # a = m @ CHR '':'' # b \<Longrightarrow> CHR '':'' \<notin> set a \<Longrightarrow> CHR '':'' \<notin> set b \<Longrightarrow> n = m \<and> a = b"
proof (induction n arbitrary: m)
  case Nil
  then show ?case by (cases m) (auto simp: append_eq_Cons_conv)
next
  case (Cons c n)
  then show ?case by (cases m) (auto simp: append_eq_Cons_conv)
qed

lemma checker_key_inject:
  "c \<in> set (connections t) \<Longrightarrow> d \<in> set (connections u) \<Longrightarrow>
   checker_key n (snd c) = checker_key m (snd d) \<longleftrightarrow> n = m \<and> snd c = snd d"
  using split_at_last_colon [of n "snd c" m "snd d"]
  by (auto simp: checker_key_def connections_def)

text \<open>The connections of a target that are configured, and those of all targets, in order.\<close>

definition live :: "NodeProviderConfig \<Rightarrow> (NodeProviderConfig \<times> string \<times> string) list" where
  "live t = map (Pair t) (filter (\<lambda>c. fst c \<noteq> []) (connections t))"

definition live_all :: "Config \<Rightarrow> (NodeProviderConfig \<times> string \<times> string) list" where
  "live_all cfg = concat (map live (cfg_Targets cfg))"

definition conn_key :: "NodeProviderConfig \<times> string \<times> string \<Rightarrow> string" where
  "conn_key tc = checker_key (npc_Name (fst tc)) (snd (snd tc))"

text \<open>
  What the loops have built for the connections \<open>F\<close>, starting at the pointer \<open>L\<close>: one checker per
  connection, found under its key.
\<close>

definition fresh_checker :: "Config \<Rightarrow> NodeProviderConfig \<times> string \<times> string \<Rightarrow> HealthChecker \<Rightarrow> bool" where
  "fresh_checker cfg tc h \<longleftrightarrow>
     hcf_Name (h_config h) = npc_Name (fst tc) \<and> hcf_URL (h_config h) = fst (snd tc) \<and>
     hcf_ConnectionType (h_config h) = cmp_or (snd (snd tc)) ''http'' \<and>
     hcf_ChainType (h_config h) = cmp_or (cfg_ChainType cfg) ''evm'' \<and>
     hcf_Headers (h_config h) = target_headers (fst tc) \<and>
     h_onBlockNumberUpdate h = Some (npc_Name (fst tc)) \<and> h_onBeforeTaint h = None \<and> \<not> h_isTainted h \<and>
     h_blockNumber h = 0 \<and> h_ethCallCheckCounter h = 0"

definition built ::
  "Config \<Rightarrow> nat \<Rightarrow> (NodeProviderConfig \<times> string \<times> string) list \<Rightarrow> hcm_state \<Rightarrow> bool" where
  "built cfg L F = (\<lambda>(hcm, w).
     hcm_checkers hcm = [L..<L + length F] \<and> length (w_checkers w) = L + length F \<and>
     (\<forall>i < length F. fresh_checker cfg (F ! i) (checker w (L + i))) \<and>
     hcm_checkerMap hcm = map_of (rev (zip (map conn_key F) [L..<L + length F])))"

lemma add_checker_built:
  assumes "built cfg L F s"
  shows "built cfg L (F @ map (Pair t) (filter (\<lambda>c. fst c \<noteq> []) [c])) (add_checker cfg t c s)"
proof (cases "fst c = []")
  case True
  with assms show ?thesis by (cases s) (simp add: add_checker_def)
next
  case False
  obtain hcm w where s: "s = (hcm, w)" by (cases s)
  obtain h hw where h: "NewHealthChecker (checker_config cfg (hcm_initialDelay hcm) t c) (w_http w) = (h, hw)"
    by (cases "NewHealthChecker (checker_config cfg (hcm_initialDelay hcm) t c) (w_http w)")
  then have fresh: "fresh_checker cfg (t, c) (SetBlockNumberUpdateCallback (npc_Name t) h)"
    by (auto simp: NewHealthChecker_def checker_config_def fresh_checker_def
        SetBlockNumberUpdateCallback_def Let_def split: prod.splits)
  from assms False fresh show ?thesis
    by (auto simp: s built_def add_checker_def h nth_append less_Suc_eq conn_key_def Let_def)
qed

lemma add_checkers_built:
  "built cfg L F s \<Longrightarrow>
   built cfg L (F @ map (Pair t) (filter (\<lambda>c. fst c \<noteq> []) cs)) (fold (add_checker cfg t) cs s)"
proof (induction cs arbitrary: F s)
  case (Cons c cs)
  from Cons.IH [OF add_checker_built [OF Cons.prems, of t c]] show ?case by (cases "fst c = []") simp_all
qed simp

lemma NewHealthCheckManager_built:
  "built cfg (length (w_checkers w)) (live_all cfg) (NewHealthCheckManager cfg w)"
proof -
  have "built cfg L (F @ concat (map live ts))
      (fold (\<lambda>t. fold (add_checker cfg t) (connections t)) ts s)" if "built cfg L F s" for L F ts s
    using that
  proof (induction ts arbitrary: F s)
    case (Cons t ts)
    from Cons.IH [OF add_checkers_built [OF Cons.prems, of t "connections t"]] show ?case
      by (simp add: live_def)
  qed simp
  from this [of _ "[]"] show ?thesis
    by (simp add: NewHealthCheckManager_def live_all_def built_def)
qed

lemma live_all_iff:
  "tc \<in> set (live_all cfg) \<longleftrightarrow>
   fst tc \<in> set (cfg_Targets cfg) \<and> snd tc \<in> set (connections (fst tc)) \<and> fst (snd tc) \<noteq> []"
  by (cases tc) (auto simp: live_all_def live_def image_iff)

lemma live_all_keys_distinct:
  assumes "distinct (map npc_Name (cfg_Targets cfg))"
  shows "distinct (map conn_key (live_all cfg))"
proof -
  have "distinct (map conn_key (concat (map live ts)))" if "distinct (map npc_Name ts)" for ts
    using that
  proof (induction ts)
    case (Cons t ts)
    have "conn_key x \<noteq> conn_key y" if "x \<in> set (live t)" "y \<in> set (live u)" "u \<in> set ts" for x y u
      using that Cons.prems checker_key_inject [of "snd x" t "snd y" u]
      by (auto simp: live_def conn_key_def)
    moreover have "distinct (map conn_key (live t))"
      using checker_key_inject [of _ t _ t] by (simp add: live_def connections_def conn_key_def checker_key_def)
    ultimately show ?case using Cons by (fastforce simp: image_iff)
  qed simp
  with assms show ?thesis by (simp add: live_all_def)
qed

lemma built_lookup:
  assumes "built cfg L F (hcm, w)" and "distinct (map conn_key F)" and "i < length F"
  shows "hcm_checkerMap hcm (conn_key (F ! i)) = Some (L + i)"
proof -
  let ?z = "zip (map conn_key F) [L..<L + length F]"
  have "distinct (map fst ?z)" using assms(2) by simp
  then have "distinct (map fst (rev ?z))" by (simp only: rev_map [symmetric] distinct_rev)
  moreover have "(conn_key (F ! i), L + i) \<in> set (rev ?z)"
    using assms(3) by (auto simp: set_zip intro!: exI [of _ i])
  ultimately have "map_of (rev ?z) (conn_key (F ! i)) = Some (L + i)" by (rule map_of_is_SomeI)
  with assms(1) show ?thesis by (simp add: built_def)
qed

lemma built_lookup_None:
  "built cfg L F (hcm, w) \<Longrightarrow> k \<notin> conn_key ` set F \<Longrightarrow> hcm_checkerMap hcm k = None"
  by (auto simp: built_def map_of_eq_None_iff image_iff dest: set_zip_leftD)

lemma manager_lookup:
  assumes "NewHealthCheckManager cfg w = (hcm, w')" and "distinct (map npc_Name (cfg_Targets cfg))"
    and "i < length (live_all cfg)" and "live_all cfg ! i = (t, c)"
  shows "GetHealthChecker hcm (npc_Name t) (snd c) = Some (length (w_checkers w) + i)"
  using built_lookup [OF NewHealthCheckManager_built [of cfg w, unfolded assms(1)]
      live_all_keys_distinct [OF assms(2)] assms(3)] assms(4)
  by (simp add: GetHealthChecker_def conn_key_def)

text \<open>
  With distinct provider names, the manager finds for every provider and connection type exactly
  the checker that was made for it (with the provider's URL and headers, healthy, and reporting
  blocks under the provider's name), and none when the connection is not configured.
\<close>

lemma manager_finds_checkers:
  assumes "NewHealthCheckManager cfg w = (hcm, w')" and "distinct (map npc_Name (cfg_Targets cfg))"
    and "t \<in> set (cfg_Targets cfg)" and "c \<in> set (connections t)"
  shows "if fst c = [] then GetHealthChecker hcm (npc_Name t) (snd c) = None
    else \<exists>p \<in> set (hcm_checkers hcm). GetHealthChecker hcm (npc_Name t) (snd c) = Some p \<and>
      length (w_checkers w) \<le> p \<and> p < length (w_checkers w') \<and> fresh_checker cfg (t, c) (checker w' p)"
proof (cases "fst c = []")
  case True
  note b = NewHealthCheckManager_built [of cfg w, unfolded assms(1)]
  have "checker_key (npc_Name t) (snd c) \<notin> conn_key ` set (live_all cfg)"
  proof
    assume "checker_key (npc_Name t) (snd c) \<in> conn_key ` set (live_all cfg)"
    then obtain u d where u: "(u, d) \<in> set (live_all cfg)"
      and "checker_key (npc_Name t) (snd c) = checker_key (npc_Name u) (snd d)"
      by (auto simp: conn_key_def)
    moreover from u have d: "u \<in> set (cfg_Targets cfg)" "d \<in> set (connections u)" "fst d \<noteq> []"
      by (simp_all add: live_all_iff)
    ultimately have "npc_Name t = npc_Name u" "snd c = snd d"
      using checker_key_inject [OF assms(4) d(2)] by blast+
    moreover from this(1) have "t = u" using assms(2,3) d(1) by (simp add: distinct_map inj_on_def)
    ultimately have "c = d" using assms(4) d(2) by (auto simp: connections_def)
    with True d(3) show False by simp
  qed
  from built_lookup_None [OF b this] True show ?thesis by (simp add: GetHealthChecker_def)
next
  case False
  with assms(3,4) have "(t, c) \<in> set (live_all cfg)" by (simp add: live_all_iff)
  then obtain i where i: "i < length (live_all cfg)" "live_all cfg ! i = (t, c)"
    by (auto simp: in_set_conv_nth)
  from manager_lookup [OF assms(1,2) i] NewHealthCheckManager_built [of cfg w] assms(1) i False
  show ?thesis by (auto simp: built_def)
qed

definition sample_config :: Config where
  "sample_config = \<lparr>cfg_Path = ''eth'', cfg_ChainType = [], cfg_Timeout = second,
     cfg_HealthChecks = \<lparr>hcc_Interval = 5 * second, hcc_BlockDiffThreshold = 2\<rparr>,
     cfg_Targets = [mk_target ''a'' ''https://a'' [] ''wss://a'', mk_target ''b'' ''https://b'' [] []],
     cfg_PathIndex = 0, cfg_MetricsEnabled = False\<rparr>"

definition empty_world :: World where
  "empty_world = \<lparr>w_checkers = [], w_wsProxies = [], w_http = init_http\<rparr>"

definition sample_manager :: HealthCheckManager where
  "sample_manager = fst (NewHealthCheckManager sample_config empty_world)"

definition sample_manager_world :: World where
  "sample_manager_world = snd (NewHealthCheckManager sample_config empty_world)"

lemma sample_manager_eq:
  "NewHealthCheckManager sample_config empty_world = (sample_manager, sample_manager_world)"
  by (simp add: sample_manager_def sample_manager_world_def)

lemma sample_config_distinct: "distinct (map npc_Name (cfg_Targets sample_config))"
  by (simp add: sample_config_def mk_target_def)

section \<open>Block lag\<close>

lemma lag_scan_max: "m < fst (lag_scan name w cs) \<longleftrightarrow> (\<exists>c \<in> set cs. m < BlockNumber (checker w c))"
proof (induction cs rule: rev_induct)
  case Nil
  then show ?case by (simp add: lag_scan_def)
next
  case (snoc c cs)
  then show ?case by (auto simp: lag_scan_def split: prod.splits)
qed

definition checker_named :: "HealthCheckManager \<Rightarrow> string \<Rightarrow> World \<Rightarrow> nat option" where
  "checker_named hcm name w = List.find (\<lambda>c. Name (checker w c) = name) (rev (hcm_checkers hcm))"

lemma lag_scan_target: "snd (lag_scan name w cs) = List.find (\<lambda>c. Name (checker w c) = name) (rev cs)"
  by (induction cs rule: rev_induct) (auto simp: lag_scan_def split: prod.splits)

definition lagging :: "HealthCheckManager \<Rightarrow> u64 \<Rightarrow> World \<Rightarrow> bool" where
  "lagging hcm n w \<longleftrightarrow>
     (\<exists>c \<in> set (hcm_checkers hcm).
        unat n + unat (hcc_BlockDiffThreshold (hcm_config hcm)) < unat (BlockNumber (checker w c)))"

abbreviation no_overflow :: "HealthCheckManager \<Rightarrow> u64 \<Rightarrow> bool" where
  "no_overflow hcm n \<equiv> unat n + unat (hcc_BlockDiffThreshold (hcm_config hcm)) < 2 ^ 64"

lemma lag_test_iff:
  assumes "no_overflow hcm n"
  shows "fst (lag_scan name w (hcm_checkers hcm)) > n + hcc_BlockDiffThreshold (hcm_config hcm)
    \<longleftrightarrow> lagging hcm n w"
proof -
  have "unat (n + hcc_BlockDiffThreshold (hcm_config hcm)) =
      unat n + unat (hcc_BlockDiffThreshold (hcm_config hcm))"
    using assms by (simp add: unat_word_ariths)
  then show ?thesis unfolding lag_scan_max unfolding lagging_def word_less_nat_alt by simp
qed

text \<open>
  C17. Block lag, while the sum does not overflow: an update taints exactly when some checker of the path has
  a block number that exceeds the reported one by more than the threshold, and it taints the last
  checker with the reporting provider's name, if there is one.
\<close>

theorem block_lag_taints_iff:
  assumes "unat n + unat (hcc_BlockDiffThreshold (hcm_config hcm)) < 2 ^ 64"
  shows "if lagging hcm n w
    then (case checker_named hcm name w of
            None \<Rightarrow> checkBlockLagAndTaint env now hcm name n w = w
          | Some c \<Rightarrow> \<exists>detail. checkBlockLagAndTaint env now hcm name n w = TaintHealthCheck env now detail c w)
    else checkBlockLagAndTaint env now hcm name n w = w"
  using lag_test_iff [OF assms, of name w] lag_scan_target [of name w "hcm_checkers hcm"]
  by (auto simp: checkBlockLagAndTaint_def checker_named_def Let_def split: prod.splits option.splits)

lemma sample_manager_built: "built sample_config 0 (live_all sample_config) (sample_manager, sample_manager_world)"
  using NewHealthCheckManager_built [of sample_config empty_world]
  by (simp add: sample_manager_eq) (simp add: empty_world_def)

lemma sample_live:
  "live_all sample_config =
    [(mk_target ''a'' ''https://a'' [] ''wss://a'', ''https://a'', ''http''),
     (mk_target ''a'' ''https://a'' [] ''wss://a'', ''wss://a'', ''websocket''),
     (mk_target ''b'' ''https://b'' [] [], ''https://b'', ''http'')]"
  by (simp add: live_all_def live_def connections_def sample_config_def mk_target_def)

lemma sample_manager_checkers [simp]: "hcm_checkers sample_manager = [0, 1, 2]"
  using sample_manager_built by (simp add: built_def sample_live upt_conv_Cons)

lemma NewHealthCheckManager_config [simp]: "hcm_config (fst (NewHealthCheckManager cfg w)) = cfg_HealthChecks cfg"
proof -
  have add: "hcm_config (fst (add_checker cfg t c s)) = hcm_config (fst s)" for t c s
    by (simp add: add_checker_def Let_def split: prod.split)
  have adds: "hcm_config (fst (fold (add_checker cfg t) cs s)) = hcm_config (fst s)" for t cs s
    by (induction cs arbitrary: s) (simp_all add: add)
  have "hcm_config (fst (fold (\<lambda>t. fold (add_checker cfg t) (connections t)) ts s)) = hcm_config (fst s)" for ts s
    by (induction ts arbitrary: s) (simp_all add: adds)
  then show ?thesis by (simp add: NewHealthCheckManager_def)
qed

lemma sample_manager_threshold [simp]: "hcc_BlockDiffThreshold (hcm_config sample_manager) = 2"
  by (simp add: sample_manager_def) (simp add: sample_config_def)

lemma all_less_Suc: "(\<forall>i < Suc n. P i) \<longleftrightarrow> P n \<and> (\<forall>i < n. P i)"
  by (auto simp: less_Suc_eq)

lemma sample_manager_fresh:
  "length (w_checkers sample_manager_world) = 3"
  "fresh_checker sample_config (live_all sample_config ! 0) (checker sample_manager_world 0)"
  "fresh_checker sample_config (live_all sample_config ! 1) (checker sample_manager_world 1)"
  "fresh_checker sample_config (live_all sample_config ! 2) (checker sample_manager_world 2)"
  using sample_manager_built by (simp_all add: built_def sample_live all_less_Suc numeral_2_eq_2)

definition lag_world :: World where
  "lag_world = upd_checker 2 (\<lambda>c. c\<lparr>h_blockNumber := 10\<rparr>) sample_manager_world"

lemma lag_world_lags: "lagging sample_manager 5 lag_world"
  by (auto simp: lagging_def lag_world_def world_simps sample_manager_fresh BlockNumber_def)

lemma lag_world_configs: "map h_config (w_checkers lag_world) = map h_config (w_checkers sample_manager_world)"
  by (simp add: lag_world_def upd_checker_def map_upd_at)

lemma lag_world_config: "h_config (checker lag_world k) = h_config (checker sample_manager_world k)"
  by (cases "k = 2") (simp_all add: lag_world_def world_simps sample_manager_fresh)

lemma sample_names:
  "Name (checker sample_manager_world 0) = ''a''"
  "Name (checker sample_manager_world (Suc 0)) = ''a''"
  "Name (checker sample_manager_world 2) = ''b''"
  using sample_manager_fresh by (simp_all add: fresh_checker_def Name_def sample_live mk_target_def numeral_2_eq_2)

theorem block_lag_taints_iff_witness:
  "\<exists>detail. checkBlockLagAndTaint sample_ws_env 0 sample_manager ''a'' 5 lag_world = TaintHealthCheck sample_ws_env 0 detail 1 lag_world"
proof -
  have "checker_named sample_manager ''a'' lag_world = Some 1"
    using sample_names by (simp add: checker_named_def Name_def lag_world_config)
  with block_lag_taints_iff [where n = 5 and hcm = sample_manager and w = lag_world and name = "''a''"
      and env = sample_ws_env and now = 0] lag_world_lags show ?thesis
    by (simp add: lagging_def)
qed

lemma find_rev_upt:
  "a \<le> m \<Longrightarrow> m < b \<Longrightarrow> P m \<Longrightarrow> (\<And>j. m < j \<Longrightarrow> j < b \<Longrightarrow> \<not> P j) \<Longrightarrow> List.find P (rev [a..<b]) = Some m"
proof (induction b)
  case (Suc b)
  then show ?case by (cases "m = b") (auto simp: less_Suc_eq)
qed simp

text \<open>In a manager's list the websocket checker of a provider is the last one with its name.\<close>

lemma last_named_is_websocket:
  assumes m: "NewHealthCheckManager cfg w = (hcm, w')" and d: "distinct (map npc_Name (cfg_Targets cfg))"
    and t: "t \<in> set (cfg_Targets cfg)" "target_http_url t \<noteq> []" "target_ws_url t \<noteq> []"
    and same: "map h_config (w_checkers w2) = map h_config (w_checkers w')"
  obtains p q where "GetHealthChecker hcm (npc_Name t) ''http'' = Some p"
    "GetHealthChecker hcm (npc_Name t) ''websocket'' = Some q" "p \<noteq> q" "q < length (w_checkers w2)"
    "checker_named hcm (npc_Name t) w2 = Some q"
proof -
  let ?L = "length (w_checkers w)" and ?F = "live_all cfg"
  obtain T1 T2 where T: "cfg_Targets cfg = T1 @ t # T2" using t(1) by (auto dest: split_list)
  let ?n = "length (concat (map live T1))"
  have F: "?F = concat (map live T1) @ [(t, target_http_url t, ''http''), (t, target_ws_url t, ''websocket'')]
      @ concat (map live T2)"
    using t(2,3) by (simp add: live_all_def T live_def connections_def)
  note b = NewHealthCheckManager_built [of cfg w, unfolded m]
  have name: "Name (checker w2 (?L + j)) = npc_Name (fst (?F ! j))" if "j < length ?F" for j
  proof -
    from b that have "?L + j < length (w_checkers w')" "fresh_checker cfg (?F ! j) (checker w' (?L + j))"
      by (auto simp: built_def)
    moreover from same have "h_config (checker w2 (?L + j)) = h_config (checker w' (?L + j))"
      using \<open>?L + j < length (w_checkers w')\<close> by (metis length_map nth_map)
    ultimately show ?thesis by (simp add: Name_def fresh_checker_def)
  qed
  have later: "npc_Name (fst (?F ! j)) \<noteq> npc_Name t" if "?n + 1 < j" "j < length ?F" for j
  proof -
    from that have "?F ! j = concat (map live T2) ! (j - (?n + 2))"
      "j - (?n + 2) < length (concat (map live T2))"
      by (auto simp: F nth_append nth_Cons')
    then have "?F ! j \<in> set (concat (map live T2))" by (metis nth_mem)
    then have "fst (?F ! j) \<in> set T2" by (auto simp: live_def)
    with d show ?thesis by (auto simp: T image_iff)
  qed
  have "checker_named hcm (npc_Name t) w2 = Some (?L + (?n + 1))"
    unfolding checker_named_def
  proof -
    have "hcm_checkers hcm = [?L..<?L + length ?F]" using b by (simp add: built_def)
    moreover have "List.find (\<lambda>c. Name (checker w2 c) = npc_Name t) (rev [?L..<?L + length ?F]) =
        Some (?L + (?n + 1))"
    proof (rule find_rev_upt)
      show "Name (checker w2 (?L + (?n + 1))) = npc_Name t"
        using name [of "?n + 1"] by (simp add: F nth_append)
      show "Name (checker w2 j) \<noteq> npc_Name t" if "?L + (?n + 1) < j" "j < ?L + length ?F" for j
        using name [of "j - ?L"] later [of "j - ?L"] that by simp
    qed (simp_all add: F)
    ultimately show "List.find (\<lambda>c. Name (checker w2 c) = npc_Name t) (rev (hcm_checkers hcm)) =
        Some (?L + (?n + 1))" by simp
  qed
  moreover have "GetHealthChecker hcm (npc_Name t) ''http'' = Some (?L + ?n)"
    using manager_lookup [OF m d, of ?n t "(target_http_url t, ''http'')"] by (simp add: F nth_append)
  moreover have "GetHealthChecker hcm (npc_Name t) ''websocket'' = Some (?L + (?n + 1))"
    using manager_lookup [OF m d, of "?n + 1" t "(target_ws_url t, ''websocket'')"] by (simp add: F nth_append)
  moreover have "?L + (?n + 1) < length (w_checkers w2)"
    using b arg_cong [OF same, of length] by (simp add: built_def F)
  ultimately show thesis using that by simp
qed

text \<open>
  C36. The lag test mistakes the connection: whichever checker of a provider with both connections
  reports a lagging block, the websocket checker is tainted, and the HTTP checker is not touched.
\<close>

theorem lag_taints_the_websocket_checker:
  assumes "NewHealthCheckManager cfg w = (hcm, w')" and "distinct (map npc_Name (cfg_Targets cfg))"
    and "t \<in> set (cfg_Targets cfg)" and "target_http_url t \<noteq> []" and "target_ws_url t \<noteq> []"
    and "map h_config (w_checkers w2) = map h_config (w_checkers w')"
    and "unat n + unat (hcc_BlockDiffThreshold (hcm_config hcm)) < 2 ^ 64" and "lagging hcm n w2"
  shows "\<exists>p q. GetHealthChecker hcm (npc_Name t) ''http'' = Some p \<and>
    GetHealthChecker hcm (npc_Name t) ''websocket'' = Some q \<and>
    h_isTainted (checker (checkBlockLagAndTaint env now hcm (npc_Name t) n w2) q) \<and>
    checker (checkBlockLagAndTaint env now hcm (npc_Name t) n w2) p = checker w2 p"
proof -
  obtain p q where pq: "GetHealthChecker hcm (npc_Name t) ''http'' = Some p"
    "GetHealthChecker hcm (npc_Name t) ''websocket'' = Some q" "p \<noteq> q" "q < length (w_checkers w2)"
    "checker_named hcm (npc_Name t) w2 = Some q"
    by (rule last_named_is_websocket [OF assms(1-6)])
  have "\<exists>detail. checkBlockLagAndTaint env now hcm (npc_Name t) n w2 = TaintHealthCheck env now detail q w2"
    using lag_test_iff [OF assms(7), of "npc_Name t" w2] assms(8) pq(5)
      lag_scan_target [of "npc_Name t" w2 "hcm_checkers hcm"]
    by (auto simp: checkBlockLagAndTaint_def checker_named_def split: prod.splits)
  with pq show ?thesis by (auto simp: TaintHealthCheck_def Taint_marks Taint_other)
qed

theorem lag_taints_the_websocket_checker_witness:
  "\<exists>p q. GetHealthChecker sample_manager ''a'' ''http'' = Some p \<and>
    GetHealthChecker sample_manager ''a'' ''websocket'' = Some q \<and>
    h_isTainted (checker (checkBlockLagAndTaint sample_ws_env 0 sample_manager ''a'' 5 lag_world) q) \<and>
    checker (checkBlockLagAndTaint sample_ws_env 0 sample_manager ''a'' 5 lag_world) p = checker lag_world p"
  using lag_taints_the_websocket_checker [OF sample_manager_eq sample_config_distinct,
      of "mk_target ''a'' ''https://a'' [] ''wss://a''" lag_world 5 sample_ws_env 0] lag_world_lags lag_world_configs
  by (simp add: sample_config_def mk_target_def)

text \<open>
  The sum in the lag test overflows: a provider that reports the largest 64-bit number is
  tainted for lagging although no checker has a larger block number.
\<close>

lemma lag_threshold_overflows:
  "\<exists>w n. \<not> lagging sample_manager n w \<and> \<not> h_isTainted (checker w 2) \<and>
     h_isTainted (checker (checkBlockLagAndTaint env now sample_manager ''b'' n w) 2)"
proof -
  let ?w = "upd_checker 2 (\<lambda>c. c\<lparr>h_blockNumber := - 1\<rparr>) sample_manager_world"
  have le: "unat m \<le> unat (- 1 :: u64)" for m :: u64
    using word_le_nat_alt [of m "- 1"] by (simp only: word_order.extremum)
  have "\<not> unat (- 1 :: u64) + t < unat m" for m :: u64 and t
    using le [of m] by linarith
  then have no: "\<not> lagging sample_manager (- 1) ?w" unfolding lagging_def by blast
  have cfg: "h_config (checker ?w k) = h_config (checker sample_manager_world k)" for k
    by (cases "k = 2") (simp_all add: world_simps sample_manager_fresh)
  have one: "(1 :: u64) < - 1" by code_simp
  have max: "(- 1 :: u64) + 2 < fst (lag_scan ''b'' ?w (hcm_checkers sample_manager))"
    unfolding lag_scan_max using one by (simp add: BlockNumber_def world_simps sample_manager_fresh)
  have target: "snd (lag_scan ''b'' ?w (hcm_checkers sample_manager)) = Some 2"
    using sample_names by (simp add: lag_scan_target Name_def cfg)
  have "\<exists>d. checkBlockLagAndTaint env now sample_manager ''b'' (- 1) ?w = TaintHealthCheck env now d 2 ?w"
    using max target by (auto simp: checkBlockLagAndTaint_def split: prod.splits)
  then have "h_isTainted (checker (checkBlockLagAndTaint env now sample_manager ''b'' (- 1) ?w) 2)"
    by (auto simp: TaintHealthCheck_def Taint_marks world_simps sample_manager_fresh)
  moreover have "\<not> h_isTainted (checker ?w 2)"
    using sample_manager_fresh by (simp add: world_simps fresh_checker_def)
  ultimately show ?thesis using no by blast
qed

section \<open>Outcome of a health check\<close>

definition store_block :: "nat \<Rightarrow> u64 \<Rightarrow> World \<Rightarrow> World" where
  "store_block h n w = upd_checker h (\<lambda>c. c\<lparr>h_blockNumber := n\<rparr>) w"

lemma store_block_simps [world_simps]:
  "length (w_checkers (store_block h n w)) = length (w_checkers w)"
  "h_config (checker (store_block h n w) k) = h_config (checker w k)"
  "h_isTainted (checker (store_block h n w) k) = h_isTainted (checker w k)"
  "h_ethCallCheckCounter (checker (store_block h n w) k) = h_ethCallCheckCounter (checker w k)"
  "h_onBlockNumberUpdate (checker (store_block h n w) k) = h_onBlockNumberUpdate (checker w k)"
  by (cases "k = h"; simp add: store_block_def upd_checker_def upd_at_def)+

lemma store_block_number:
  "h < length (w_checkers w) \<Longrightarrow>
   BlockNumber (checker (store_block h n w) k) = (if k = h then n else BlockNumber (checker w k))"
  by (simp add: store_block_def BlockNumber_def world_simps)

lemma store_block_named [simp]: "checker_named hcm name (store_block h n w) = checker_named hcm name w"
  by (simp add: checker_named_def Name_def world_simps)

definition others_ahead :: "HealthCheckManager \<Rightarrow> nat \<Rightarrow> u64 \<Rightarrow> World \<Rightarrow> bool" where
  "others_ahead hcm h n w \<longleftrightarrow>
     (\<exists>c \<in> set (hcm_checkers hcm). c \<noteq> h \<and>
        unat n + unat (hcc_BlockDiffThreshold (hcm_config hcm)) < unat (BlockNumber (checker w c)))"

lemma lagging_store_block:
  "h < length (w_checkers w) \<Longrightarrow> lagging hcm n (store_block h n w) \<longleftrightarrow> others_ahead hcm h n w"
  by (auto simp: lagging_def others_ahead_def store_block_number)

lemma checkBlockLag_tainted:
  assumes "no_overflow hcm n" and "h < length (w_checkers w)"
  shows "h_isTainted (checker (checkBlockLagAndTaint env now hcm name n w) h) \<longleftrightarrow>
    h_isTainted (checker w h) \<or> lagging hcm n w \<and> checker_named hcm name w = Some h"
proof -
  have "h_isTainted (checker (TaintHealthCheck env now d c w) h) \<longleftrightarrow> h_isTainted (checker w h) \<or> c = h" for d c
    using assms(2) by (cases "c = h") (auto simp: TaintHealthCheck_def Taint_marks Taint_other)
  then show ?thesis
    using lag_test_iff [OF assms(1), of name w] lag_scan_target [of name w "hcm_checkers hcm"]
    by (auto simp: checkBlockLagAndTaint_def checker_named_def Let_def split: prod.splits option.splits)
qed

lemma checkBlockLag_frames [world_simps]:
  "h_config (checker (checkBlockLagAndTaint env now hcm name n w) k) = h_config (checker w k)"
  "h_ethCallCheckCounter (checker (checkBlockLagAndTaint env now hcm name n w) k) =
     h_ethCallCheckCounter (checker w k)"
  "length (w_checkers (checkBlockLagAndTaint env now hcm name n w)) = length (w_checkers w)"
  by (simp_all add: checkBlockLagAndTaint_def TaintHealthCheck_def world_simps Let_def
      split: prod.split option.split)

lemma ethCall_tainted:
  assumes "h < length (w_checkers w)"
  shows "h_isTainted (checker (checkAndSetEthCallHealth penv env now h w) h) \<longleftrightarrow>
    h_isTainted (checker w h) \<or>
    hcf_ChainType (h_config (checker w h)) = ''evm'' \<and>
    (h_ethCallCheckCounter (checker w h) + 1) mod 2 = 0 \<and> checkEthCall penv (checker w h) \<noteq> None"
  using assms
  by (auto simp: checkAndSetEthCallHealth_def TaintHealthCheck_def Taint_marks checkEthCall_def
      world_simps Let_def split: option.split)


lemma sample_lag_probe:
  "checkBlockNumber (answering_probe evm_answer []) (checker sample_manager_world 2) = Inr 16"
proof -
  have "parseHex ''0x10'' = Inr 16" by code_simp
  with sample_manager_fresh(4) show ?thesis
    by (simp add: checkBlockNumber_def makeJSONRPCCall_def evm_probe_answer evm_answer_decoded
        fresh_checker_def sample_live cmp_or_def numeral_2_eq_2) (simp add: sample_config_def cmp_or_def)
qed


text \<open>
  C32. The \<open>eth_call\<close> probe of an EVM checker runs on every second health check, starting with
  the second: the k-th one taints exactly when \<open>k\<close> is even and the probe fails. The 32-bit counter
  wraps without losing the parity.
\<close>

theorem eth_call_every_second_check:
  assumes "h < length (w_checkers w)" and "hcf_ChainType (h_config (checker w h)) = ''evm''"
    and "h_ethCallCheckCounter (checker w h) = of_nat k"
  shows "h_ethCallCheckCounter (checker (checkAndSetEthCallHealth penv env now h w) h) = of_nat (Suc k) \<and>
    (h_isTainted (checker (checkAndSetEthCallHealth penv env now h w) h) \<longleftrightarrow>
      h_isTainted (checker w h) \<or> even (Suc k) \<and> checkEthCall penv (checker w h) \<noteq> None)"
proof
  have "(of_nat (Suc k) :: u32) mod 2 = 0 \<longleftrightarrow> even (Suc k)"
    unfolding even_iff_mod_2_eq_zero [symmetric] by (rule even_of_nat)
  then show "h_isTainted (checker (checkAndSetEthCallHealth penv env now h w) h) \<longleftrightarrow>
      h_isTainted (checker w h) \<or> even (Suc k) \<and> checkEthCall penv (checker w h) \<noteq> None"
    using assms ethCall_tainted [OF assms(1), of penv env now] by (simp add: add.commute)
  show "h_ethCallCheckCounter (checker (checkAndSetEthCallHealth penv env now h w) h) = of_nat (Suc k)"
    using assms
    by (auto simp: checkAndSetEthCallHealth_def TaintHealthCheck_def world_simps Let_def split: option.split)
qed

theorem eth_call_every_second_check_witness:
  "h_ethCallCheckCounter (checker (checkAndSetEthCallHealth (answering_probe evm_answer []) sample_ws_env 0 2 sample_manager_world) 2) = 1 \<and>
   \<not> h_isTainted (checker (checkAndSetEthCallHealth (answering_probe evm_answer []) sample_ws_env 0 2 sample_manager_world) 2)"
proof -
  have "hcf_ChainType (h_config (checker sample_manager_world 2)) = ''evm''"
    using sample_manager_fresh(4) by (simp add: fresh_checker_def) (simp add: sample_config_def cmp_or_def)
  then show ?thesis
    using eth_call_every_second_check [of 2 sample_manager_world 0 "answering_probe evm_answer []" sample_ws_env 0] sample_manager_fresh
    by (simp add: fresh_checker_def)
qed

text \<open>
  While a checker is tainted its health check does nothing, whatever the provider would answer: only
  the removal timer ends a taint.
\<close>

lemma tainted_checker_is_not_checked:
  "h_isTainted (checker w h) \<Longrightarrow> CheckAndSetHealth penv env now hcm h w = w"
  by (simp add: CheckAndSetHealth_def IsTainted_def)

end
