(* ===== verification/NodeProvider.thy ===== *)
theory NodeProvider
  imports Manager
begin

text \<open>
  \<open>internal/proxy/nodeprovider.go\<close>: one provider of a proxy, with its health checkers and its
  websocket proxy behind pointers. \<open>websocket.IsWebSocketUpgrade\<close> is third-party code: its answer
  for the request at hand is an argument.
\<close>

record NodeProvider =
  np_config :: NodeProviderConfig
  np_wsProxy :: "nat option"
  np_httpChecker :: "nat option"
  np_wsChecker :: "nat option"

definition NewNodeProvider :: "NodeProviderConfig \<Rightarrow> duration \<Rightarrow> World \<Rightarrow> NodeProvider \<times> World" where
  "NewNodeProvider config timeout w =
    (let n = \<lparr>np_config = config, np_wsProxy = None, np_httpChecker = None, np_wsChecker = None\<rparr> in
     if target_ws_url config \<noteq> [] then
       (n\<lparr>np_wsProxy := Some (length (w_wsProxies w))\<rparr>,
        w\<lparr>w_wsProxies := w_wsProxies w @ [NewWebSocketProxy (target_ws_url config) timeout]\<rparr>)
     else (n, w))"

definition SetHealthCheckers :: "nat option \<Rightarrow> nat option \<Rightarrow> NodeProvider \<Rightarrow> NodeProvider" where
  "SetHealthCheckers httpChecker wsChecker n = n\<lparr>np_httpChecker := httpChecker, np_wsChecker := wsChecker\<rparr>"

definition healthy_checker :: "World \<Rightarrow> nat option \<Rightarrow> bool" where
  "healthy_checker w c = (case c of None \<Rightarrow> False | Some h \<Rightarrow> IsHealthy (checker w h))"

definition provider_IsHealthy :: "string \<Rightarrow> World \<Rightarrow> NodeProvider \<Rightarrow> bool" where
  "provider_IsHealthy connType w n =
    (if connType = ''websocket'' then healthy_checker w (np_wsChecker n)
     else healthy_checker w (np_httpChecker n))"

definition provider_Name :: "NodeProvider \<Rightarrow> string" where
  "provider_Name n = npc_Name (np_config n)"

definition GetWebSocketProxy :: "NodeProvider \<Rightarrow> nat option" where
  "GetWebSocketProxy n = np_wsProxy n"

text \<open>
  What serving a websocket leaves in the websocket proxy; a crash ends the whole process.
\<close>

definition served_proxy :: "ws_served \<Rightarrow> WebSocketProxy option" where
  "served_proxy s = (case s of
     UpgradeFailed e \<Rightarrow> None
   | NoTarget p \<Rightarrow> Some p
   | Served (Running conn c p) \<Rightarrow> Some p
   | Served (Crashed e) \<Rightarrow> None
   | Served (Terminated i f p) \<Rightarrow> Some p)"

text \<open>A call of the websocket proxy's handler: all that the third-party package and the peers do.\<close>

record ws_call =
  wcl_env :: ws_env
  wcl_isCloseError :: "goerr \<Rightarrow> int list \<Rightarrow> bool"
  wcl_upgrade :: "goerr option"
  wcl_events :: "pipe_event list"

definition provider_ServeHTTP ::
  "bool \<Rightarrow> ws_call \<Rightarrow> NodeProvider \<Rightarrow> World \<Rightarrow> ResponseWriter \<Rightarrow> World \<times> ResponseWriter \<times> ws_served option" where
  "provider_ServeHTTP isUpgrade call n w rw =
    (if isUpgrade then
       (case np_wsProxy n of
          Some p \<Rightarrow>
            (let served = ws_ServeHTTP (wcl_isCloseError call) (wcl_env call) (wcl_upgrade call)
                   (wcl_events call) (w_wsProxies w ! p);
                 w1 = (case served_proxy served of Some q \<Rightarrow> upd_ws p (\<lambda>_. q) w | None \<Rightarrow> w)
             in (w1, rw, Some served))
        | None \<Rightarrow> (w, http_error ''WebSocket not supported'' 400 rw, None))
     else (w, http_error ''HTTP requests handled by main proxy'' 500 rw, None))"

end
