(* ===== verification/Proxy.thy ===== *)
theory Proxy
  imports NodeProvider
begin

text \<open>
  \<open>internal/proxy/proxy.go\<close> and \<open>internal/errors/errors.go\<close>: a proxy of one path, the forwarding of
  a request to one provider, and the handler that goes through the healthy providers until one
  answers. The pool of slices (\<open>healthyPool\<close>) is
  left out here; theory Concurrent has it.
\<close>

section \<open>The proxy\<close>

record Proxy =
  px_hcm :: HealthCheckManager
  px_timeout :: duration
  px_targets :: "NodeProvider list"
  px_chainType :: string
  px_client :: nat
  px_metricsEnabled :: bool

text \<open>\<open>seed\<close> is the clock reading; the loop counts \<open>i\<close> down to 1.\<close>

definition swap_at :: "nat \<Rightarrow> nat \<Rightarrow> 'a list \<Rightarrow> 'a list" where
  "swap_at i j xs = xs[i := xs ! j, j := xs ! i]"

definition next_seed :: "u64 \<Rightarrow> u64" where
  "next_seed seed = seed * 6364136223846793005 + 1"

definition pick :: "nat \<Rightarrow> u64 \<Rightarrow> nat" where
  "pick i seed = unat (seed mod of_nat (i + 1))"

fun shuffle :: "nat \<Rightarrow> u64 \<Rightarrow> 'a list \<Rightarrow> 'a list" where
  "shuffle 0 seed xs = xs"
| "shuffle (Suc i) seed xs =
     (let seed' = next_seed seed; j = pick (Suc i) seed' in shuffle i seed' (swap_at (Suc i) j xs))"

definition RandomizeProviders :: "u64 \<Rightarrow> Proxy \<Rightarrow> Proxy" where
  "RandomizeProviders seed p = p\<lparr>px_targets := shuffle (length (px_targets p) - 1) seed (px_targets p)\<rparr>"

text \<open>
  \<open>NewProxy\<close>. The map of websocket proxies by name is built in the order of the targets; of two
  providers with one name the later one stays.
\<close>

definition map_put :: "string \<Rightarrow> 'a \<Rightarrow> (string \<times> 'a) list \<Rightarrow> (string \<times> 'a) list" where
  "map_put k v m = filter (\<lambda>(k', v'). k' \<noteq> k) m @ [(k, v)]"

fun new_providers ::
  "HealthCheckManager \<Rightarrow> duration \<Rightarrow> NodeProviderConfig list \<Rightarrow> World \<Rightarrow> NodeProvider list \<times> World" where
  "new_providers hcm timeout [] w = ([], w)"
| "new_providers hcm timeout (target # targets) w =
     (let (n, w1) = NewNodeProvider target timeout w;
          n1 = SetHealthCheckers (GetHealthChecker hcm (npc_Name target) ''http'')
                 (GetHealthChecker hcm (npc_Name target) ''websocket'') n;
          (ns, w2) = new_providers hcm timeout targets w1
      in (n1 # ns, w2))"

definition ws_references :: "NodeProvider list \<Rightarrow> (string \<times> nat) list" where
  "ws_references targets =
    fold (\<lambda>target m. case GetWebSocketProxy target of
        Some wsProxy \<Rightarrow> map_put (provider_Name target) wsProxy m
      | None \<Rightarrow> m) targets []"

definition NewProxy :: "Config \<Rightarrow> World \<Rightarrow> Proxy \<times> World" where
  "NewProxy cfg w =
    (let (hcm, w1) = NewHealthCheckManager cfg w;
         (client, hw) = CreateOptimizedHTTPClient (''proxy-'' @ cfg_Path cfg) (cfg_Timeout cfg) (w_http w1);
         (targets, w2) = new_providers hcm (cfg_Timeout cfg) (cfg_Targets cfg) (w1\<lparr>w_http := hw\<rparr>);
         wsProxies = ws_references targets;
         w3 = (if length wsProxies > 0 then SetWebSocketProxyReferences wsProxies hcm w2 else w2)
     in (\<lparr>px_hcm = hcm, px_timeout = cfg_Timeout cfg, px_targets = targets,
          px_chainType = cfg_ChainType cfg, px_client = client,
          px_metricsEnabled = cfg_MetricsEnabled cfg\<rparr>, w3))"

definition HasNodeProviderFailed :: "int \<Rightarrow> bool" where
  "HasNodeProviderFailed statusCode \<longleftrightarrow> statusCode < 200 \<or> statusCode \<ge> 300"

section \<open>Requests, environment, and the state of a handler\<close>

text \<open>\<open>rq_body\<close> is the outcome of reading the body.\<close>

record ServerRequest =
  rq_method :: string
  rq_path :: string
  rq_query :: string
  rq_header :: header
  rq_body :: "goerr + string"

text \<open>
  What a handler sees of the world outside: \<open>pr_http\<close> answers the requests to providers,
  \<open>pr_isWebSocketUpgrade\<close> is the third-party test, \<open>pr_test\<close> the outcome of the test connections,
  \<open>pr_call\<close> that of the call of a websocket proxy, \<open>pr_start\<close> and \<open>pr_now\<close> the clock at the start
  and later.
\<close>

record proxy_env =
  pr_http :: http_env
  pr_isWebSocketUpgrade :: "ServerRequest \<Rightarrow> bool"
  pr_test :: ws_env
  pr_call :: ws_call
  pr_start :: gotime
  pr_now :: gotime

text \<open>The metrics: an observation of a duration in milliseconds, an increment; both with labels.\<close>

datatype metric = Observed string string string int | Counted string string string

text \<open>
  The state of a handler: the shared objects, the response, the requests sent to providers with
  the provider's name, the metrics, and what a websocket proxy made of the connection.
\<close>

record Serving =
  sv_world :: World
  sv_writer :: ResponseWriter
  sv_sent :: "(string \<times> HttpRequest) list"
  sv_metrics :: "metric list"
  sv_websocket :: "ws_served option"

section \<open>internal/errors/errors.go\<close>

definition request_id :: "ServerRequest \<Rightarrow> string \<Rightarrow> goany" where
  "request_id r bodyBytes =
    (if length bodyBytes > 0 \<and> header_get (rq_header r) ''Content-Type'' = ''application/json'' then
       (case unmarshal_map bodyBytes of
          Some req \<Rightarrow> if map_index req ''jsonrpc'' \<noteq> GNil then map_index req ''id'' else GNil
        | None \<Rightarrow> GNil)
     else GNil)"

definition error_body :: "goany \<Rightarrow> string \<Rightarrow> goany" where
  "error_body requestID message =
     GObj [(''error'', GObj [(''code'', GNum (- 32000)), (''message'', GStr message)]),
           (''id'', requestID), (''jsonrpc'', GStr ''2.0'')]"

definition WriteJSONRPCError ::
  "ServerRequest \<Rightarrow> string \<Rightarrow> int \<Rightarrow> string \<Rightarrow> ResponseWriter \<Rightarrow> ResponseWriter" where
  "WriteJSONRPCError r message statusCode bodyBytes w =
    (let requestID = request_id r bodyBytes;
         w1 = set_header ''Content-Type'' ''application/json'' w;
         w2 = (if header_get (rw_header w1) ''X-Status-Set'' = []
               then write_header statusCode (set_header ''X-Status-Set'' ''true'' w1) else w1)
     in write_chunk (JsonBody (error_body requestID message)) w2)"

section \<open>Forwarding to one provider\<close>

definition copyResponse :: "string \<Rightarrow> HttpResponse \<Rightarrow> ResponseWriter \<Rightarrow> ResponseWriter \<times> goerr option" where
  "copyResponse who resp w =
    (let w1 = (if header_get (rw_header w) ''X-Status-Set'' = []
               then write_header (rs_status resp)
                 (set_header ''X-Status-Set'' ''true'' (w\<lparr>rw_header := maps_copy (rw_header w) (rs_header resp)\<rparr>))
               else w)
     in (case io_copy who resp w1 of
           (w2, None) \<Rightarrow> (w2, None)
         | (w2, Some err) \<Rightarrow>
             (w2, Some (if isBrokenPipeError err then Wrap ''client disconnected: '' err
                        else Wrap ''failed to stream response: '' err))))"

definition getConnectionType :: "proxy_env \<Rightarrow> ServerRequest \<Rightarrow> string" where
  "getConnectionType env r = (if pr_isWebSocketUpgrade env r then ''websocket'' else ''http'')"

definition add_metrics :: "metric list \<Rightarrow> Serving \<Rightarrow> Serving" where
  "add_metrics ms s = s\<lparr>sv_metrics := sv_metrics s @ ms\<rparr>"

definition recordMetrics :: "proxy_env \<Rightarrow> Proxy \<Rightarrow> string \<Rightarrow> string \<Rightarrow> string \<Rightarrow> Serving \<Rightarrow> int \<times> Serving" where
  "recordMetrics env p method name result s =
    (let duration = milliseconds (time_sub (pr_now env) (pr_start env)) in
     if \<not> px_metricsEnabled p then (duration, s)
     else (duration, add_metrics [Observed method name result duration, Counted method name result] s))"

definition taint_http :: "proxy_env \<Rightarrow> nat option \<Rightarrow> Serving \<Rightarrow> Serving" where
  "taint_http env hc s = (case hc of
     None \<Rightarrow> s
   | Some h \<Rightarrow> s\<lparr>sv_world := TaintHTTP (wcl_env (pr_call env)) (pr_now env) h (sv_world s)\<rparr>)"

definition handleProviderFailure :: "proxy_env \<Rightarrow> Proxy \<Rightarrow> NodeProvider \<Rightarrow> ServerRequest \<Rightarrow> Serving \<Rightarrow> Serving" where
  "handleProviderFailure env p target r s =
    (let name = provider_Name target;
         s1 = snd (recordMetrics env p (rq_method r) name ''error'' s);
         s2 = (if px_metricsEnabled p then add_metrics [Counted (rq_method r) name ''rerouted''] s1 else s1);
         hc = (if getConnectionType env r = ''websocket'' then np_wsChecker target else np_httpChecker target)
     in taint_http env hc s2)"

definition logSuccessfulRequest :: "proxy_env \<Rightarrow> Proxy \<Rightarrow> NodeProvider \<Rightarrow> ServerRequest \<Rightarrow> Serving \<Rightarrow> Serving" where
  "logSuccessfulRequest env p target r s =
     snd (recordMetrics env p (rq_method r) (provider_Name target) ''success'' s)"

definition upstream_request :: "ServerRequest \<Rightarrow> string \<Rightarrow> NodeProvider \<Rightarrow> string \<Rightarrow> HttpRequest" where
  "upstream_request r body target urlPath =
    \<lparr>hr_method = rq_method r, hr_url = urlPath,
     hr_query = (if rq_query r \<noteq> [] then rq_query r else url_query urlPath),
     hr_header = set_headers (target_headers (np_config target)) (maps_copy Map.empty (rq_header r)),
     hr_body = body\<rparr>"

text \<open>Returns 1 for success, 0 for a failure to retry, -1 for a client that disconnected.\<close>

definition forwardRequest ::
  "proxy_env \<Rightarrow> Proxy \<Rightarrow> ServerRequest \<Rightarrow> string \<Rightarrow> NodeProvider \<Rightarrow> string \<Rightarrow> Serving \<Rightarrow> int \<times> Serving" where
  "forwardRequest env p r body target urlPath s =
    (let name = provider_Name target in
     case new_request (pr_http env) (rq_method r) urlPath of
       Some err \<Rightarrow> (0, handleProviderFailure env p target r s)
     | None \<Rightarrow>
         (let req = upstream_request r body target urlPath;
              s1 = s\<lparr>sv_sent := sv_sent s @ [(name, req)]\<rparr>
          in case do_request (pr_http env) (length (sv_sent s)) req of
               Inl err \<Rightarrow> (0, handleProviderFailure env p target r s1)
             | Inr resp \<Rightarrow>
                 if HasNodeProviderFailed (rs_status resp) then (0, handleProviderFailure env p target r s1)
                 else
                   (let (w, res) = copyResponse name resp (sv_writer s1); s2 = s1\<lparr>sv_writer := w\<rparr> in
                    case res of
                      Some err \<Rightarrow>
                        if isBrokenPipeError err then (- 1, s2)
                        else (0, handleProviderFailure env p target r s2)
                    | None \<Rightarrow> (1, logSuccessfulRequest env p target r s2))))"

section \<open>The handler\<close>

definition getHealthyProviders :: "string \<Rightarrow> Proxy \<Rightarrow> World \<Rightarrow> NodeProvider list" where
  "getHealthyProviders connType p w = filter (provider_IsHealthy connType w) (px_targets p)"

definition collectProviderDetails :: "string \<Rightarrow> Proxy \<Rightarrow> World \<Rightarrow> string list" where
  "collectProviderDetails connType p w =
    map (\<lambda>target.
      case (if connType = ''websocket'' then np_wsChecker target else np_httpChecker target) of
        None \<Rightarrow> provider_Name target @ '':no_checker''
      | Some h \<Rightarrow> if IsTainted (checker w h) then provider_Name target @ '':tainted''
                  else provider_Name target @ '':unknown'') (px_targets p)"

definition write_error :: "ServerRequest \<Rightarrow> string \<Rightarrow> int \<Rightarrow> string \<Rightarrow> Serving \<Rightarrow> Serving" where
  "write_error r message statusCode bodyBytes s =
     s\<lparr>sv_writer := WriteJSONRPCError r message statusCode bodyBytes (sv_writer s)\<rparr>"

definition target_url :: "Proxy \<Rightarrow> ServerRequest \<Rightarrow> NodeProvider \<Rightarrow> string" where
  "target_url p r target =
    (if px_chainType p = ''tron'' then target_http_url (np_config target) @ rq_path r
     else target_http_url (np_config target))"

text \<open>
  One iteration of the loop over the providers; the flag tells that the handler returns.
\<close>

definition serve_target ::
  "proxy_env \<Rightarrow> Proxy \<Rightarrow> ServerRequest \<Rightarrow> string \<Rightarrow> NodeProvider \<Rightarrow> Serving \<Rightarrow> bool \<times> Serving" where
  "serve_target env p r body target s =
     (if pr_isWebSocketUpgrade env r then
        (case GetWebSocketProxy target of
           None \<Rightarrow> (False, s)
         | Some wsProxy \<Rightarrow>
             (case createNewConnection (pr_test env) (w_wsProxies (sv_world s) ! wsProxy) of
                (None, q) \<Rightarrow>
                  (False, taint_http env (GetHealthChecker (px_hcm p) (provider_Name target) (getConnectionType env r))
                      (s\<lparr>sv_world := upd_ws wsProxy (\<lambda>_. q) (sv_world s)\<rparr>))
              | (Some conn, q) \<Rightarrow>
                  (let w1 = upd_ws wsProxy (\<lambda>_. log_wire (ClosedConn conn) q) (sv_world s);
                       (w2, rw, served) = provider_ServeHTTP True (pr_call env) target w1 (sv_writer s)
                   in (True, s\<lparr>sv_world := w2, sv_writer := rw, sv_websocket := served\<rparr>))))
      else
        (let (result, s1) = forwardRequest env p r body target (target_url p r target) s in
         if result = 1 \<or> result = - 1 then (True, s1)
         else if header_get (rw_header (sv_writer s1)) ''X-Status-Set'' \<noteq> [] then (True, s1)
         else (False, s1)))"

fun serve_loop ::
  "proxy_env \<Rightarrow> Proxy \<Rightarrow> ServerRequest \<Rightarrow> string \<Rightarrow> NodeProvider list \<Rightarrow> Serving \<Rightarrow> bool \<times> Serving" where
  "serve_loop env p r body [] s = (False, s)"
| "serve_loop env p r body (target # targets) s =
     (case serve_target env p r body target s of
        (True, s1) \<Rightarrow> (True, s1)
      | (False, s1) \<Rightarrow> serve_loop env p r body targets s1)"

definition ServeHTTP :: "proxy_env \<Rightarrow> Proxy \<Rightarrow> ServerRequest \<Rightarrow> Serving \<Rightarrow> Serving" where
  "ServeHTTP env p r s =
    (case (if pr_isWebSocketUpgrade env r then Inr [] else rq_body r) of
       Inl err \<Rightarrow> write_error r ''Failed to read request body'' 400 [] s
     | Inr bodyBytes \<Rightarrow>
         (let connType = getConnectionType env r;
              healthyProviders = getHealthyProviders connType p (sv_world s)
          in if length healthyProviders = 0 then
               write_error r (''No healthy providers available for chain '' @ hcm_path (px_hcm p)) 503 bodyBytes s
             else
               (case serve_loop env p r bodyBytes healthyProviders s of
                  (True, s1) \<Rightarrow> s1
                | (False, s1) \<Rightarrow>
                    write_error r (''All providers failed for chain '' @ hcm_path (px_hcm p)) 503 bodyBytes s1)))"

lemma serve_loop_Cons:
  "serve_loop env p r body (target # targets) s =
     (if pr_isWebSocketUpgrade env r then
        (case GetWebSocketProxy target of
           None \<Rightarrow> serve_loop env p r body targets s
         | Some wsProxy \<Rightarrow>
             (case createNewConnection (pr_test env) (w_wsProxies (sv_world s) ! wsProxy) of
                (None, q) \<Rightarrow>
                  serve_loop env p r body targets
                    (taint_http env (GetHealthChecker (px_hcm p) (provider_Name target) (getConnectionType env r))
                      (s\<lparr>sv_world := upd_ws wsProxy (\<lambda>_. q) (sv_world s)\<rparr>))
              | (Some conn, q) \<Rightarrow>
                  (let w1 = upd_ws wsProxy (\<lambda>_. log_wire (ClosedConn conn) q) (sv_world s);
                       (w2, rw, served) = provider_ServeHTTP True (pr_call env) target w1 (sv_writer s)
                   in (True, s\<lparr>sv_world := w2, sv_writer := rw, sv_websocket := served\<rparr>))))
      else
        (let (result, s1) = forwardRequest env p r body target (target_url p r target) s in
         if result = 1 \<or> result = - 1 then (True, s1)
         else if header_get (rw_header (sv_writer s1)) ''X-Status-Set'' \<noteq> [] then (True, s1)
         else serve_loop env p r body targets s1))"
  by (simp add: serve_target_def Let_def split: option.split prod.split)

declare serve_loop.simps(2) [simp del]
declare serve_loop_Cons [simp]

definition GetHealthCheckManager :: "Proxy \<Rightarrow> HealthCheckManager" where
  "GetHealthCheckManager p = px_hcm p"

definition GetChainType :: "Proxy \<Rightarrow> string" where
  "GetChainType p = px_chainType p"

definition GetTargets :: "Proxy \<Rightarrow> NodeProvider list" where
  "GetTargets p = px_targets p"

section \<open>Shuffling\<close>

lemma length_swap_at [simp]: "length (swap_at i j xs) = length xs"
  by (simp add: swap_at_def)

lemma swap_at_mset: "i < length xs \<Longrightarrow> j < length xs \<Longrightarrow> mset (swap_at i j xs) = mset xs"
  unfolding swap_at_def by (rule mset_swap)

lemma pick_le:
  assumes "i < 2 ^ 63"
  shows "pick i seed \<le> i"
proof -
  have "unat (of_nat (i + 1) :: u64) = i + 1" using assms by (simp only: unat_of_nat) simp
  then have "unat (seed mod of_nat (i + 1)) < i + 1" by (simp add: unat_mod)
  then show ?thesis by (simp add: pick_def)
qed

lemma shuffle_mset: "i < length xs \<Longrightarrow> length xs \<le> 2 ^ 63 \<Longrightarrow> mset (shuffle i seed xs) = mset xs"
proof (induction i arbitrary: seed xs)
  case (Suc i)
  let ?j = "pick (Suc i) (next_seed seed)"
  have "?j < length xs" using pick_le [of "Suc i" "next_seed seed"] Suc.prems by linarith
  with Suc show ?case by (simp add: Let_def swap_at_mset)
qed simp

text \<open>
  Randomizing only reorders: the providers are the same, each as often as before, every index
  that the loop uses is in range, and nothing else of the proxy changes. Go slices have fewer than \<open>2 ^ 63\<close> elements.
\<close>

theorem randomize_permutes:
  assumes "length (px_targets p) \<le> 2 ^ 63"
  shows "mset (px_targets (RandomizeProviders seed p)) = mset (px_targets p) \<and>
    (RandomizeProviders seed p)\<lparr>px_targets := px_targets p\<rparr> = p \<and>
    (i < length (px_targets p) \<longrightarrow> pick i s < length (px_targets p))"
proof (cases "px_targets p")
  case (Cons t ts)
  have "pick i s < length (px_targets p)" if "i < length (px_targets p)"
    using pick_le [of i s] that assms by linarith
  with Cons assms show ?thesis
    by (simp add: RandomizeProviders_def shuffle_mset)
qed (simp add: RandomizeProviders_def)

end
