(* ===== verification/ProxySetup.thy ===== *)
theory ProxySetup
  imports Proxy
begin

text \<open>
  How \<open>NewProxy\<close> of \<open>internal/proxy/proxy.go\<close> wires a proxy: every provider gets the two health
  checkers made for it, every websocket checker the websocket proxy of its own provider, and all of
  them share one HTTP client.
\<close>

section \<open>Providers and their websocket proxies\<close>

definition wired_to :: "HealthCheckManager \<Rightarrow> duration \<Rightarrow> World \<Rightarrow> NodeProvider \<Rightarrow> bool" where
  "wired_to hcm timeout w n \<longleftrightarrow>
     np_httpChecker n = GetHealthChecker hcm (provider_Name n) ''http'' \<and>
     np_wsChecker n = GetHealthChecker hcm (provider_Name n) ''websocket'' \<and>
     (case np_wsProxy n of
        None \<Rightarrow> target_ws_url (np_config n) = []
      | Some q \<Rightarrow> target_ws_url (np_config n) \<noteq> [] \<and> q < length (w_wsProxies w) \<and>
          w_wsProxies w ! q = NewWebSocketProxy (target_ws_url (np_config n)) timeout)"

lemma new_providers_spec:
  "new_providers hcm timeout ts w = (ns, w') \<Longrightarrow>
   map np_config ns = ts \<and> w_checkers w' = w_checkers w \<and> w_http w' = w_http w \<and>
   (\<exists>qs. w_wsProxies w' = w_wsProxies w @ qs) \<and> list_all (wired_to hcm timeout w') ns"
proof (induction ts arbitrary: w ns w')
  case (Cons t ts)
  obtain n w1 where n: "NewNodeProvider t timeout w = (n, w1)" by (cases "NewNodeProvider t timeout w")
  obtain ms w2 where ms: "new_providers hcm timeout ts w1 = (ms, w2)" by (cases "new_providers hcm timeout ts w1")
  from Cons.IH [OF ms] n ms Cons.prems show ?case
    by (auto simp: NewNodeProvider_def SetHealthCheckers_def wired_to_def provider_Name_def nth_append
        Let_def split: if_splits)
qed simp

lemma map_put_lookup: "map_of (map_put k v m) x = (if x = k then Some v else map_of m x)"
proof -
  have "map_of (filter (\<lambda>(k', v'). k' \<noteq> k) m) x = (if x = k then None else map_of m x)"
    by (induction m) auto
  then show ?thesis by (auto simp: map_put_def map_add_def split: option.split)
qed

lemma map_put_distinct: "distinct (map fst m) \<Longrightarrow> distinct (map fst (map_put k v m))"
  by (induction m) (auto simp: map_put_def)

lemma ws_references_snoc:
  "ws_references (ns @ [n]) = (case np_wsProxy n of
     Some q \<Rightarrow> map_put (provider_Name n) q (ws_references ns) | None \<Rightarrow> ws_references ns)"
  by (simp add: ws_references_def GetWebSocketProxy_def split: option.split)

lemma ws_references_distinct: "distinct (map fst (ws_references ns))"
proof (induction ns rule: rev_induct)
  case (snoc n ns)
  then show ?case by (auto simp: ws_references_snoc map_put_distinct split: option.split)
qed (simp add: ws_references_def)

lemma ws_references_lookup:
  "distinct (map provider_Name ns) \<Longrightarrow>
   map_of (ws_references ns) k = (case List.find (\<lambda>n. provider_Name n = k) ns of
     None \<Rightarrow> None | Some n \<Rightarrow> np_wsProxy n)"
proof (induction ns rule: rev_induct)
  case (snoc n ns)
  have find: "List.find P (xs @ [x]) = (case List.find P xs of None \<Rightarrow> if P x then Some x else None | s \<Rightarrow> s)"
    for P :: "NodeProvider \<Rightarrow> bool" and xs x
    by (induction xs) auto
  have "List.find (\<lambda>m. provider_Name m = k) ns = None" if "provider_Name n = k"
    using snoc.prems that unfolding find_None_iff by (auto simp: image_iff)
  with snoc show ?case
    by (auto simp: ws_references_snoc find map_put_lookup split: option.splits)
qed (simp add: ws_references_def)

lemma find_distinct:
  "distinct (map f xs) \<Longrightarrow> x \<in> set xs \<Longrightarrow> List.find (\<lambda>y. f y = f x) xs = Some x"
  by (induction xs) auto

lemma ws_references_of:
  "distinct (map provider_Name ns) \<Longrightarrow> n \<in> set ns \<Longrightarrow>
   map_of (ws_references ns) (provider_Name n) = np_wsProxy n"
  by (simp add: ws_references_lookup find_distinct)

section \<open>References to websocket proxies\<close>

definition ref_checker :: "HealthCheckManager \<Rightarrow> string \<Rightarrow> nat option" where
  "ref_checker hcm name = hcm_checkerMap hcm (name @ '':websocket'')"

lemma ref_checker_key: "GetHealthChecker hcm name ''websocket'' = ref_checker hcm name"
  by (simp add: GetHealthChecker_def ref_checker_def checker_key_def)

lemma SetRefs_frames:
  "w_wsProxies (SetWebSocketProxyReferences refs hcm w) = w_wsProxies w"
  "w_http (SetWebSocketProxyReferences refs hcm w) = w_http w"
  "length (w_checkers (SetWebSocketProxyReferences refs hcm w)) = length (w_checkers w)"
  by (induction refs hcm w rule: SetWebSocketProxyReferences.induct)
     (simp_all add: world_simps split: option.split)

lemma SetRefs_other:
  "\<forall>name \<in> fst ` set refs. ref_checker hcm name \<noteq> Some c \<Longrightarrow>
   checker (SetWebSocketProxyReferences refs hcm w) c = checker w c"
  by (induction refs hcm w rule: SetWebSocketProxyReferences.induct)
     (auto simp: ref_checker_def world_simps split: option.split)

lemma SetRefs_hit:
  assumes "\<And>name'. ref_checker hcm name' = Some c \<Longrightarrow> name' = name"
  shows "distinct (map fst refs) \<Longrightarrow> (name, q) \<in> set refs \<Longrightarrow> ref_checker hcm name = Some c \<Longrightarrow>
    c < length (w_checkers w) \<Longrightarrow>
    checker (SetWebSocketProxyReferences refs hcm w) c = SetBeforeTaintCallback q (checker w c)"
proof (induction refs arbitrary: w)
  case (Cons ref refs)
  obtain name' q' where ref: "ref = (name', q')" by (cases ref)
  show ?case
  proof (cases "(name, q) = (name', q')")
    case True
    with Cons.prems(1) ref have "name \<notin> fst ` set refs" by auto
    then have "\<forall>name' \<in> fst ` set refs. ref_checker hcm name' \<noteq> Some c" using assms by blast
    from SetRefs_other [OF this] True ref Cons.prems show ?thesis
      by (simp add: ref_checker_def world_simps)
  next
    case False
    with Cons.prems(1,2) ref have in_refs: "(name, q) \<in> set refs" and "name \<noteq> name'" by force+
    then have other: "ref_checker hcm name' \<noteq> Some c" using assms by blast
    let ?w = "case ref_checker hcm name' of Some d \<Rightarrow> upd_checker d (SetBeforeTaintCallback q') w | None \<Rightarrow> w"
    have "checker ?w c = checker w c" "length (w_checkers ?w) = length (w_checkers w)"
      using other by (auto simp: world_simps split: option.split)
    with Cons.IH [of ?w] Cons.prems in_refs ref show ?thesis by (simp add: ref_checker_def)
  qed
qed simp

lemma SetRefs_fields:
  assumes "\<And>q h. f (SetBeforeTaintCallback q h) = f h"
  shows "f (checker (SetWebSocketProxyReferences refs hcm w) c) = f (checker w c)"
proof (induction refs hcm w rule: SetWebSocketProxyReferences.induct)
  case (2 name q refs hcm w)
  then show ?case
    using assms by (auto simp: upd_checker_def upd_at_def nth_list_update split: option.split)
qed simp

section \<open>One client for all\<close>

text \<open>
  Between the creation of a path's first checker and later ones, the client of the path stays.
\<close>

definition shares_client :: "string \<Rightarrow> nat \<Rightarrow> World \<Rightarrow> bool" where
  "shares_client path L w \<longleftrightarrow> http_wf (w_http w) \<and>
     (\<forall>i. L \<le> i \<longrightarrow> i < length (w_checkers w) \<longrightarrow>
        path_client (w_http w) path = Some (h_httpClient (checker w i)))"

lemma path_client_create:
  assumes "http_wf hw" and "CreateOptimizedHTTPClient (''proxy-'' @ path) t hw = (c, hw')"
  shows "http_wf hw'" and "path_client hw' path = Some c"
    and "path_client hw path = Some d \<Longrightarrow> c = d"
proof -
  have g: "factory_CreateOptimizedHTTPClient path t hw = (c, hw')"
    using assms(2) unfolding Create_path client_path_proxy .
  show "http_wf hw'" using paths.get_ok [OF assms(1), of path t] g by simp
  show "path_client hw' path = Some c" using paths.get_stored [OF assms(1), of path t] g by simp
  show "c = d" if "path_client hw path = Some d" using paths.get_hit [OF assms(1) that, of t] g by simp
qed

lemma add_checker_shares:
  assumes "shares_client (cfg_Path cfg) L (snd s)" and "L \<le> length (w_checkers (snd s))"
  shows "shares_client (cfg_Path cfg) L (snd (add_checker cfg t c s)) \<and>
    L \<le> length (w_checkers (snd (add_checker cfg t c s)))"
proof (cases "fst c = []")
  case True
  with assms show ?thesis by (cases s) (simp add: add_checker_def)
next
  case False
  obtain hcm w where s: "s = (hcm, w)" by (cases s)
  let ?cc = "checker_config cfg (hcm_initialDelay hcm) t c"
  obtain k hw where k: "CreateOptimizedHTTPClient (''proxy-'' @ cfg_Path cfg) (cfg_Timeout cfg) (w_http w) = (k, hw)"
    by (cases "CreateOptimizedHTTPClient (''proxy-'' @ cfg_Path cfg) (cfg_Timeout cfg) (w_http w)")
  obtain h where h: "NewHealthChecker ?cc (w_http w) = (h, hw)" "h_httpClient h = k"
    using k by (auto simp: NewHealthChecker_def checker_config_def Let_def)
  from assms s have wf: "http_wf (w_http w)" by (simp add: shares_client_def)
  note pc = path_client_create [OF wf k]
  have "path_client hw (cfg_Path cfg) = Some (h_httpClient (checker (snd (add_checker cfg t c s)) i))"
    if "L \<le> i" "i < Suc (length (w_checkers w))" for i
  proof (cases "i = length (w_checkers w)")
    case True
    with pc(2) h False show ?thesis
      by (simp add: s add_checker_def SetBlockNumberUpdateCallback_def Let_def)
  next
    case False
    with that have i: "i < length (w_checkers w)" by simp
    with assms(1) that(1) s have "path_client (w_http w) (cfg_Path cfg) = Some (h_httpClient (checker w i))"
      by (simp add: shares_client_def)
    with pc(2,3) i h \<open>fst c \<noteq> []\<close> show ?thesis by (auto simp: s add_checker_def nth_append Let_def)
  qed
  with pc(1) h False assms(2) show ?thesis
    by (auto simp: shares_client_def s add_checker_def Let_def)
qed

lemma manager_shares:
  assumes "http_wf (w_http w)" and "NewHealthCheckManager cfg w = (hcm, w')"
  shows "shares_client (cfg_Path cfg) (length (w_checkers w)) w'"
proof -
  let ?L = "length (w_checkers w)"
  let ?P = "\<lambda>s. shares_client (cfg_Path cfg) ?L (snd s) \<and> ?L \<le> length (w_checkers (snd s))"
  have add: "?P (add_checker cfg t c s)" if "?P s" for t c s
    using add_checker_shares [of cfg ?L s t c] that by simp
  have "?P (NewHealthCheckManager cfg w)"
    unfolding NewHealthCheckManager_def
    by (intro fold_keeps [where P = ?P] add) (use assms(1) in \<open>auto simp: shares_client_def\<close>)
  with assms(2) show ?thesis by simp
qed

section \<open>The whole proxy\<close>

lemma NewProxy_cases:
  assumes "NewProxy cfg w = (p, w')"
  obtains hcm w1 client hw targets w2 where
    "NewHealthCheckManager cfg w = (hcm, w1)"
    "CreateOptimizedHTTPClient (''proxy-'' @ cfg_Path cfg) (cfg_Timeout cfg) (w_http w1) = (client, hw)"
    "new_providers hcm (cfg_Timeout cfg) (cfg_Targets cfg) (w1\<lparr>w_http := hw\<rparr>) = (targets, w2)"
    "px_hcm p = hcm" "px_client p = client" "px_targets p = targets" "px_chainType p = cfg_ChainType cfg"
    "px_metricsEnabled p = cfg_MetricsEnabled cfg"
    "w' = SetWebSocketProxyReferences (ws_references targets) hcm w2"
  using assms by (auto simp: NewProxy_def Let_def split: prod.splits if_splits)

text \<open>
  The health checks and the requests of a path share one client, and with it the connection pool:
  the client of the proxy is the client of every checker that was made for it.
\<close>

theorem proxy_shares_client:
  assumes "http_wf (w_http w)" and "NewProxy cfg w = (p, w')"
    and "length (w_checkers w) \<le> i" and "i < length (w_checkers w')"
  shows "h_httpClient (checker w' i) = px_client p"
proof -
  obtain hcm w1 client hw targets w2 where s:
    "NewHealthCheckManager cfg w = (hcm, w1)"
    "CreateOptimizedHTTPClient (''proxy-'' @ cfg_Path cfg) (cfg_Timeout cfg) (w_http w1) = (client, hw)"
    "new_providers hcm (cfg_Timeout cfg) (cfg_Targets cfg) (w1\<lparr>w_http := hw\<rparr>) = (targets, w2)"
    "px_hcm p = hcm" "px_client p = client" "w' = SetWebSocketProxyReferences (ws_references targets) hcm w2"
    by (rule NewProxy_cases [OF assms(2)])
  note sh = manager_shares [OF assms(1) s(1)]
  have w2: "w_checkers w2 = w_checkers w1" using new_providers_spec [OF s(3)] by simp
  have "h_httpClient (checker w' i) = h_httpClient (checker w2 i)"
    unfolding s(6) by (rule SetRefs_fields) (simp add: SetBeforeTaintCallback_def)
  moreover have "path_client (w_http w1) (cfg_Path cfg) = Some (h_httpClient (checker w1 i))"
    using sh assms(3,4) w2 by (simp add: shares_client_def s(6) SetRefs_frames)
  then have "client = h_httpClient (checker w1 i)"
    using path_client_create(3) [OF _ s(2)] sh by (simp add: shares_client_def)
  ultimately show ?thesis using s(5) w2 by simp
qed

lemma built_inject:
  "built cfg L F (hcm, w) \<Longrightarrow> hcm_checkerMap hcm k = Some c \<Longrightarrow> hcm_checkerMap hcm k' = Some c \<Longrightarrow> k = k'"
  by (auto simp: built_def dest!: map_of_SomeD simp: set_zip)

lemma built_pointer:
  assumes "built cfg L F (hcm, w)" and "hcm_checkerMap hcm k = Some c"
  shows "c < length (w_checkers w)"
proof -
  have "(k, c) \<in> set (zip (map conn_key F) [L..<L + length F])"
    using assms by (auto simp: built_def dest!: map_of_SomeD)
  then have "c \<in> set [L..<L + length F]" by (rule set_zip_rightD)
  with assms(1) show ?thesis by (simp add: built_def)
qed

text \<open>A provider whose pointers lead to the objects made for it.\<close>

definition wired :: "World \<Rightarrow> NodeProvider \<Rightarrow> bool" where
  "wired w n \<longleftrightarrow>
    (case np_httpChecker n of
       None \<Rightarrow> target_http_url (np_config n) = []
     | Some h \<Rightarrow> h < length (w_checkers w) \<and> Name (checker w h) = provider_Name n \<and>
         hcf_URL (h_config (checker w h)) = target_http_url (np_config n) \<and>
         hcf_ConnectionType (h_config (checker w h)) = ''http'') \<and>
    (case np_wsChecker n of
       None \<Rightarrow> target_ws_url (np_config n) = [] \<and> np_wsProxy n = None
     | Some h \<Rightarrow> h < length (w_checkers w) \<and> Name (checker w h) = provider_Name n \<and>
         hcf_URL (h_config (checker w h)) = target_ws_url (np_config n) \<and>
         hcf_ConnectionType (h_config (checker w h)) = ''websocket'' \<and>
         (case np_wsProxy n of
            None \<Rightarrow> False
          | Some q \<Rightarrow> h_onBeforeTaint (checker w h) = Some q \<and> q < length (w_wsProxies w) \<and>
              wp_targetURL (w_wsProxies w ! q) = target_ws_url (np_config n)))"

text \<open>
  With distinct provider names \<open>NewProxy\<close> makes one provider per configured target, in order, and
  wires it: it has an HTTP checker, a websocket checker and a websocket proxy exactly for the configured URLs,
  the checkers check these URLs, and the websocket checker's callback before tainting reaches the
  provider's own websocket proxy.
\<close>

lemma NewProxy_wired:
  assumes "NewProxy cfg w = (p, w')" and "distinct (map npc_Name (cfg_Targets cfg))"
  shows "map np_config (px_targets p) = cfg_Targets cfg \<and> list_all (wired w') (px_targets p)"
proof -
  obtain hcm w1 client hw targets w2 where s:
    "NewHealthCheckManager cfg w = (hcm, w1)"
    "CreateOptimizedHTTPClient (''proxy-'' @ cfg_Path cfg) (cfg_Timeout cfg) (w_http w1) = (client, hw)"
    "new_providers hcm (cfg_Timeout cfg) (cfg_Targets cfg) (w1\<lparr>w_http := hw\<rparr>) = (targets, w2)"
    "px_targets p = targets" "w' = SetWebSocketProxyReferences (ws_references targets) hcm w2"
    by (rule NewProxy_cases [OF assms(1)])
  note np = new_providers_spec [OF s(3)]
  then have targets: "map np_config targets = cfg_Targets cfg" and w2: "w_checkers w2 = w_checkers w1" by simp_all
  note b = NewHealthCheckManager_built [of cfg w, unfolded s(1)]
  have names: "distinct (map provider_Name targets)"
  proof -
    have "provider_Name = (\<lambda>n. npc_Name (np_config n))" by (simp add: fun_eq_iff provider_Name_def)
    with assms(2) show ?thesis unfolding targets [symmetric] by (simp add: comp_def)
  qed
  have cfg': "h_config (checker w' h) = h_config (checker w1 h)" for h
    using SetRefs_fields [of h_config "ws_references targets" hcm w2 h]
    by (simp add: s(5) w2 SetBeforeTaintCallback_def)
  have len: "length (w_checkers w') = length (w_checkers w1)" by (simp add: s(5) SetRefs_frames w2)
  have "wired w' n" if n: "n \<in> set targets" for n
  proof -
    let ?t = "np_config n"
    from n targets have t: "?t \<in> set (cfg_Targets cfg)" by (metis image_eqI set_map)
    from np n have wt: "wired_to hcm (cfg_Timeout cfg) w2 n" by (simp add: list_all_iff)
    note find = manager_finds_checkers [OF s(1) assms(2) t]
    have http: "case np_httpChecker n of None \<Rightarrow> target_http_url ?t = []
      | Some h \<Rightarrow> h < length (w_checkers w') \<and> Name (checker w' h) = provider_Name n \<and>
          hcf_URL (h_config (checker w' h)) = target_http_url ?t \<and>
          hcf_ConnectionType (h_config (checker w' h)) = ''http''"
      using find [of "(target_http_url ?t, ''http'')"] wt
      by (auto simp: connections_def wired_to_def provider_Name_def Name_def cfg' len fresh_checker_def
          cmp_or_def split: if_splits)
    have ws: "np_wsChecker n = None \<and> target_ws_url ?t = [] \<or>
      (\<exists>h. np_wsChecker n = Some h \<and> target_ws_url ?t \<noteq> [] \<and> h < length (w_checkers w') \<and>
         Name (checker w' h) = provider_Name n \<and> hcf_URL (h_config (checker w' h)) = target_ws_url ?t \<and>
         hcf_ConnectionType (h_config (checker w' h)) = ''websocket'')"
      using find [of "(target_ws_url ?t, ''websocket'')"] wt
      by (auto simp: connections_def wired_to_def provider_Name_def Name_def cfg' len fresh_checker_def
          cmp_or_def split: if_splits)
    have ref: "h_onBeforeTaint (checker w' h) = Some q"
      if "np_wsChecker n = Some h" "np_wsProxy n = Some q" for h q
    proof -
      have c: "ref_checker hcm (provider_Name n) = Some h"
        using wt that(1) by (simp add: wired_to_def ref_checker_key)
      have "(provider_Name n, q) \<in> set (ws_references targets)"
        using ws_references_of [OF names n] that(2) by (simp add: map_of_SomeD)
      moreover have "name' = provider_Name n" if "ref_checker hcm name' = Some h" for name'
        using built_inject [OF b] c that unfolding ref_checker_def by blast
      moreover have "h < length (w_checkers w2)"
        using built_pointer [OF b] c w2 by (simp add: ref_checker_def)
      ultimately have "checker w' h = SetBeforeTaintCallback q (checker w2 h)"
        unfolding s(5) using SetRefs_hit [OF _ ws_references_distinct] c by blast
      then show ?thesis by (simp add: SetBeforeTaintCallback_def)
    qed
    from ws wt ref http show ?thesis
      by (auto simp: wired_def wired_to_def NewWebSocketProxy_def s(5) SetRefs_frames split: option.splits)
  qed
  with targets s(4) show ?thesis by (simp add: list_all_iff)
qed

section \<open>A sample proxy\<close>

text \<open>Two providers; the first has a websocket connection as well.\<close>

definition sample_proxy :: Proxy where
  "sample_proxy = fst (NewProxy sample_config empty_world)"

definition sample_proxy_world :: World where
  "sample_proxy_world = snd (NewProxy sample_config empty_world)"

lemma sample_proxy_eq: "NewProxy sample_config empty_world = (sample_proxy, sample_proxy_world)"
  by (simp add: sample_proxy_def sample_proxy_world_def)

definition sample_a :: NodeProvider where
  "sample_a = \<lparr>np_config = mk_target ''a'' ''https://a'' [] ''wss://a'', np_wsProxy = Some 0,
     np_httpChecker = Some 0, np_wsChecker = Some 1\<rparr>"

definition sample_b :: NodeProvider where
  "sample_b = \<lparr>np_config = mk_target ''b'' ''https://b'' [] [], np_wsProxy = None,
     np_httpChecker = Some 2, np_wsChecker = None\<rparr>"

lemma sample_lookup:
  "GetHealthChecker sample_manager ''a'' ''http'' = Some 0"
  "GetHealthChecker sample_manager ''a'' ''websocket'' = Some 1"
  "GetHealthChecker sample_manager ''b'' ''http'' = Some 2"
  "GetHealthChecker sample_manager ''b'' ''websocket'' = None"
  using sample_manager_built
  by (simp_all add: built_def sample_live GetHealthChecker_def checker_key_def conn_key_def mk_target_def
      upt_conv_Cons)

lemma sample_proxy_fields:
  "px_targets sample_proxy = [sample_a, sample_b]" "px_chainType sample_proxy = []"
  "px_metricsEnabled sample_proxy = False" "px_hcm sample_proxy = sample_manager"
  "length (w_checkers sample_proxy_world) = 3" "length (w_wsProxies sample_proxy_world) = 1"
  "\<not> h_isTainted (checker sample_proxy_world 0)" "\<not> h_isTainted (checker sample_proxy_world 2)"
proof -
  obtain hcm w1 client hw targets w2 where s:
    "NewHealthCheckManager sample_config empty_world = (hcm, w1)"
    "CreateOptimizedHTTPClient (''proxy-'' @ cfg_Path sample_config) (cfg_Timeout sample_config) (w_http w1) = (client, hw)"
    "new_providers hcm (cfg_Timeout sample_config) (cfg_Targets sample_config) (w1\<lparr>w_http := hw\<rparr>) = (targets, w2)"
    "px_hcm sample_proxy = hcm" "px_client sample_proxy = client" "px_targets sample_proxy = targets"
    "px_chainType sample_proxy = cfg_ChainType sample_config"
    "px_metricsEnabled sample_proxy = cfg_MetricsEnabled sample_config"
    "sample_proxy_world = SetWebSocketProxyReferences (ws_references targets) hcm w2"
    by (rule NewProxy_cases [OF sample_proxy_eq])
  from s(1) have m: "hcm = sample_manager" "w1 = sample_manager_world" by (simp_all add: sample_manager_eq)
  have ws1: "w_wsProxies w1 = []"
  proof -
    have "w_wsProxies (snd (add_checker cfg t c s)) = w_wsProxies (snd s)" for cfg t c s
      by (simp add: add_checker_def Let_def split: prod.split)
    then have "w_wsProxies (snd (NewHealthCheckManager sample_config empty_world)) = []"
      unfolding NewHealthCheckManager_def
      by (intro fold_keeps [where P = "\<lambda>s. w_wsProxies (snd s) = []"]) (simp_all add: empty_world_def)
    with s(1) show ?thesis by simp
  qed
  have ts: "cfg_Targets sample_config = [mk_target ''a'' ''https://a'' [] ''wss://a'', mk_target ''b'' ''https://b'' [] []]"
    by (simp add: sample_config_def)
  have p: "targets = [sample_a, sample_b] \<and> w_checkers w2 = w_checkers w1 \<and> length (w_wsProxies w2) = 1"
    using s(3) ws1 m sample_lookup
    by (auto simp: ts NewNodeProvider_def SetHealthCheckers_def mk_target_def sample_a_def sample_b_def)
  then show "px_targets sample_proxy = [sample_a, sample_b]" using s(6) by simp
  show "px_chainType sample_proxy = []" "px_metricsEnabled sample_proxy = False"
    "px_hcm sample_proxy = sample_manager"
    using s(7,8) m s(4) by (simp_all add: sample_config_def)
  show "length (w_checkers sample_proxy_world) = 3" "length (w_wsProxies sample_proxy_world) = 1"
    using p m sample_manager_fresh(1) by (simp_all add: s(9) SetRefs_frames)
  have "h_isTainted (checker sample_proxy_world c) = h_isTainted (checker w1 c)" for c
    using SetRefs_fields [of h_isTainted "ws_references targets" hcm w2 c] p
    by (simp add: s(9) SetBeforeTaintCallback_def)
  with m sample_manager_fresh show "\<not> h_isTainted (checker sample_proxy_world 0)"
    "\<not> h_isTainted (checker sample_proxy_world 2)" by (simp_all add: fresh_checker_def)
qed

theorem proxy_shares_client_witness:
  "h_httpClient (checker sample_proxy_world 2) = px_client sample_proxy"
  using proxy_shares_client [OF _ sample_proxy_eq, of 2] http_wf_init
  by (simp add: empty_world_def sample_proxy_fields)

theorem randomize_permutes_witness:
  "mset (px_targets (RandomizeProviders 5 sample_proxy)) = {#sample_a, sample_b#}"
  using randomize_permutes [of sample_proxy 5 0 0] by (simp add: sample_proxy_fields)

end
