(* ===== verification/ProxyServe.thy ===== *)
theory ProxyServe
  imports ProxySetup
begin

text \<open>
  Correctness of the request handler of \<open>internal/proxy/proxy.go\<close> for HTTP requests: forwarding to
  one provider, the loop over the providers that refuse, and the outcomes of the whole handler.
\<close>

section \<open>Forwarding one request\<close>

interpretation http_taint: failover "TaintHTTP env now" "\<lambda>w h. IsHealthy (checker w h)"
  "\<lambda>w h. h < length (w_checkers w)" for env now
  by unfold_locales (simp_all add: TaintHTTP_def IsHealthy_def IsTainted_def Taint_marks Taint_other)

lemma status_key: "canonical_key ''X-Status-Set'' = ''X-Status-Set''" by code_simp

lemma content_type_key: "canonical_key ''Content-Type'' = ''Content-Type''" by code_simp

abbreviation unanswered :: "ResponseWriter \<Rightarrow> bool" where
  "unanswered w \<equiv> header_get (rw_header w) ''X-Status-Set'' = []"

definition fresh_writer :: "ResponseWriter \<Rightarrow> bool" where
  "fresh_writer w \<longleftrightarrow> rw_sent w = None \<and> rw_superfluous w = 0 \<and> rw_body w = [] \<and> unanswered w"

lemma recordMetrics_simps [world_simps]:
  "sv_writer (snd (recordMetrics env p m n res s)) = sv_writer s"
  "sv_world (snd (recordMetrics env p m n res s)) = sv_world s"
  "sv_sent (snd (recordMetrics env p m n res s)) = sv_sent s"
  by (simp_all add: recordMetrics_def add_metrics_def Let_def)

definition taint_provider :: "proxy_env \<Rightarrow> NodeProvider \<Rightarrow> World \<Rightarrow> World" where
  "taint_provider env t w = (case np_httpChecker t of
     None \<Rightarrow> w
   | Some h \<Rightarrow> TaintHTTP (wcl_env (pr_call env)) (pr_now env) h w)"

lemma failure_simps [world_simps]:
  "sv_writer (handleProviderFailure env p t r s) = sv_writer s"
  "sv_sent (handleProviderFailure env p t r s) = sv_sent s"
  "\<not> pr_isWebSocketUpgrade env r \<Longrightarrow>
     sv_world (handleProviderFailure env p t r s) = taint_provider env t (sv_world s)"
  by (simp_all add: handleProviderFailure_def add_metrics_def taint_http_def taint_provider_def
      getConnectionType_def world_simps Let_def split: option.split)

lemma success_simps [world_simps]:
  "sv_writer (logSuccessfulRequest env p t r s) = sv_writer s"
  "sv_sent (logSuccessfulRequest env p t r s) = sv_sent s"
  "sv_world (logSuccessfulRequest env p t r s) = sv_world s"
  by (simp_all add: logSuccessfulRequest_def world_simps)

text \<open>The header that \<open>copyResponse\<close> sends with a response.\<close>

definition sent_header :: "ResponseWriter \<Rightarrow> HttpResponse \<Rightarrow> header" where
  "sent_header w resp = header_set (maps_copy (rw_header w) (rs_header resp)) ''X-Status-Set'' ''true''"

lemma copyResponse_frames:
  assumes "unanswered w"
  shows "rw_header (fst (copyResponse who resp w)) = sent_header w resp"
    and "rw_sent w = None \<Longrightarrow> rw_sent (fst (copyResponse who resp w)) = Some (rs_status resp, sent_header w resp)"
    and "rw_sent w = None \<Longrightarrow> rw_superfluous (fst (copyResponse who resp w)) = rw_superfluous w"
proof -
  define w1 where "w1 = write_header (rs_status resp)
    (set_header ''X-Status-Set'' ''true'' (w\<lparr>rw_header := maps_copy (rw_header w) (rs_header resp)\<rparr>))"
  have c: "fst (copyResponse who resp w) = fst (io_copy who resp w1)"
    using assms by (simp add: copyResponse_def w1_def Let_def split: prod.split option.split)
  show "rw_header (fst (copyResponse who resp w)) = sent_header w resp"
    by (simp add: c world_simps sent_header_def) (simp add: w1_def world_simps)
  assume n: "rw_sent w = None"
  then have "rw_sent w1 = Some (rs_status resp, sent_header w resp)"
    by (simp add: w1_def world_simps sent_header_def)
  then show "rw_sent (fst (copyResponse who resp w)) = Some (rs_status resp, sent_header w resp)"
    by (simp add: c world_simps)
  show "rw_superfluous (fst (copyResponse who resp w)) = rw_superfluous w"
    using n by (simp add: c world_simps) (simp add: w1_def world_simps)
qed

text \<open>Every way in which the gateway leaves a provider's answer out and goes on to the next one.\<close>

definition refused :: "goerr + HttpResponse \<Rightarrow> bool" where
  "refused res \<longleftrightarrow> (case res of Inl err \<Rightarrow> True | Inr resp \<Rightarrow> HasNodeProviderFailed (rs_status resp))"

definition failed_at :: "proxy_env \<Rightarrow> Proxy \<Rightarrow> ServerRequest \<Rightarrow> string \<Rightarrow> NodeProvider \<Rightarrow> Serving \<Rightarrow> Serving" where
  "failed_at env p r body t s =
     handleProviderFailure env p t r
       (s\<lparr>sv_sent := sv_sent s @ [(provider_Name t, upstream_request r body t (target_url p r t))]\<rparr>)"

abbreviation answer_of :: "proxy_env \<Rightarrow> Proxy \<Rightarrow> ServerRequest \<Rightarrow> string \<Rightarrow> nat \<Rightarrow> NodeProvider \<Rightarrow> goerr + HttpResponse" where
  "answer_of env p r body k t \<equiv> do_request (pr_http env) k (upstream_request r body t (target_url p r t))"

lemma serve_loop_refused:
  assumes "\<not> pr_isWebSocketUpgrade env r" and "new_request (pr_http env) (rq_method r) (target_url p r t) = None"
    and "refused (answer_of env p r body (length (sv_sent s)) t)" and "unanswered (sv_writer s)"
  shows "serve_loop env p r body (t # ts) s = serve_loop env p r body ts (failed_at env p r body t s)"
  using assms
  by (auto simp: forwardRequest_def refused_def failed_at_def world_simps Let_def split: sum.splits)

text \<open>A run of providers that all refuse: what is left of the loop, and the state it reaches.\<close>

definition all_refuse :: "proxy_env \<Rightarrow> Proxy \<Rightarrow> ServerRequest \<Rightarrow> string \<Rightarrow> nat \<Rightarrow> NodeProvider list \<Rightarrow> bool" where
  "all_refuse env p r body k ts \<longleftrightarrow> (\<forall>i < length ts. refused (answer_of env p r body (k + i) (ts ! i)))"

lemma all_refuse_Cons:
  "all_refuse env p r body k (t # ts) \<longleftrightarrow>
     refused (answer_of env p r body k t) \<and> all_refuse env p r body (Suc k) ts"
  unfolding all_refuse_def by (auto simp: less_Suc_eq_0_disj)

abbreviation request_log :: "Proxy \<Rightarrow> ServerRequest \<Rightarrow> string \<Rightarrow> NodeProvider list \<Rightarrow> (string \<times> HttpRequest) list" where
  "request_log p r body ts \<equiv> map (\<lambda>t. (provider_Name t, upstream_request r body t (target_url p r t))) ts"

lemma serve_loop_run:
  assumes "\<not> pr_isWebSocketUpgrade env r" and "\<And>m u. new_request (pr_http env) m u = None"
    and "all_refuse env p r body (length (sv_sent s)) ts" and "unanswered (sv_writer s)"
  shows "\<exists>s'. serve_loop env p r body (ts @ rest) s = serve_loop env p r body rest s' \<and>
    sv_writer s' = sv_writer s \<and> sv_sent s' = sv_sent s @ request_log p r body ts \<and>
    sv_world s' = fold (taint_provider env) ts (sv_world s)"
  using assms(3,4)
proof (induction ts arbitrary: s)
  case (Cons t ts)
  let ?s = "failed_at env p r body t s"
  have f: "sv_writer ?s = sv_writer s" "sv_world ?s = taint_provider env t (sv_world s)"
    "sv_sent ?s = sv_sent s @ request_log p r body [t]"
    using assms(1) by (simp_all add: failed_at_def world_simps)
  with Cons.prems have "all_refuse env p r body (length (sv_sent ?s)) ts" "unanswered (sv_writer ?s)"
    by (simp_all add: all_refuse_Cons)
  from Cons.IH [OF this] f Cons.prems show ?case
    using serve_loop_refused [OF assms(1,2), where t = t and s = s and ts = "ts @ rest"] by (simp add: all_refuse_Cons)
qed auto

lemma set_map_filter: "set (List.map_filter f xs) = {h. Some h \<in> f ` set xs}"
proof (induction xs)
  case (Cons x xs)
  then show ?case by (cases "f x") (auto simp: List.map_filter_simps)
qed (simp add: List.map_filter_simps)

lemma taint_providers_healthy:
  assumes "\<And>t h. t \<in> set ts \<Longrightarrow> np_httpChecker t = Some h \<Longrightarrow> h < length (w_checkers w)"
  shows "provider_IsHealthy ''http'' (fold (taint_provider env) ts w) n \<longleftrightarrow>
    provider_IsHealthy ''http'' w n \<and> np_httpChecker n \<notin> np_httpChecker ` set ts"
proof -
  let ?T = "TaintHTTP (wcl_env (pr_call env)) (pr_now env)"
  let ?cs = "List.map_filter np_httpChecker ts"
  have f: "fold (taint_provider env) ts w = fold ?T ?cs w" for w
    by (induction ts arbitrary: w) (auto simp: taint_provider_def List.map_filter_simps split: option.split)
  have "list_all (\<lambda>h. h < length (w_checkers w)) ?cs"
    using assms by (auto simp: list_all_iff List.map_filter_def)
  note after = http_taint.healthy_after [OF this]
  have "h \<in> set ?cs \<longleftrightarrow> Some h \<in> np_httpChecker ` set ts" for h
    by (simp add: set_map_filter)
  with after f show ?thesis
    by (cases "np_httpChecker n") (auto simp: provider_IsHealthy_def healthy_checker_def)
qed

section \<open>The handler, for HTTP requests\<close>

lemma not_1_m1: "(1::int) \<noteq> - 1" by simp

text \<open>The pointers of a proxy's providers are valid.\<close>

definition proxy_wf :: "Proxy \<Rightarrow> World \<Rightarrow> bool" where
  "proxy_wf p w \<longleftrightarrow> list_all (\<lambda>t.
     (case np_httpChecker t of None \<Rightarrow> True | Some h \<Rightarrow> h < length (w_checkers w)) \<and>
     (case np_wsChecker t of None \<Rightarrow> True | Some h \<Rightarrow> h < length (w_checkers w)) \<and>
     (case np_wsProxy t of None \<Rightarrow> True | Some q \<Rightarrow> q < length (w_wsProxies w))) (px_targets p)"

lemma proxy_wf_healthy:
  "proxy_wf p w \<Longrightarrow> t \<in> set (getHealthyProviders ct p w) \<Longrightarrow> np_httpChecker t = Some h \<Longrightarrow> h < length (w_checkers w)"
  by (auto simp: proxy_wf_def list_all_iff getHealthyProviders_def)

lemma ServeHTTP_loop:
  assumes "\<not> pr_isWebSocketUpgrade env r" and "rq_body r = Inr body"
    and "getHealthyProviders ''http'' p (sv_world s) = ts" and "ts \<noteq> []"
  shows "ServeHTTP env p r s = (case serve_loop env p r body ts s of
     (True, s1) \<Rightarrow> s1
   | (False, s1) \<Rightarrow> write_error r (''All providers failed for chain '' @ hcm_path (px_hcm p)) 503 body s1)"
  using assms by (simp add: ServeHTTP_def getConnectionType_def)

text \<open>What happens at the first provider that does not refuse.\<close>

lemma serve_loop_answer:
  assumes "\<not> pr_isWebSocketUpgrade env r" and "new_request (pr_http env) (rq_method r) (target_url p r t) = None"
    and "answer_of env p r body (length (sv_sent s)) t = Inr resp" and "\<not> HasNodeProviderFailed (rs_status resp)"
    and "unanswered (sv_writer s)"
  shows "\<exists>s'. serve_loop env p r body (t # ts) s = (True, s') \<and>
    sv_writer s' = fst (copyResponse (provider_Name t) resp (sv_writer s)) \<and>
    sv_sent s' = sv_sent s @ request_log p r body [t] \<and>
    sv_world s' =
      (case snd (copyResponse (provider_Name t) resp (sv_writer s)) of
         None \<Rightarrow> sv_world s
       | Some err \<Rightarrow> if isBrokenPipeError err then sv_world s else taint_provider env t (sv_world s))"
proof -
  obtain w res where c: "copyResponse (provider_Name t) resp (sv_writer s) = (w, res)"
    by (cases "copyResponse (provider_Name t) resp (sv_writer s)")
  have "rw_header w = sent_header (sv_writer s) resp"
    using copyResponse_frames(1) [OF assms(5), of "provider_Name t" resp] c by simp
  then have "header_get (rw_header w) ''X-Status-Set'' \<noteq> []" by (simp add: sent_header_def)
  with assms c show ?thesis
    by (auto simp: forwardRequest_def world_simps Let_def split: option.split)
qed

lemma serve_first_answer:
  assumes "\<not> pr_isWebSocketUpgrade env r" and "rq_body r = Inr body"
    and "getHealthyProviders ''http'' p (sv_world s) = ts1 @ t # ts2"
    and "\<And>m u. new_request (pr_http env) m u = None"
    and "sv_sent s = []" and "unanswered (sv_writer s)" and "all_refuse env p r body 0 ts1"
    and "answer_of env p r body (length ts1) t = Inr resp" and "\<not> HasNodeProviderFailed (rs_status resp)"
  shows "sv_writer (ServeHTTP env p r s) = fst (copyResponse (provider_Name t) resp (sv_writer s)) \<and>
    sv_sent (ServeHTTP env p r s) = request_log p r body (ts1 @ [t]) \<and>
    sv_world (ServeHTTP env p r s) =
      (let w = fold (taint_provider env) ts1 (sv_world s) in
       case snd (copyResponse (provider_Name t) resp (sv_writer s)) of
         None \<Rightarrow> w
       | Some err \<Rightarrow> if isBrokenPipeError err then w else taint_provider env t w)"
proof -
  have "all_refuse env p r body (length (sv_sent s)) ts1" using assms(5,7) by simp
  from serve_loop_run [OF assms(1,4) this assms(6), of "t # ts2"] obtain s1 where
    s1: "serve_loop env p r body (ts1 @ t # ts2) s = serve_loop env p r body (t # ts2) s1"
    "sv_writer s1 = sv_writer s" "sv_sent s1 = sv_sent s @ request_log p r body ts1"
    "sv_world s1 = fold (taint_provider env) ts1 (sv_world s)" by blast
  have "answer_of env p r body (length (sv_sent s1)) t = Inr resp" using s1(3) assms(5,8) by simp
  from serve_loop_answer [OF assms(1) assms(4) this assms(9), of ts2] s1 assms(6) obtain s2 where
    "serve_loop env p r body (t # ts2) s1 = (True, s2)"
    "sv_writer s2 = fst (copyResponse (provider_Name t) resp (sv_writer s))"
    "sv_sent s2 = sv_sent s1 @ request_log p r body [t]"
    "sv_world s2 = (case snd (copyResponse (provider_Name t) resp (sv_writer s)) of
         None \<Rightarrow> sv_world s1
       | Some err \<Rightarrow> if isBrokenPipeError err then sv_world s1 else taint_provider env t (sv_world s1))"
    by auto
  with ServeHTTP_loop [OF assms(1-3)] s1 assms(5) show ?thesis
    by (simp add: Let_def del: serve_loop.simps serve_loop_Cons split: option.split)
qed

lemma copyResponse_complete:
  assumes "unanswered w" and "rw_sent w = None" and "rw_fail w = None" and "rs_err resp = None"
  shows "snd (copyResponse who resp w) = None"
    and "rw_body (fst (copyResponse who resp w)) =
      rw_body w @ (if rs_body resp = [] then [] else [Upstream who (rs_body resp)])"
  using assms by (simp_all add: copyResponse_def io_copy_no_failure world_simps Let_def)

text \<open>
  C9. Failover: the healthy providers are asked in order; those that refuse (a transport error or a
  status that is no success) are tainted, and the first that answers has its status, headers and
  body sent to the client, unchanged but for the marker header. Later providers are not asked, and
  exactly the refusing ones stop being healthy.
\<close>

theorem failover_to_first_answer:
  assumes "\<not> pr_isWebSocketUpgrade env r" and "rq_body r = Inr body" and "proxy_wf p (sv_world s)"
    and "getHealthyProviders ''http'' p (sv_world s) = ts1 @ t # ts2"
    and "\<And>m u. new_request (pr_http env) m u = None"
    and "sv_sent s = []" and "fresh_writer (sv_writer s)" and "all_refuse env p r body 0 ts1"
    and "answer_of env p r body (length ts1) t = Inr resp" and "\<not> HasNodeProviderFailed (rs_status resp)"
    and "rw_fail (sv_writer s) = None" and "rs_err resp = None"
  shows "rw_sent (sv_writer (ServeHTTP env p r s)) = Some (rs_status resp, sent_header (sv_writer s) resp) \<and>
    rw_body (sv_writer (ServeHTTP env p r s)) =
      (if rs_body resp = [] then [] else [Upstream (provider_Name t) (rs_body resp)]) \<and>
    sv_sent (ServeHTTP env p r s) = request_log p r body (ts1 @ [t]) \<and>
    (provider_IsHealthy ''http'' (sv_world (ServeHTTP env p r s)) n \<longleftrightarrow>
      provider_IsHealthy ''http'' (sv_world s) n \<and> np_httpChecker n \<notin> np_httpChecker ` set ts1)"
proof -
  have w: "unanswered (sv_writer s)" "rw_sent (sv_writer s) = None" "rw_body (sv_writer s) = []"
    using assms(7) by (simp_all add: fresh_writer_def)
  note f = serve_first_answer [OF assms(1,2,4,5,6) w(1) assms(8-10)]
  have "np_httpChecker t' = Some h \<Longrightarrow> h < length (w_checkers (sv_world s))" if "t' \<in> set ts1" for t' h
    using proxy_wf_healthy [OF assms(3), of t' "''http''" h] that by (simp add: assms(4))
  from taint_providers_healthy [OF this] f copyResponse_frames(2) [OF w(1,2)]
    copyResponse_complete [OF w(1,2) assms(11,12)] w(3)
  show ?thesis by (simp add: Let_def)
qed

section \<open>A sample run\<close>

definition sample_request :: ServerRequest where
  "sample_request = \<lparr>rq_method = ''POST'', rq_path = [], rq_query = [], rq_header = Map.empty, rq_body = Inr ''ping''\<rparr>"

definition idle_writer :: "(nat \<times> goerr) option \<Rightarrow> ResponseWriter" where
  "idle_writer f = \<lparr>rw_header = Map.empty, rw_sent = None, rw_superfluous = 0, rw_body = [], rw_fail = f\<rparr>"

definition sample_serving :: "(nat \<times> goerr) option \<Rightarrow> Serving" where
  "sample_serving f = \<lparr>sv_world = sample_proxy_world, sv_writer = idle_writer f, sv_sent = [],
     sv_metrics = [], sv_websocket = None\<rparr>"

definition sample_call :: ws_call where
  "sample_call = \<lparr>wcl_env = sample_ws_env, wcl_isCloseError = gorilla_isCloseError, wcl_upgrade = None, wcl_events = []\<rparr>"

text \<open>The answers of the providers by the number of the request.\<close>

definition sample_env :: "(nat \<Rightarrow> goerr + HttpResponse) \<Rightarrow> proxy_env" where
  "sample_env answer = \<lparr>pr_http = \<lparr>new_request = (\<lambda>m u. None), do_request = (\<lambda>k req. answer k)\<rparr>,
     pr_isWebSocketUpgrade = (\<lambda>r. False), pr_test = sample_ws_env, pr_call = sample_call,
     pr_start = 0, pr_now = 0\<rparr>"

definition pong :: "goerr option \<Rightarrow> HttpResponse" where
  "pong err = \<lparr>rs_status = 200, rs_header = Map.empty, rs_body = ''pong'', rs_err = err\<rparr>"

abbreviation unreachable :: "goerr + HttpResponse" where
  "unreachable \<equiv> Inl (Errorf ''connection refused'')"

lemma sample_env_simps [simp]:
  "\<not> pr_isWebSocketUpgrade (sample_env f) r" "new_request (pr_http (sample_env f)) m u = None"
  "do_request (pr_http (sample_env f)) k req = f k"
  by (simp_all add: sample_env_def)

lemma sample_serving_simps [simp]:
  "sv_world (sample_serving f) = sample_proxy_world" "sv_sent (sample_serving f) = []"
  "sv_writer (sample_serving f) = idle_writer f"
  by (simp_all add: sample_serving_def)

lemma idle_writer_simps [simp]:
  "fresh_writer (idle_writer f)" "rw_fail (idle_writer f) = f" "unanswered (idle_writer f)"
  "rw_sent (idle_writer f) = None" "rw_body (idle_writer f) = []"
  by (simp_all add: idle_writer_def fresh_writer_def header_get_def)

lemma sample_request_body [simp]: "rq_body sample_request = Inr ''ping''"
  by (simp add: sample_request_def)

lemma sample_healthy: "getHealthyProviders ''http'' sample_proxy sample_proxy_world = [sample_a, sample_b]"
  by (simp add: getHealthyProviders_def sample_proxy_fields provider_IsHealthy_def healthy_checker_def
      sample_a_def sample_b_def IsHealthy_def IsTainted_def)

lemma sample_wf: "proxy_wf sample_proxy sample_proxy_world"
  by (simp add: proxy_wf_def sample_proxy_fields sample_a_def sample_b_def)

theorem failover_to_first_answer_witness:
  "rw_body (sv_writer (ServeHTTP (sample_env (\<lambda>k. if k = 0 then unreachable else Inr (pong None)))
     sample_proxy sample_request (sample_serving None))) = [Upstream ''b'' ''pong''] \<and>
   \<not> provider_IsHealthy ''http'' (sv_world (ServeHTTP (sample_env (\<lambda>k. if k = 0 then unreachable else Inr (pong None)))
     sample_proxy sample_request (sample_serving None))) sample_a"
proof -
  let ?e = "sample_env (\<lambda>k. if k = 0 then unreachable else Inr (pong None))"
  have "all_refuse ?e sample_proxy sample_request ''ping'' 0 [sample_a]"
    by (simp add: all_refuse_def refused_def)
  from failover_to_first_answer [of ?e sample_request "''ping''" sample_proxy "sample_serving None"
      "[sample_a]" sample_b "[]" "pong None" sample_a] this
  show ?thesis
    by (simp add: sample_healthy sample_wf pong_def HasNodeProviderFailed_def provider_Name_def sample_b_def mk_target_def)
qed

text \<open>
  A request is forwarded with every header that is configured for the provider, whatever the
  client sent under the same name, and with all other headers of the client as they are.
\<close>

theorem configured_headers_win:
  assumes "distinct (map (canonical_key \<circ> fst) (target_headers (np_config t)))"
  shows "if (k, v) \<in> set (target_headers (np_config t))
    then header_get (hr_header (upstream_request r body t url)) k = v
    else canonical_key k \<in> (canonical_key \<circ> fst) ` set (target_headers (np_config t)) \<or>
      hr_header (upstream_request r body t url) (canonical_key k) = rq_header r (canonical_key k)"
proof (cases "(k, v) \<in> set (target_headers (np_config t))")
  case True
  with set_headers_lookup [OF True assms] show ?thesis
    by (simp add: upstream_request_def header_get_def)
next
  case False
  then show ?thesis
    using set_headers_other [of k "target_headers (np_config t)" "maps_copy Map.empty (rq_header r)"]
    by (auto simp: upstream_request_def maps_copy_def)
qed

theorem configured_headers_win_witness:
  "header_get (hr_header (upstream_request (sample_request\<lparr>rq_header := header_set Map.empty ''x-key'' ''client''\<rparr>) []
     (sample_a\<lparr>np_config := mk_target ''a'' ''https://a'' [(''X-Key'', ''secret'')] []\<rparr>) ''https://a'')) ''X-Key'' = ''secret''"
  using configured_headers_win [of "sample_a\<lparr>np_config := mk_target ''a'' ''https://a'' [(''X-Key'', ''secret'')] []\<rparr>"
      "''X-Key''" "''secret''"]
  by (simp add: mk_target_def)

section \<open>The other outcomes\<close>

lemma WriteJSONRPCError_fresh:
  assumes "fresh_writer w"
  shows "rw_body (WriteJSONRPCError r message code body w) = [JsonBody (error_body (request_id r body) message)]"
    and "map_option fst (rw_sent (WriteJSONRPCError r message code body w)) = Some code"
    and "rw_superfluous (WriteJSONRPCError r message code body w) = 0"
  using assms
  by (auto simp: WriteJSONRPCError_def fresh_writer_def header_get_def header_set_def status_key
      content_type_key world_simps Let_def)



text \<open>A response that one party wrote: at most one chunk, after a single header write.\<close>

definition one_source :: "ResponseWriter \<Rightarrow> bool" where
  "one_source w \<longleftrightarrow> rw_sent w \<noteq> None \<and> rw_superfluous w = 0 \<and>
     (rw_body w = [] \<or> (\<exists>who bs. rw_body w = [Upstream who bs]) \<or> (\<exists>v. rw_body w = [JsonBody v]))"

lemma copyResponse_body:
  assumes "unanswered w"
  obtains bs where "rw_body (fst (copyResponse who resp w)) = rw_body w @ (if bs = [] then [] else [Upstream who bs])"
proof -
  define w1 where "w1 = write_header (rs_status resp)
    (set_header ''X-Status-Set'' ''true'' (w\<lparr>rw_header := maps_copy (rw_header w) (rs_header resp)\<rparr>))"
  have c: "fst (copyResponse who resp w) = fst (io_copy who resp w1)" and "rw_body w1 = rw_body w"
    using assms by (simp_all add: copyResponse_def w1_def world_simps Let_def split: prod.split option.split)
  with io_copy_body [of who resp w1] that show thesis by metis
qed

lemma copyResponse_one_source:
  assumes "fresh_writer w"
  shows "one_source (fst (copyResponse who resp w))"
proof -
  have w: "unanswered w" "rw_sent w = None" "rw_body w = []" "rw_superfluous w = 0"
    using assms by (simp_all add: fresh_writer_def)
  obtain bs where "rw_body (fst (copyResponse who resp w)) = (if bs = [] then [] else [Upstream who bs])"
    using copyResponse_body [OF w(1), of who resp] w(3) by auto
  with copyResponse_frames [OF w(1)] w show ?thesis by (simp add: one_source_def)
qed

lemma forward_writer:
  assumes "forwardRequest env p r body t url s = (res, s')" and "unanswered (sv_writer s)"
  shows "sv_writer s' = sv_writer s \<and> res = 0 \<or>
    (\<exists>resp. sv_writer s' = fst (copyResponse (provider_Name t) resp (sv_writer s))) \<and>
    header_get (rw_header (sv_writer s')) ''X-Status-Set'' \<noteq> []"
proof -
  have "header_get (rw_header (fst (copyResponse who resp (sv_writer s)))) ''X-Status-Set'' \<noteq> []" for who resp
    using copyResponse_frames(1) [OF assms(2)] by (simp add: sent_header_def)
  with assms show ?thesis
    by (auto simp: forwardRequest_def world_simps Let_def split: option.splits sum.splits if_splits prod.splits)
       (metis fst_conv)+
qed

lemma serve_loop_one_source:
  "serve_loop env p r body ts s = (d, s') \<Longrightarrow> \<not> pr_isWebSocketUpgrade env r \<Longrightarrow> fresh_writer (sv_writer s) \<Longrightarrow>
   if d then one_source (sv_writer s') else sv_writer s' = sv_writer s"
proof (induction ts arbitrary: s)
  case (Cons t ts)
  obtain res s1 where f: "forwardRequest env p r body t (target_url p r t) s = (res, s1)"
    by (cases "forwardRequest env p r body t (target_url p r t) s")
  have w: "unanswered (sv_writer s)" using Cons.prems(3) by (simp add: fresh_writer_def)
  from forward_writer [OF f w] Cons f w show ?case
    by (auto simp: copyResponse_one_source split: if_splits)
qed simp

text \<open>
  Whatever the providers and the client do, an HTTP request gets one response: the header is written exactly
  once, and the body comes from a single provider or is a single JSON-RPC error, never a mixture of two.
\<close>

theorem response_has_one_source:
  assumes "\<not> pr_isWebSocketUpgrade env r" and "fresh_writer (sv_writer s)"
  shows "one_source (sv_writer (ServeHTTP env p r s))"
proof -
  have err: "one_source (WriteJSONRPCError r message code body (sv_writer s))" for message code body
    using WriteJSONRPCError_fresh [OF assms(2), of r message code body] by (auto simp: one_source_def)
  have "one_source (sv_writer (case serve_loop env p r body ts s of (True, s1) \<Rightarrow> s1
      | (False, s1) \<Rightarrow> write_error r message code body s1))" for body ts message code
    using serve_loop_one_source [OF _ assms, of p body ts] err
    by (cases "serve_loop env p r body ts s") (auto simp: write_error_def split: bool.split if_splits)
  with err assms(1) show ?thesis
    by (simp add: ServeHTTP_def write_error_def Let_def split: sum.split)
qed

theorem response_has_one_source_witness:
  "one_source (sv_writer (ServeHTTP (sample_env (\<lambda>k. Inr (pong (Some (Errorf ''unexpected EOF'')))))
     sample_proxy sample_request (sample_serving (Some (2, Sentinel EPIPE)))))"
  by (rule response_has_one_source) simp_all

lemma broken_pipe_Wrap [simp]: "isBrokenPipeError (Wrap m e) \<longleftrightarrow> isBrokenPipeError e"
  by (simp add: isBrokenPipeError_def)

text \<open>
  C23. A client that goes away in the middle of a response is no provider failure: the provider
  stays healthy, no other provider is asked, and nothing is added to the part of the body that was sent.
\<close>

theorem client_disconnect_is_no_failure:
  assumes "\<not> pr_isWebSocketUpgrade env r" and "rq_body r = Inr body" and "proxy_wf p (sv_world s)"
    and "getHealthyProviders ''http'' p (sv_world s) = ts1 @ t # ts2"
    and "\<And>m u. new_request (pr_http env) m u = None"
    and "sv_sent s = []" and "fresh_writer (sv_writer s)" and "all_refuse env p r body 0 ts1"
    and "answer_of env p r body (length ts1) t = Inr resp" and "\<not> HasNodeProviderFailed (rs_status resp)"
    and "rw_fail (sv_writer s) = Some (m, e)" and "m < length (rs_body resp)" and "isBrokenPipeError e"
  shows "rw_body (sv_writer (ServeHTTP env p r s)) =
      (if m = 0 then [] else [Upstream (provider_Name t) (take m (rs_body resp))]) \<and>
    sv_sent (ServeHTTP env p r s) = request_log p r body (ts1 @ [t]) \<and>
    (provider_IsHealthy ''http'' (sv_world (ServeHTTP env p r s)) n \<longleftrightarrow>
      provider_IsHealthy ''http'' (sv_world s) n \<and> np_httpChecker n \<notin> np_httpChecker ` set ts1)"
proof -
  have w: "unanswered (sv_writer s)" "rw_body (sv_writer s) = []"
    using assms(7) by (simp_all add: fresh_writer_def)
  have c: "snd (copyResponse (provider_Name t) resp (sv_writer s)) = Some (Wrap ''client disconnected: '' e)"
    "rw_body (fst (copyResponse (provider_Name t) resp (sv_writer s))) =
       (if m = 0 then [] else [Upstream (provider_Name t) (take m (rs_body resp))])"
    using w assms(11-13) by (auto simp: copyResponse_def io_copy_def world_simps Let_def)
  have "np_httpChecker t' = Some h \<Longrightarrow> h < length (w_checkers (sv_world s))" if "t' \<in> set ts1" for t' h
    using proxy_wf_healthy [OF assms(3), of t' "''http''" h] that by (simp add: assms(4))
  from taint_providers_healthy [OF this] serve_first_answer [OF assms(1,2,4,5,6) w(1) assms(8-10)] c assms(13)
  show ?thesis by (simp add: Let_def)
qed

theorem client_disconnect_is_no_failure_witness:
  "rw_body (sv_writer (ServeHTTP (sample_env (\<lambda>k. Inr (pong None))) sample_proxy sample_request
     (sample_serving (Some (2, Sentinel EPIPE))))) = [Upstream ''a'' ''po''] \<and>
   provider_IsHealthy ''http'' (sv_world (ServeHTTP (sample_env (\<lambda>k. Inr (pong None))) sample_proxy sample_request
     (sample_serving (Some (2, Sentinel EPIPE))))) sample_a"
proof -
  have h: "provider_IsHealthy ''http'' sample_proxy_world sample_a"
    using sample_healthy by (simp add: getHealthyProviders_def sample_proxy_fields split: if_splits)
  have r: "all_refuse (sample_env (\<lambda>k. Inr (pong None))) sample_proxy sample_request ''ping'' 0 []"
    by (simp add: all_refuse_def)
  from client_disconnect_is_no_failure [of "sample_env (\<lambda>k. Inr (pong None))" sample_request "''ping''" sample_proxy
      "sample_serving (Some (2, Sentinel EPIPE))" "[]" sample_a "[sample_b]" "pong None" 2 "Sentinel EPIPE" sample_a] r h
  show ?thesis
    by (simp add: sample_healthy sample_wf pong_def HasNodeProviderFailed_def isBrokenPipeError_def
        provider_Name_def sample_a_def mk_target_def)
qed

text \<open>
  C37. A provider that breaks its own connection (a reset while the body is read) is taken for a
  client that disconnected: the client gets the truncated body under a success status, the provider is
  not tainted, and no other provider is asked.
\<close>

theorem upstream_reset_is_not_tainted:
  assumes "\<not> pr_isWebSocketUpgrade env r" and "rq_body r = Inr body" and "proxy_wf p (sv_world s)"
    and "getHealthyProviders ''http'' p (sv_world s) = ts1 @ t # ts2"
    and "\<And>m u. new_request (pr_http env) m u = None"
    and "sv_sent s = []" and "fresh_writer (sv_writer s)" and "all_refuse env p r body 0 ts1"
    and "answer_of env p r body (length ts1) t = Inr resp" and "\<not> HasNodeProviderFailed (rs_status resp)"
    and "rw_fail (sv_writer s) = None" and "rs_err resp = Some (Sentinel ECONNRESET)"
  shows "map_option fst (rw_sent (sv_writer (ServeHTTP env p r s))) = Some (rs_status resp) \<and>
    sv_sent (ServeHTTP env p r s) = request_log p r body (ts1 @ [t]) \<and>
    (provider_IsHealthy ''http'' (sv_world (ServeHTTP env p r s)) n \<longleftrightarrow>
      provider_IsHealthy ''http'' (sv_world s) n \<and> np_httpChecker n \<notin> np_httpChecker ` set ts1)"
proof -
  have w: "unanswered (sv_writer s)" "rw_sent (sv_writer s) = None"
    using assms(7) by (simp_all add: fresh_writer_def)
  have c: "snd (copyResponse (provider_Name t) resp (sv_writer s)) =
      Some (Wrap ''client disconnected: '' (Sentinel ECONNRESET))"
    using w(1) assms(11,12) by (simp add: copyResponse_def io_copy_def isBrokenPipeError_def world_simps Let_def)
  have "np_httpChecker t' = Some h \<Longrightarrow> h < length (w_checkers (sv_world s))" if "t' \<in> set ts1" for t' h
    using proxy_wf_healthy [OF assms(3), of t' "''http''" h] that by (simp add: assms(4))
  from taint_providers_healthy [OF this] serve_first_answer [OF assms(1,2,4,5,6) w(1) assms(8-10)] c
    copyResponse_frames(2) [OF w]
  show ?thesis by (simp add: Let_def isBrokenPipeError_def del: map_option_eq_Some)
qed

theorem upstream_reset_is_not_tainted_witness:
  "provider_IsHealthy ''http'' (sv_world (ServeHTTP (sample_env (\<lambda>k. Inr (pong (Some (Sentinel ECONNRESET)))))
     sample_proxy sample_request (sample_serving None))) sample_a"
proof -
  let ?e = "sample_env (\<lambda>k. Inr (pong (Some (Sentinel ECONNRESET))))"
  have h: "provider_IsHealthy ''http'' sample_proxy_world sample_a"
    using sample_healthy by (simp add: getHealthyProviders_def sample_proxy_fields split: if_splits)
  have r: "all_refuse ?e sample_proxy sample_request ''ping'' 0 []" by (simp add: all_refuse_def)
  from upstream_reset_is_not_tainted [of ?e sample_request "''ping''" sample_proxy
      "sample_serving None" "[]" sample_a "[sample_b]" "pong (Some (Sentinel ECONNRESET))" sample_a] r h
  show ?thesis
    by (simp add: sample_healthy sample_wf) (simp add: pong_def HasNodeProviderFailed_def)
qed

section \<open>The handler, for websocket requests\<close>

abbreviation ws_urls :: "World \<Rightarrow> string list" where
  "ws_urls w \<equiv> map wp_targetURL (w_wsProxies w)"

lemma createNewConnection_url [simp]: "wp_targetURL (snd (createNewConnection env p)) = wp_targetURL p"
  by (simp add: createNewConnection_def world_simps split: option.split)

lemma getConnection_url [simp]: "wp_targetURL (snd (getConnection env p)) = wp_targetURL p"
  by (auto simp: getConnection_def world_simps Let_def split: option.split)

lemma UnsubscribeAll_url: "wp_targetURL (UnsubscribeAll env p) = wp_targetURL p"
proof -
  have send: "wp_targetURL (send_unsubscribes env conn ids q) = wp_targetURL q" for conn ids q
    by (induction ids arbitrary: q) (simp_all add: world_simps Let_def)
  have ret: "wp_targetURL (returnConnection c q) = wp_targetURL q" for c q
    by (simp add: returnConnection_def world_simps split: option.split prod.split)
  show ?thesis using getConnection_url [of env p]
    by (cases "getConnection env p") (auto simp: UnsubscribeAll_def ret send Let_def split: option.split)
qed

lemma upd_ws_urls: "(\<And>q. q = w_wsProxies w ! i \<Longrightarrow> wp_targetURL (f q) = wp_targetURL q) \<Longrightarrow> ws_urls (upd_ws i f w) = ws_urls w"
  by (rule nth_equalityI) (auto simp: upd_ws_def nth_upd_at)

lemma Taint_urls: "ws_urls (Taint env now cfg h w) = ws_urls w"
  by (auto simp: Taint_wsProxies before_taint_def upd_ws_urls UnsubscribeAll_url split: option.split)

text \<open>A provider whose test connection fails: it has a websocket proxy, and dialling its URL fails.\<close>

definition ws_dial_fails :: "proxy_env \<Rightarrow> World \<Rightarrow> NodeProvider \<Rightarrow> bool" where
  "ws_dial_fails env w t \<longleftrightarrow> (case np_wsProxy t of
     None \<Rightarrow> False
   | Some q \<Rightarrow> q < length (w_wsProxies w) \<and> we_dial (pr_test env) (ws_urls w ! q) = None)"

definition ws_registered :: "Proxy \<Rightarrow> World \<Rightarrow> NodeProvider \<Rightarrow> bool" where
  "ws_registered p w t \<longleftrightarrow> (case np_wsChecker t of
     None \<Rightarrow> False
   | Some h \<Rightarrow> h < length (w_checkers w) \<and> GetHealthChecker (px_hcm p) (provider_Name t) ''websocket'' = Some h)"

definition same_shape :: "World \<Rightarrow> World \<Rightarrow> bool" where
  "same_shape w w' \<longleftrightarrow> ws_urls w' = ws_urls w \<and> length (w_checkers w') = length (w_checkers w)"

lemma serve_loop_ws_fail:
  assumes "pr_isWebSocketUpgrade env r" and "ws_dial_fails env (sv_world s) t" and "ws_registered p (sv_world s) t"
  shows "\<exists>w'. serve_loop env p r body (t # ts) s = serve_loop env p r body ts (s\<lparr>sv_world := w'\<rparr>) \<and>
    same_shape (sv_world s) w' \<and>
    (\<forall>h. IsHealthy (checker w' h) \<longleftrightarrow> IsHealthy (checker (sv_world s) h) \<and> np_wsChecker t \<noteq> Some h)"
proof -
  from assms(2) obtain q where q: "np_wsProxy t = Some q" "q < length (w_wsProxies (sv_world s))"
    "we_dial (pr_test env) (wp_targetURL (w_wsProxies (sv_world s) ! q)) = None"
    by (auto simp: ws_dial_fails_def split: option.splits)
  from assms(3) obtain h where h: "np_wsChecker t = Some h" "h < length (w_checkers (sv_world s))"
    "GetHealthChecker (px_hcm p) (provider_Name t) ''websocket'' = Some h"
    by (auto simp: ws_registered_def split: option.splits)
  have dial: "createNewConnection (pr_test env) (w_wsProxies (sv_world s) ! q) = (None, w_wsProxies (sv_world s) ! q)"
    using q(3) by (simp add: createNewConnection_def)
  let ?w = "upd_ws q (\<lambda>_. w_wsProxies (sv_world s) ! q) (sv_world s)"
  let ?w' = "TaintHTTP (wcl_env (pr_call env)) (pr_now env) h ?w"
  have "serve_loop env p r body (t # ts) s = serve_loop env p r body ts (s\<lparr>sv_world := ?w'\<rparr>)"
    using assms(1) q(1) h(3) dial by (simp add: GetWebSocketProxy_def taint_http_def getConnectionType_def)
  moreover have "same_shape (sv_world s) ?w'"
    by (simp add: same_shape_def TaintHTTP_def Taint_urls upd_ws_urls world_simps)
  moreover have "IsHealthy (checker ?w' k) \<longleftrightarrow> IsHealthy (checker (sv_world s) k) \<and> np_wsChecker t \<noteq> Some k" for k
    using http_taint.healthy_after [of ?w "[h]" "wcl_env (pr_call env)" "pr_now env" k] h(1,2)
    by (auto simp: world_simps)
  ultimately show ?thesis by blast
qed

lemma serve_loop_ws_run:
  assumes "pr_isWebSocketUpgrade env r" and "list_all (ws_dial_fails env (sv_world s)) ts"
    and "list_all (ws_registered p (sv_world s)) ts"
  shows "\<exists>w'. serve_loop env p r body (ts @ rest) s = serve_loop env p r body rest (s\<lparr>sv_world := w'\<rparr>) \<and>
    same_shape (sv_world s) w' \<and>
    (\<forall>h. IsHealthy (checker w' h) \<longleftrightarrow> IsHealthy (checker (sv_world s) h) \<and> Some h \<notin> np_wsChecker ` set ts)"
  using assms(2,3)
proof (induction ts arbitrary: s)
  case Nil
  then show ?case by (intro exI [of _ "sv_world s"]) (simp add: same_shape_def)
next
  case (Cons t ts)
  have "ws_dial_fails env (sv_world s) t" "ws_registered p (sv_world s) t" using Cons.prems by simp_all
  from serve_loop_ws_fail [OF assms(1) this] obtain w1 where
    w1: "serve_loop env p r body (t # ts @ rest) s = serve_loop env p r body (ts @ rest) (s\<lparr>sv_world := w1\<rparr>)"
    "same_shape (sv_world s) w1"
    "\<And>h. IsHealthy (checker w1 h) \<longleftrightarrow> IsHealthy (checker (sv_world s) h) \<and> np_wsChecker t \<noteq> Some h" by metis
  have "length (w_wsProxies w1) = length (w_wsProxies (sv_world s))"
    using w1(2) by (metis length_map same_shape_def)
  with w1(2) have "list_all (ws_dial_fails env w1) ts" "list_all (ws_registered p w1) ts"
    using Cons.prems by (auto simp: list_all_iff ws_dial_fails_def ws_registered_def same_shape_def split: option.splits)
  with Cons.IH [of "s\<lparr>sv_world := w1\<rparr>"] obtain w2 where
    w2: "serve_loop env p r body (ts @ rest) (s\<lparr>sv_world := w1\<rparr>) = serve_loop env p r body rest (s\<lparr>sv_world := w2\<rparr>)"
    "same_shape w1 w2"
    "\<And>h. IsHealthy (checker w2 h) \<longleftrightarrow> IsHealthy (checker w1 h) \<and> Some h \<notin> np_wsChecker ` set ts" by auto
  show ?case
    using w1 w2 by (intro exI [of _ w2]) (auto simp: same_shape_def)
qed

text \<open>
  C14. A websocket request goes to the first healthy provider that can be reached: those whose test
  connection fails are tainted, the client is upgraded by the websocket proxy of the first one that
  answers, nothing was written to the client before, and exactly the unreachable ones stop being healthy.
\<close>

theorem websocket_failover:
  assumes "pr_isWebSocketUpgrade env r"
    and "getHealthyProviders ''websocket'' p (sv_world s) = ts1 @ t # ts2"
    and "list_all (ws_dial_fails env (sv_world s)) ts1" and "list_all (ws_registered p (sv_world s)) ts1"
    and "np_wsProxy t = Some q" and "q < length (w_wsProxies (sv_world s))"
    and "we_dial (pr_test env) (ws_urls (sv_world s) ! q) = Some conn"
  shows "(\<exists>px. wp_targetURL px = ws_urls (sv_world s) ! q \<and>
      sv_websocket (ServeHTTP env p r s) = Some (ws_ServeHTTP (wcl_isCloseError (pr_call env))
        (wcl_env (pr_call env)) (wcl_upgrade (pr_call env)) (wcl_events (pr_call env)) px)) \<and>
    sv_writer (ServeHTTP env p r s) = sv_writer s \<and> sv_sent (ServeHTTP env p r s) = sv_sent s \<and>
    (provider_IsHealthy ''websocket'' (sv_world (ServeHTTP env p r s)) n \<longleftrightarrow>
      provider_IsHealthy ''websocket'' (sv_world s) n \<and> np_wsChecker n \<notin> np_wsChecker ` set ts1)"
proof -
  from serve_loop_ws_run [OF assms(1,3,4), of "[]" "t # ts2"] obtain w1 where
    w1: "serve_loop env p r [] (ts1 @ t # ts2) s = serve_loop env p r [] (t # ts2) (s\<lparr>sv_world := w1\<rparr>)"
    "same_shape (sv_world s) w1"
    "\<And>h. IsHealthy (checker w1 h) \<longleftrightarrow> IsHealthy (checker (sv_world s) h) \<and> Some h \<notin> np_wsChecker ` set ts1"
    by blast
  have len: "q < length (w_wsProxies w1)" using w1(2) assms(6) by (metis length_map same_shape_def)
  have url: "wp_targetURL (w_wsProxies w1 ! q) = ws_urls (sv_world s) ! q"
    using w1(2) len by (metis nth_map same_shape_def)
  let ?q = "w_wsProxies w1 ! q"
  let ?px = "log_wire (ClosedConn conn) (log_wire (Dialed conn) ?q)"
  have c: "createNewConnection (pr_test env) ?q = (Some conn, log_wire (Dialed conn) ?q)"
    using assms(7) url by (simp add: createNewConnection_def)
  let ?w2 = "upd_ws q (\<lambda>_. ?px) w1"
  have px: "w_wsProxies ?w2 ! q = ?px" using len by (simp add: upd_ws_def)
  obtain w3 served where w3: "provider_ServeHTTP True (pr_call env) t ?w2 (sv_writer s) = (w3, sv_writer s, Some served)"
    and served: "served = ws_ServeHTTP (wcl_isCloseError (pr_call env)) (wcl_env (pr_call env))
        (wcl_upgrade (pr_call env)) (wcl_events (pr_call env)) ?px"
    and same: "w_checkers w3 = w_checkers w1"
    using assms(5) px by (auto simp: provider_ServeHTTP_def world_simps Let_def split: option.split)
  have "serve_loop env p r [] (t # ts2) (s\<lparr>sv_world := w1\<rparr>) =
      (True, s\<lparr>sv_world := w3, sv_writer := sv_writer s, sv_websocket := Some served\<rparr>)"
    using assms(1,5) c w3 by (simp add: GetWebSocketProxy_def)
  then have s: "ServeHTTP env p r s = s\<lparr>sv_world := w3, sv_writer := sv_writer s, sv_websocket := Some served\<rparr>"
    using assms(1,2) w1(1) by (simp add: ServeHTTP_def getConnectionType_def del: serve_loop.simps serve_loop_Cons)
  have "wp_targetURL ?px = ws_urls (sv_world s) ! q" using url by (simp add: world_simps)
  with s served have "\<exists>px. wp_targetURL px = ws_urls (sv_world s) ! q \<and>
      sv_websocket (ServeHTTP env p r s) = Some (ws_ServeHTTP (wcl_isCloseError (pr_call env))
        (wcl_env (pr_call env)) (wcl_upgrade (pr_call env)) (wcl_events (pr_call env)) px)"
    by (intro exI [of _ ?px]) simp
  moreover have "provider_IsHealthy ''websocket'' (sv_world (ServeHTTP env p r s)) n \<longleftrightarrow>
      provider_IsHealthy ''websocket'' (sv_world s) n \<and> np_wsChecker n \<notin> np_wsChecker ` set ts1"
    using w1(3) same by (auto simp: s provider_IsHealthy_def healthy_checker_def split: option.split)
  ultimately show ?thesis using s by simp
qed

text \<open>A proxy whose first provider cannot be dialled.\<close>

definition sample_c :: NodeProvider where
  "sample_c = \<lparr>np_config = mk_target ''c'' [] [] ''wss://c'', np_wsProxy = Some 1,
     np_httpChecker = None, np_wsChecker = Some 2\<rparr>"

definition ws_sample_proxy :: Proxy where
  "ws_sample_proxy = sample_proxy\<lparr>px_targets := [sample_c, sample_a],
     px_hcm := sample_manager\<lparr>hcm_checkerMap := Map.empty (''c:websocket'' \<mapsto> 2)\<rparr>\<rparr>"

definition ws_sample_world :: World where
  "ws_sample_world = \<lparr>w_checkers = replicate 3 (probe_checker [] ''websocket''),
     w_wsProxies = [NewWebSocketProxy ''wss://a'' 1, NewWebSocketProxy ''wss://c'' 1], w_http = init_http\<rparr>"

definition ws_sample_env :: proxy_env where
  "ws_sample_env = (sample_env (\<lambda>k. unreachable))\<lparr>pr_isWebSocketUpgrade := \<lambda>r. True,
     pr_test := sample_ws_env\<lparr>we_dial := \<lambda>u. if u = ''wss://a'' then Some 7 else None\<rparr>\<rparr>"

theorem websocket_failover_witness:
  "sv_websocket (ServeHTTP ws_sample_env ws_sample_proxy sample_request
     ((sample_serving None)\<lparr>sv_world := ws_sample_world\<rparr>)) \<noteq> None \<and>
   \<not> provider_IsHealthy ''websocket'' (sv_world (ServeHTTP ws_sample_env ws_sample_proxy sample_request
     ((sample_serving None)\<lparr>sv_world := ws_sample_world\<rparr>))) sample_c"
proof -
  let ?s = "(sample_serving None)\<lparr>sv_world := ws_sample_world\<rparr>"
  have up: "pr_isWebSocketUpgrade ws_sample_env sample_request" by (simp add: ws_sample_env_def)
  have healthy: "getHealthyProviders ''websocket'' ws_sample_proxy (sv_world ?s) = [] @ sample_c # [sample_a]"
    "getHealthyProviders ''websocket'' ws_sample_proxy (sv_world ?s) = [sample_c] @ sample_a # []"
    by (simp_all add: getHealthyProviders_def ws_sample_proxy_def provider_IsHealthy_def healthy_checker_def
        sample_a_def sample_c_def ws_sample_world_def IsHealthy_def IsTainted_def)
  have fails: "list_all (ws_dial_fails ws_sample_env (sv_world ?s)) [sample_c]"
    by (simp add: ws_dial_fails_def sample_c_def ws_sample_env_def ws_sample_world_def NewWebSocketProxy_def)
  have reg: "list_all (ws_registered ws_sample_proxy (sv_world ?s)) [sample_c]"
    by (simp add: ws_registered_def sample_c_def ws_sample_proxy_def ws_sample_world_def GetHealthChecker_def
        checker_key_def provider_Name_def mk_target_def)
  have q: "np_wsProxy sample_a = Some 0" "0 < length (w_wsProxies (sv_world ?s))"
    "we_dial (pr_test ws_sample_env) (ws_urls (sv_world ?s) ! 0) = Some 7"
    by (simp_all add: sample_a_def ws_sample_world_def ws_sample_env_def NewWebSocketProxy_def)
  from websocket_failover [OF up healthy(2) fails reg q, of sample_c] show ?thesis by auto
qed

end
