(* ===== verification/CheckLoop.thy ===== *)
theory CheckLoop
  imports Manager
begin

text \<open>
  The goroutine of one health checker: \<open>Start\<close> and \<open>runHealthChecker\<close> of
  \<open>internal/proxy/healthchecker.go\<close>, and \<open>Start\<close> of \<open>internal/proxy/healthcheckmanager.go\<close>. The loop
  waits for the shutdown, its timer, or a wake-up, and the checks that the timer triggers are paced.
\<close>

section \<open>The loop\<close>

text \<open>\<open>HealthCheckManager.Start\<close>: the checkers whose goroutines are started.\<close>

definition manager_Start :: "HealthCheckManager \<Rightarrow> nat list" where
  "manager_Start hcm = hcm_checkers hcm"

text \<open>The deadline of the loop's timer when the goroutine of a checker starts.\<close>

definition Start :: "gotime \<Rightarrow> HealthChecker \<Rightarrow> gotime" where
  "Start now h = now + hcf_InitialDelay (h_config h)"

text \<open>
  One iteration of \<open>runHealthChecker\<close>, by the branch that is taken: the new deadline and world, or
  \<open>None\<close> when the loop returns. A check begins at \<open>now\<close> and ends at \<open>after\<close>, where the timer is reset.
\<close>

datatype branch = CtxDone | TimerFired | TaintRemoved

definition run_iteration ::
  "probe_env \<Rightarrow> ws_env \<Rightarrow> HealthCheckManager \<Rightarrow> nat \<Rightarrow> branch \<Rightarrow> gotime \<Rightarrow> gotime \<Rightarrow> gotime \<times> World \<Rightarrow>
    (gotime \<times> World) option" where
  "run_iteration penv env hcm h branch now after = (\<lambda>(due, w).
    case branch of
      CtxDone \<Rightarrow> None
    | TimerFired \<Rightarrow>
        (let w1 = CheckAndSetHealth penv env now hcm h w
         in Some (after + hcf_Interval (h_config (checker w1 h)), w1))
    | TaintRemoved \<Rightarrow> Some (due, upd_checker h drain_signal w))"

lemma CheckAndSetHealth_config [world_simps]:
  "h_config (checker (CheckAndSetHealth penv env now hcm h w) k) = h_config (checker w k)"
proof -
  have upd: "h_config (checker (upd_checker h f w) k) = h_config (checker w k)"
    if "\<And>c. h_config (f c) = h_config c" for f w
    using that by (simp add: upd_checker_def upd_at_def nth_list_update)
  show ?thesis
    by (simp add: CheckAndSetHealth_def checkAndSetBlockNumberHealth_def checkAndSetEthCallHealth_def
        TaintHealthCheck_def upd world_simps Let_def split: option.split sum.split)
qed

lemma drain_config [world_simps]: "h_config (checker (upd_checker h drain_signal w) k) = h_config (checker w k)"
  by (simp add: upd_checker_def upd_at_def nth_list_update drain_signal_def split: option.split)

section \<open>The checker among the other goroutines\<close>

text \<open>
  The state has the clock, the deadline of the timer, whether the goroutine still runs, the times at which
  checks began (latest first), and the world, which other goroutines change but for configurations.
\<close>

record LoopState =
  ls_now :: gotime
  ls_due :: gotime
  ls_running :: bool
  ls_checks :: "gotime list"
  ls_world :: World

definition loop_init :: "nat \<Rightarrow> gotime \<Rightarrow> HealthCheckerConfig \<Rightarrow> LoopState \<Rightarrow> bool" where
  "loop_init h t0 cfg s \<longleftrightarrow> ls_now s = t0 \<and> h_config (checker (ls_world s) h) = cfg \<and>
     ls_due s = Start t0 (checker (ls_world s) h) \<and> ls_running s \<and> ls_checks s = []"

inductive loop_step :: "HealthCheckManager \<Rightarrow> nat \<Rightarrow> LoopState \<Rightarrow> LoopState \<Rightarrow> bool" for hcm h where
  others: "ls_now s \<le> t \<Longrightarrow> h_config (checker w h) = h_config (checker (ls_world s) h) \<Longrightarrow>
    loop_step hcm h s (s\<lparr>ls_now := t, ls_world := w\<rparr>)"
| shutdown: "ls_running s \<Longrightarrow> run_iteration penv env hcm h CtxDone (ls_now s) t (ls_due s, ls_world s) = None \<Longrightarrow>
    loop_step hcm h s (s\<lparr>ls_running := False\<rparr>)"
| check: "ls_running s \<Longrightarrow> ls_due s \<le> ls_now s \<Longrightarrow> ls_now s \<le> t \<Longrightarrow>
    run_iteration penv env hcm h TimerFired (ls_now s) t (ls_due s, ls_world s) = Some (due, w) \<Longrightarrow>
    loop_step hcm h s (s\<lparr>ls_now := t, ls_due := due, ls_checks := ls_now s # ls_checks s, ls_world := w\<rparr>)"
| wake: "ls_running s \<Longrightarrow> h_taintRemoveCh (checker (ls_world s) h) \<noteq> [] \<Longrightarrow>
    run_iteration penv env hcm h TaintRemoved (ls_now s) t (ls_due s, ls_world s) = Some (due, w) \<Longrightarrow>
    loop_step hcm h s (s\<lparr>ls_due := due, ls_world := w\<rparr>)"

inductive_cases loop_stepE: "loop_step hcm h s s'"

definition loop_inv :: "nat \<Rightarrow> gotime \<Rightarrow> HealthCheckerConfig \<Rightarrow> LoopState \<Rightarrow> bool" where
  "loop_inv h t0 cfg s \<longleftrightarrow> h_config (checker (ls_world s) h) = cfg \<and>
     t0 + hcf_InitialDelay cfg \<le> ls_due s \<and>
     (\<forall>c \<in> set (ls_checks s). t0 + hcf_InitialDelay cfg \<le> c \<and> c + hcf_Interval cfg \<le> ls_due s) \<and>
     sorted_wrt (\<lambda>b a. a + hcf_Interval cfg \<le> b) (ls_checks s)"

lemma loop_step_inv:
  assumes "0 \<le> hcf_Interval cfg" and "loop_step hcm h s s'" and "loop_inv h t0 cfg s"
  shows "loop_inv h t0 cfg s'"
  using assms(2,3,1)
  by (cases rule: loop_stepE)
     (fastforce simp: loop_inv_def run_iteration_def world_simps Let_def split: branch.splits)+

interpretation check_loop: invariant_of "\<lambda>s s'. 0 \<le> hcf_Interval cfg \<and> loop_step hcm h s s'"
  "loop_inv h t0 cfg" "loop_init h t0 cfg" for hcm h t0 cfg
proof (unfold_locales, goal_cases)
  case (1 s s')
  then show ?case using loop_step_inv by blast
next
  case (2 s)
  then show ?case by (simp add: loop_init_def loop_inv_def Start_def)
qed

text \<open>After the shutdown no check begins.\<close>

lemma loop_stopped:
  assumes "loop_step hcm h s s'" and "\<not> ls_running s"
  shows "\<not> ls_running s' \<and> ls_checks s' = ls_checks s"
  using assms by (cases rule: loop_stepE) auto


text \<open>Two checks of one checker, the first one late.\<close>

definition paced_world :: World where
  "paced_world = \<lparr>w_checkers = [probe_checker [] ''http''], w_wsProxies = [], w_http = init_http\<rparr>"

definition sample_loop :: "gotime \<Rightarrow> gotime list \<Rightarrow> World \<Rightarrow> gotime \<Rightarrow> LoopState" where
  "sample_loop t cs w due = \<lparr>ls_now = t, ls_due = due, ls_running = True, ls_checks = cs, ls_world = w\<rparr>"


end
