(* ===== verification/GoMux.thy ===== *)
theory GoMux
  imports GoHttp
begin

text \<open>
  \<open>http.ServeMux\<close> for patterns without method, host and wildcards: registration, the cleaning of
  request paths, and the choice of the handler. A path is the escaped path of the request, so it is
  the decoded path when the request has no percent escapes.
\<close>

fun split_slash :: "string \<Rightarrow> string list" where
  "split_slash [] = [[]]"
| "split_slash (c # s) =
     (case split_slash s of
        [] \<Rightarrow> [[c]]
      | seg # segs \<Rightarrow> if c = CHR ''/'' then [] # seg # segs else (c # seg) # segs)"

definition clean_segment :: "string \<Rightarrow> string list \<Rightarrow> string list" where
  "clean_segment seg acc =
    (if seg = [] \<or> seg = ''.'' then acc else if seg = ''..'' then drop 1 acc else seg # acc)"

fun join_slash :: "string list \<Rightarrow> string" where
  "join_slash [] = []"
| "join_slash [s] = s"
| "join_slash (s # t # ts) = s @ ''/'' @ join_slash (t # ts)"

text \<open>\<open>cleanPath\<close>: \<open>path.Clean\<close> of the rooted path, with a trailing slash kept.\<close>

definition clean_path :: "string \<Rightarrow> string" where
  "clean_path p0 =
    (if p0 = [] then ''/''
     else
       (let p = (if hd p0 \<noteq> CHR ''/'' then CHR ''/'' # p0 else p0);
            np = CHR ''/'' # join_slash (rev (fold clean_segment (split_slash p) []))
        in if last p = CHR ''/'' \<and> np \<noteq> ''/'' then np @ ''/'' else np))"

text \<open>
  Registering a pattern twice panics. Patterns with braces, blanks or percent signs have another
  meaning and are not modelled; they are refused as well.
\<close>

definition plain_pattern :: "string \<Rightarrow> bool" where
  "plain_pattern p \<longleftrightarrow> p \<noteq> [] \<and> hd p = CHR ''/'' \<and> set p \<inter> {CHR ''{'', CHR ''}'', CHR ''%'', CHR '' '', CHR 0x09} = {}"

definition mux_handle :: "string \<Rightarrow> 'h \<Rightarrow> (string \<times> 'h) list \<Rightarrow> (string \<times> 'h) list option" where
  "mux_handle pattern h mux =
    (if plain_pattern pattern \<and> pattern \<notin> fst ` set mux then Some (mux @ [(pattern, h)]) else None)"

fun mux_handle_all :: "(string \<times> 'h) list \<Rightarrow> (string \<times> 'h) list \<Rightarrow> (string \<times> 'h) list option" where
  "mux_handle_all [] mux = Some mux"
| "mux_handle_all ((pattern, h) # ps) mux = Option.bind (mux_handle pattern h mux) (mux_handle_all ps)"

text \<open>A pattern that ends with a slash matches the paths below it; the longest one wins.\<close>

definition longer :: "(string \<times> 'h) \<Rightarrow> (string \<times> 'h) option \<Rightarrow> (string \<times> 'h) option" where
  "longer p best = (case best of
     None \<Rightarrow> Some p
   | Some q \<Rightarrow> if length (fst q) < length (fst p) then Some p else Some q)"

definition exact_patterns :: "(string \<times> 'h) list \<Rightarrow> (string \<times> 'h) list" where
  "exact_patterns mux = filter (\<lambda>(k, h). last k \<noteq> CHR ''/'') mux"

definition subtree_patterns :: "string \<Rightarrow> (string \<times> 'h) list \<Rightarrow> (string \<times> 'h) list" where
  "subtree_patterns path mux = filter (\<lambda>(k, h). last k = CHR ''/'' \<and> cut_prefix path k \<noteq> None) mux"

datatype 'h routed = Redirect string | NotFound | Found 'h

definition mux_serve :: "(string \<times> 'h) list \<Rightarrow> string \<Rightarrow> 'h routed" where
  "mux_serve mux path =
    (let p = clean_path path in
     case map_of (exact_patterns mux) p of
       Some h \<Rightarrow> if p \<noteq> path then Redirect p else Found h
     | None \<Rightarrow>
         if last p \<noteq> CHR ''/'' \<and> p @ ''/'' \<in> fst ` set mux then Redirect (p @ ''/'')
         else if p \<noteq> path then Redirect p
         else (case fold longer (subtree_patterns p mux) None of
           Some (k, h) \<Rightarrow> Found h
         | None \<Rightarrow> NotFound))"

lemma mux_handle_all_distinct:
  "list_all plain_pattern (map fst ps) \<Longrightarrow> distinct (map fst (mux @ ps)) \<Longrightarrow> mux_handle_all ps mux = Some (mux @ ps)"
proof (induction ps arbitrary: mux)
  case (Cons p ps)
  obtain k h where p: "p = (k, h)" by (cases p)
  from Cons.prems p have "mux_handle k h mux = Some (mux @ [(k, h)])" by (auto simp: mux_handle_def)
  with Cons.IH [of "mux @ [(k, h)]"] Cons.prems p show ?case by simp
qed simp

lemma fold_longer_Some: "fold longer ps (Some q) \<in> Some ` (insert q (set ps))"
  by (induction ps arbitrary: q) (auto simp: longer_def)

lemma fold_longer:
  "fold longer ps None = None \<longleftrightarrow> ps = []"
  "fold longer ps None = Some q \<Longrightarrow> q \<in> set ps"
proof -
  have "fold longer ps None \<in> Some ` set ps" if "ps \<noteq> []"
    using that fold_longer_Some by (cases ps) (force simp: longer_def)+
  then show "fold longer ps None = None \<longleftrightarrow> ps = []" "fold longer ps None = Some q \<Longrightarrow> q \<in> set ps"
    by (cases ps; force)+
qed

text \<open>When every pattern that can match has the same handler, a clean path gets that handler.\<close>

lemma mux_serve_unique:
  assumes "clean_path path = path"
    and "\<And>k h'. (k, h') \<in> set mux \<Longrightarrow> k = path \<or> (last k = CHR ''/'' \<and> cut_prefix path k \<noteq> None) \<Longrightarrow> h' = h"
    and "(path, h) \<in> set (exact_patterns mux) \<or> path @ ''/'' \<notin> fst ` set mux"
    and "(path, h) \<in> set (exact_patterns mux) \<or> subtree_patterns path mux \<noteq> []"
  shows "mux_serve mux path = Found h"
proof (cases "map_of (exact_patterns mux) path")
  case (Some h')
  then have "(path, h') \<in> set mux" by (auto simp: exact_patterns_def dest!: map_of_SomeD)
  with assms(1,2) Some show ?thesis by (auto simp: mux_serve_def)
next
  case None
  then have no: "(path, h) \<notin> set (exact_patterns mux)" by (auto simp: map_of_eq_None_iff image_iff)
  with assms(4) fold_longer(1) [of "subtree_patterns path mux"] obtain q where
    q: "fold longer (subtree_patterns path mux) None = Some q" by auto
  then have "q \<in> set (subtree_patterns path mux)" by (rule fold_longer(2))
  then have "snd q = h" using assms(2) [of "fst q" "snd q"] by (auto simp: subtree_patterns_def)
  with None no assms(1,3) q show ?thesis by (cases q) (simp add: mux_serve_def)
qed

lemma mux_serve_missing:
  assumes "clean_path path = path"
    and "\<And>k h. (k, h) \<in> set mux \<Longrightarrow> k \<noteq> path \<and> k \<noteq> path @ ''/'' \<and> \<not> (last k = CHR ''/'' \<and> cut_prefix path k \<noteq> None)"
  shows "mux_serve mux path = NotFound"
proof -
  have "map_of (exact_patterns mux) path = None" "path @ ''/'' \<notin> fst ` set mux"
    "subtree_patterns path mux = []"
    using assms(2) by (force simp: exact_patterns_def subtree_patterns_def map_of_eq_None_iff filter_empty_conv)+
  with assms(1) show ?thesis by (simp add: mux_serve_def)
qed

end
