(* ===== verification/GoTime.thy ===== *)
theory GoTime
  imports GoJson
begin

text \<open>
  \<open>time.ParseDuration\<close> as the Go library computes it: a sign, then terms of digits, a fraction and
  a unit, summed in 64 bits with the library's overflow checks; fractions go through float64.
\<close>

text \<open>\<open>leadingInt\<close>: the value is a uint64, at most \<open>2 ^ 63\<close>.\<close>

fun leading_int :: "nat \<Rightarrow> string \<Rightarrow> (nat \<times> string) option" where
  "leading_int x [] = Some (x, [])"
| "leading_int x (c # s) =
     (if \<not> is_digit c then Some (x, c # s)
      else if x > 2 ^ 63 div 10 then None
      else (let y = 10 * x + digit_val c in if y > 2 ^ 63 then None else leading_int y s))"

text \<open>A non-negative float64 after rounding; \<open>None\<close> is positive infinity.\<close>

definition f64_round :: "rat \<Rightarrow> rat option" where
  "f64_round x = (case quotient_of x of (p, q) \<Rightarrow> f64_of_ratio (nat p) (nat q))"

text \<open>\<open>leadingFraction\<close>: once the value would overflow, the remaining digits are dropped.\<close>

fun leading_fraction :: "nat \<Rightarrow> rat option \<Rightarrow> bool \<Rightarrow> string \<Rightarrow> nat \<times> rat option \<times> string" where
  "leading_fraction x scale overflow [] = (x, scale, [])"
| "leading_fraction x scale overflow (c # s) =
     (if \<not> is_digit c then (x, scale, c # s)
      else if overflow then leading_fraction x scale True s
      else if x > (2 ^ 63 - 1) div 10 then leading_fraction x scale True s
      else (let y = 10 * x + digit_val c in
            if y > 2 ^ 63 then leading_fraction x scale True s
            else leading_fraction y (Option.bind scale (\<lambda>v. f64_round (v * 10))) False s))"

definition unit_map :: "(string \<times> nat) list" where
  "unit_map = [(''ns'', 1), (''us'', 1000),
     ([CHR 0xC2, CHR 0xB5, CHR ''s''], 1000), ([CHR 0xCE, CHR 0xBC, CHR ''s''], 1000),
     (''ms'', 1000000), (''s'', 1000000000), (''m'', 60000000000), (''h'', 3600000000000)]"

text \<open>\<open>uint64(float64(f) * (float64(unit) / scale))\<close>; a division by infinity is zero.\<close>

definition fraction_part :: "nat \<Rightarrow> rat option \<Rightarrow> nat \<Rightarrow> nat" where
  "fraction_part f scale u = (case scale of
     None \<Rightarrow> 0
   | Some v \<Rightarrow>
       (case (f64_of_ratio f 1, f64_round (of_nat u / v)) of
          (Some x, Some y) \<Rightarrow> (case f64_round (x * y) of Some z \<Rightarrow> nat \<lfloor>z\<rfloor> | None \<Rightarrow> 0)
        | _ \<Rightarrow> 0))"

text \<open>One term: its value in nanoseconds and the rest of the text.\<close>

definition duration_term :: "string \<Rightarrow> (nat \<times> string) option" where
  "duration_term s = (case s of
     [] \<Rightarrow> None
   | c # _ \<Rightarrow>
       if \<not> (c = CHR ''.'' \<or> is_digit c) then None
       else (case leading_int 0 s of
         None \<Rightarrow> None
       | Some (v, s1) \<Rightarrow>
           (let pre = length s \<noteq> length s1;
                (f, scale, s2, post) =
                  (case s1 of
                     d # r \<Rightarrow>
                       if d = CHR ''.'' then
                         (let (f, scale, r1) = leading_fraction 0 (Some 1) False r
                          in (f, scale, r1, length r \<noteq> length r1))
                       else (0, Some 1, s1, False)
                   | [] \<Rightarrow> (0, Some 1, s1, False));
                u = takeWhile (\<lambda>d. \<not> (d = CHR ''.'' \<or> is_digit d)) s2;
                rest = dropWhile (\<lambda>d. \<not> (d = CHR ''.'' \<or> is_digit d)) s2
            in if \<not> pre \<and> \<not> post then None
               else if u = [] then None
               else (case map_of unit_map u of
                 None \<Rightarrow> None
               | Some unit_ns \<Rightarrow>
                   if v > 2 ^ 63 div unit_ns then None
                   else (let w = v * unit_ns + (if f > 0 then fraction_part f scale unit_ns else 0)
                         in if w > 2 ^ 63 then None else Some (w, rest))))))"

lemma leading_int_length: "leading_int x s = Some (v, r) \<Longrightarrow> length r \<le> length s"
  by (induction x s rule: leading_int.induct) (auto simp: Let_def split: if_splits)

lemma leading_fraction_length: "leading_fraction x sc ov s = (f, sc', r) \<Longrightarrow> length r \<le> length s"
  by (induction x sc ov s rule: leading_fraction.induct) (auto simp: Let_def split: if_splits)

lemma takeWhile_dropWhile_length:
  "takeWhile P s \<noteq> [] \<Longrightarrow> length (dropWhile P s) < length s"
  by (cases s) (auto simp: length_dropWhile_le less_Suc_eq_le split: if_splits)

lemma duration_term_length: "duration_term s = Some (w, r) \<Longrightarrow> length r < length s"
  by (auto simp: duration_term_def Let_def split: list.splits option.splits if_splits prod.splits
      dest!: leading_int_length leading_fraction_length takeWhile_dropWhile_length
      intro!: le_less_trans [OF length_dropWhile_le])

function duration_sum :: "nat \<Rightarrow> string \<Rightarrow> nat option" where
  "duration_sum d s =
     (if s = [] then Some d
      else (case duration_term s of
        None \<Rightarrow> None
      | Some (w, r) \<Rightarrow> if d + w > 2 ^ 63 then None else duration_sum (d + w) r))"
  by pat_completeness auto
termination by (relation "measure (length \<circ> snd)") (auto dest: duration_term_length)

declare duration_sum.simps [simp del]

definition ParseDuration :: "string \<Rightarrow> goerr + duration" where
  "ParseDuration orig =
    (let bad = Inl (Errorf (''time: invalid duration \"'' @ orig @ ''\"''));
         (neg, s) = (case orig of
            c # r \<Rightarrow> if c = CHR ''-'' then (True, r) else if c = CHR ''+'' then (False, r) else (False, orig)
          | [] \<Rightarrow> (False, []))
     in if s = ''0'' then Inr 0
        else if s = [] then bad
        else (case duration_sum 0 s of
          None \<Rightarrow> bad
        | Some d \<Rightarrow> if neg then Inr (- int d) else if d > 2 ^ 63 - 1 then bad else Inr (int d)))"

lemma duration_sum_bound: "d \<le> 2 ^ 63 \<Longrightarrow> duration_sum d s = Some v \<Longrightarrow> v \<le> 2 ^ 63"
proof (induction d s rule: duration_sum.induct)
  case (1 d s)
  then show ?case
    by (subst (asm) (2) duration_sum.simps) (auto split: if_splits option.splits prod.splits)
qed

text \<open>A parsed duration is an int64.\<close>

lemma ParseDuration_range: "ParseDuration s = Inr d \<Longrightarrow> - (2 ^ 63) \<le> d \<and> d < 2 ^ 63"
  using duration_sum_bound [of 0]
  by (force simp: ParseDuration_def Let_def split: if_splits option.splits list.splits prod.splits)

end
