(* ===== verification/Gateway.thy ===== *)
theory Gateway
  imports ProxyServe CheckLoop GoMux GoTime
begin

text \<open>
  \<open>internal/rpcgateway/rpcgateway.go\<close>, \<open>internal/metrics/metrics.go\<close> and \<open>main.go\<close>: building the
  proxies from the configuration, the routes, starting and stopping, the metrics server, and the
  command line program. Sockets, files and the YAML decoder are arguments.
\<close>

section \<open>Log levels\<close>

datatype log_level = LevelDebug | LevelInfo | LevelWarn | LevelError

primrec level_value :: "log_level \<Rightarrow> int" where
  "level_value LevelDebug = - 4"
| "level_value LevelInfo = 0"
| "level_value LevelWarn = 4"
| "level_value LevelError = 8"

text \<open>Levels are ordered by their numbers: a record is logged when its level is not below the configured one.\<close>

instantiation log_level :: linorder
begin

definition less_eq_log_level :: "log_level \<Rightarrow> log_level \<Rightarrow> bool" where
  "less_eq_log_level a b \<longleftrightarrow> level_value a \<le> level_value b"

definition less_log_level :: "log_level \<Rightarrow> log_level \<Rightarrow> bool" where
  "less_log_level a b \<longleftrightarrow> level_value a < level_value b"

instance
proof
  fix a b :: log_level
  show "a \<le> b \<Longrightarrow> b \<le> a \<Longrightarrow> a = b"
    by (cases a; cases b) (simp_all add: less_eq_log_level_def)
qed (auto simp: less_eq_log_level_def less_log_level_def)

end

text \<open>
  \<open>strings.ToLower\<close>. Beyond ASCII only one character becomes one of the letters of the level names: the dotted
  capital I (C4 B0) becomes i.
\<close>

fun lower_bytes :: "string \<Rightarrow> string" where
  "lower_bytes [] = []"
| "lower_bytes (a # s) =
     (case s of
        b # r \<Rightarrow> if a = CHR 0xC4 \<and> b = CHR 0xB0 then CHR ''i'' # lower_bytes r else lower_char a # lower_bytes s
      | [] \<Rightarrow> [lower_char a])"

definition log_level_map :: "(string \<times> log_level) list" where
  "log_level_map = [(''debug'', LevelDebug), (''info'', LevelInfo), (''warn'', LevelWarn), (''error'', LevelError)]"

definition configured_log_level :: "string \<Rightarrow> log_level" where
  "configured_log_level LOG_LEVEL = (case map_of log_level_map (lower_bytes LOG_LEVEL) of
     Some l \<Rightarrow> l | None \<Rightarrow> LevelWarn)"

section \<open>internal/metrics/metrics.go\<close>

datatype metrics_handler = Healthz | Prometheus

record MetricsServer =
  ms_enabled :: bool
  ms_addr :: string
  ms_routes :: "(string \<times> metrics_handler) list"

definition metrics_NewServer :: "MetricsConfig \<Rightarrow> MetricsServer" where
  "metrics_NewServer config =
    (if \<not> IsEnabled config then \<lparr>ms_enabled = False, ms_addr = [], ms_routes = []\<rparr>
     else \<lparr>ms_enabled = True, ms_addr = '':'' @ show_nat (unat (met_Port config)),
           ms_routes = [(''/healthz'', Healthz), (''/metrics'', Prometheus)]\<rparr>)"

text \<open>The outcomes of \<open>ListenAndServe\<close> and \<open>Close\<close> are arguments.\<close>

definition metrics_Start :: "goerr option \<Rightarrow> MetricsServer \<Rightarrow> goerr option" where
  "metrics_Start listenAndServe s = (if \<not> ms_enabled s then None else listenAndServe)"

definition metrics_Stop :: "goerr option \<Rightarrow> MetricsServer \<Rightarrow> goerr option" where
  "metrics_Stop close s = (if \<not> ms_enabled s then None else close)"

definition healthz :: "ResponseWriter \<Rightarrow> ResponseWriter" where
  "healthz w = write_chunk (PlainText ''OK'') (write_header 200 w)"

section \<open>Building the gateway\<close>

record RPCGateway =
  gw_config :: RPCGatewayConfig
  gw_proxies :: "(string \<times> Proxy) list"
  gw_hcms :: "(string \<times> HealthCheckManager) list"
  gw_addr :: string
  gw_routes :: "(string \<times> string) list"
  gw_metrics :: MetricsServer

definition proxy_config :: "bool \<Rightarrow> int \<Rightarrow> duration \<Rightarrow> ProxyConfig \<Rightarrow> Config" where
  "proxy_config metricsEnabled i timeout pc =
    \<lparr>cfg_Path = pc_Path pc, cfg_ChainType = pc_ChainType pc, cfg_Timeout = timeout,
     cfg_HealthChecks = pc_HealthChecks pc, cfg_Targets = pc_Targets pc, cfg_PathIndex = i,
     cfg_MetricsEnabled = metricsEnabled\<rparr>"

text \<open>The loop over the proxy configurations; \<open>NewProxy\<close> never fails. A path that comes again replaces its proxy.\<close>

fun build_proxies ::
  "bool \<Rightarrow> int \<Rightarrow> ProxyConfig list \<Rightarrow> (string \<times> Proxy) list \<Rightarrow> World \<Rightarrow> goerr + (string \<times> Proxy) list \<times> World" where
  "build_proxies metricsEnabled i [] proxies w = Inr (proxies, w)"
| "build_proxies metricsEnabled i (pc # pcs) proxies w =
     (case ParseDuration (pc_Timeout pc) of
        Inl err \<Rightarrow> Inl (Wrap ''invalid timeout: '' err)
      | Inr timeout \<Rightarrow>
          (let (p, w1) = NewProxy (proxy_config metricsEnabled i timeout pc) w
           in build_proxies metricsEnabled (i + 1) pcs (map_put (pc_Path pc) p proxies) w1))"

text \<open>Every proxy reads the clock when it is shuffled: \<open>seed path\<close> is that reading.\<close>

definition randomize_all :: "(string \<Rightarrow> u64) \<Rightarrow> (string \<times> Proxy) list \<Rightarrow> (string \<times> Proxy) list" where
  "randomize_all seed proxies = map (\<lambda>(path, p). (path, RandomizeProviders (seed path) p)) proxies"

text \<open>The routes of one proxy; the handler of a route is known by the path of its proxy.\<close>

definition proxy_routes :: "string \<times> Proxy \<Rightarrow> (string \<times> string) list" where
  "proxy_routes pp =
    (let pathPrefix = ''/'' @ fst pp in
     [(pathPrefix, fst pp), (pathPrefix @ ''/'', fst pp)]
       @ (if GetChainType (snd pp) = ''tron'' then [(pathPrefix @ ''/*'', fst pp)] else []))"

text \<open>Building panics when the multiplexer refuses a route.\<close>

datatype 'a outcome = Panics | Returns 'a

definition NewRPCGateway ::
  "RPCGatewayConfig \<Rightarrow> (string \<Rightarrow> u64) \<Rightarrow> World \<Rightarrow> (goerr + RPCGateway \<times> World) outcome" where
  "NewRPCGateway config seed w =
    (case build_proxies (IsEnabled (gc_Metrics config)) 0 (gc_Proxies config) [] w of
       Inl err \<Rightarrow> Returns (Inl err)
     | Inr (built_proxies, w1) \<Rightarrow>
         (let proxies = (if gc_RandomizeProviders config then randomize_all seed built_proxies else built_proxies) in
          case mux_handle_all (concat (map proxy_routes proxies)) [] of
            None \<Rightarrow> Panics
          | Some routes \<Rightarrow>
              Returns (Inr (\<lparr>gw_config = config, gw_proxies = proxies,
                gw_hcms = map (\<lambda>(path, p). (path, GetHealthCheckManager p)) proxies,
                gw_addr = '':'' @ gc_Port config, gw_routes = routes,
                gw_metrics = metrics_NewServer (gc_Metrics config)\<rparr>, w1))))"

definition SetRandomizeProviders :: "(string \<Rightarrow> u64) \<Rightarrow> bool \<Rightarrow> RPCGateway \<Rightarrow> RPCGateway" where
  "SetRandomizeProviders seed randomize g =
    (let g1 = g\<lparr>gw_config := (gw_config g)\<lparr>gc_RandomizeProviders := randomize\<rparr>\<rparr> in
     if randomize then g1\<lparr>gw_proxies := randomize_all seed (gw_proxies g)\<rparr> else g1)"

text \<open>\<open>readFile\<close> is the outcome of reading the file, \<open>yaml\<close> the third-party decoder.\<close>

definition NewRPCGatewayFromConfigFile ::
  "(string \<Rightarrow> goerr + string) \<Rightarrow> (string \<Rightarrow> goerr + RPCGatewayConfig) \<Rightarrow> string \<Rightarrow> (string \<Rightarrow> u64) \<Rightarrow> World \<Rightarrow>
    (goerr + RPCGateway \<times> World) outcome" where
  "NewRPCGatewayFromConfigFile readFile yaml file seed w =
    (case readFile file of
       Inl err \<Rightarrow> Returns (Inl err)
     | Inr data \<Rightarrow> (case yaml data of
         Inl err \<Rightarrow> Returns (Inl err)
       | Inr config \<Rightarrow> NewRPCGateway config seed w))"

section \<open>Serving\<close>

definition handler_request :: "proxy_env \<Rightarrow> string \<Rightarrow> Proxy \<Rightarrow> ServerRequest \<Rightarrow> ServerRequest" where
  "handler_request env path p r =
    (if pr_isWebSocketUpgrade env r then r
     else
       (let trimmed = trim_prefix (rq_path r) (''/'' @ path);
            upstream = (if GetChainType p = ''tron'' \<and> trimmed = [] then ''/'' else trimmed)
        in r\<lparr>rq_path := upstream\<rparr>))"

definition gateway_handler :: "proxy_env \<Rightarrow> string \<Rightarrow> Proxy \<Rightarrow> ServerRequest \<Rightarrow> Serving \<Rightarrow> Serving" where
  "gateway_handler env path p r s = ServeHTTP env p (handler_request env path p r) s"

datatype reply = Redirects string | Replies Serving

definition gateway_ServeHTTP :: "proxy_env \<Rightarrow> RPCGateway \<Rightarrow> ServerRequest \<Rightarrow> Serving \<Rightarrow> reply" where
  "gateway_ServeHTTP env g r s =
    (case mux_serve (gw_routes g) (rq_path r) of
       Redirect u \<Rightarrow> Redirects u
     | NotFound \<Rightarrow> Replies (s\<lparr>sv_writer := http_error ''404 page not found'' 404 (sv_writer s)\<rparr>)
     | Found path \<Rightarrow>
         (case map_of (gw_proxies g) path of
            Some p \<Rightarrow> Replies (gateway_handler env path p r s)
          | None \<Rightarrow> Replies s))"

section \<open>Starting and stopping\<close>

text \<open>\<open>listen\<close> is the outcome of listening on an address for a moment.\<close>

definition checkPortAvailability :: "(string \<Rightarrow> goerr option) \<Rightarrow> string \<Rightarrow> goerr option" where
  "checkPortAvailability listen port = (case listen ('':'' @ port) of
     Some err \<Rightarrow> Some (Wrap (''port '' @ port @ '' is not available: '') err)
   | None \<Rightarrow> None)"

definition isServerClosedError :: "goerr option \<Rightarrow> bool" where
  "isServerClosedError err = (case err of None \<Rightarrow> False | Some e \<Rightarrow> \<not> errors_is e ErrServerClosed)"

text \<open>Starting: the checkers whose goroutines are started, and whether the metrics server is.\<close>

definition gateway_Start :: "(string \<Rightarrow> goerr option) \<Rightarrow> RPCGateway \<Rightarrow> goerr + nat list \<times> bool" where
  "gateway_Start listen g =
    (let metrics = gc_Metrics (gw_config g) in
     case checkPortAvailability listen (gc_Port (gw_config g)) of
       Some err \<Rightarrow> Inl (Wrap ''rpc-gateway port not available: '' err)
     | None \<Rightarrow>
         (case (if IsEnabled metrics then checkPortAvailability listen (show_nat (unat (met_Port metrics))) else None) of
            Some err \<Rightarrow> Inl (Wrap ''metrics port not available: '' err)
          | None \<Rightarrow> Inr (concat (map (\<lambda>(path, hcm). manager_Start hcm) (gw_hcms g)), IsEnabled metrics)))"

text \<open>
  Stopping: the error messages that are logged when closing a server fails, and the world after waking
  all checkers. \<open>close\<close> and \<open>metricsClose\<close> are the outcomes of closing the two servers.
\<close>

definition log_close :: "string \<Rightarrow> goerr option \<Rightarrow> string list" where
  "log_close msg err = (if isServerClosedError err then [msg] else [])"

definition gateway_Stop :: "goerr option \<Rightarrow> goerr option \<Rightarrow> RPCGateway \<Rightarrow> World \<Rightarrow> string list \<times> World" where
  "gateway_Stop close metricsClose g w =
    (log_close ''error stopping rpc-gateway server'' close
       @ (if IsEnabled (gc_Metrics (gw_config g))
          then log_close ''error stopping metrics server'' (metrics_Stop metricsClose (gw_metrics g)) else []),
     fold (\<lambda>(path, hcm). manager_Stop hcm) (gw_hcms g) w)"

section \<open>main.go\<close>

record Flags =
  fl_config :: string
  fl_randomizeProviders :: bool
  fl_version :: bool

text \<open>
  What the program depends on: its name and version, the functions of the operating system and of the
  YAML package that it calls, the clock when providers are shuffled, and how the world changes from the start to the shutdown signal.
\<close>

record main_env =
  me_arg0 :: string
  me_Version :: string
  me_GitCommit :: string
  me_BuildTime :: string
  me_readFile :: "string \<Rightarrow> goerr + string"
  me_yaml :: "string \<Rightarrow> goerr + RPCGatewayConfig"
  me_listen :: "string \<Rightarrow> goerr option"
  me_seed :: "string \<Rightarrow> u64"
  me_flagSeed :: "string \<Rightarrow> u64"
  me_session :: "World \<Rightarrow> World"
  me_close :: "goerr option"
  me_metricsClose :: "goerr option"

datatype action =
    WriteStdout string | WriteStderr string | Exit int | Crash
  | Serve RPCGateway World "nat list" bool | Shutdown "string list" World

definition printVersion :: "main_env \<Rightarrow> action list" where
  "printVersion env =
    [WriteStdout (''rpcgateway v'' @ me_Version env @ '' (git: '' @ me_GitCommit env @ '', built: ''
       @ me_BuildTime env @ '')'' @ [CHR 0x0A]), Exit 0]"

definition writeError :: "string \<Rightarrow> action" where
  "writeError msg = WriteStderr (msg @ [CHR 0x0A])"

text \<open>The program after parsing its flags. A program that does not exit stops when it receives a signal.\<close>

definition main_program :: "main_env \<Rightarrow> Flags \<Rightarrow> World \<Rightarrow> action list" where
  "main_program env flags w =
    (if fl_version flags then printVersion env
     else if fl_config flags = [] then
       [writeError ''Error: --config flag is required'',
        writeError (''Usage: '' @ me_arg0 env @ '' --config <config-file> [--randomize-providers] [--version]''), Exit 1]
     else (case NewRPCGatewayFromConfigFile (me_readFile env) (me_yaml env) (fl_config flags) (me_seed env) w of
       Panics \<Rightarrow> [Crash]
     | Returns (Inl err) \<Rightarrow> [writeError (''error: '' @ err_text err), Exit 1]
     | Returns (Inr (service, w1)) \<Rightarrow>
         (let service1 = (if fl_randomizeProviders flags then SetRandomizeProviders (me_flagSeed env) True service
                          else service) in
          case gateway_Start (me_listen env) service1 of
            Inl err \<Rightarrow> [writeError (''error: '' @ err_text err), Exit 1]
          | Inr (checkers, metrics) \<Rightarrow>
              (let (logs, w2) = gateway_Stop (me_close env) (me_metricsClose env) service1 (me_session env w1)
               in [Serve service1 w1 checkers metrics, Shutdown logs w2]))))"

end
