(* ===== verification/GatewaySetup.thy ===== *)
theory GatewaySetup
  imports Gateway
begin

text \<open>
  What \<open>NewRPCGateway\<close> of \<open>internal/rpcgateway/rpcgateway.go\<close> builds: one proxy per path, wired to its own
  checkers, websocket proxies and client, whatever is built after it. When it fails, and when it panics.
\<close>

section \<open>Objects are only added\<close>

text \<open>A later world has the earlier objects unchanged, and possibly more; a client stays with its path.\<close>

definition grows :: "World \<Rightarrow> World \<Rightarrow> bool" where
  "grows w w' \<longleftrightarrow>
     length (w_checkers w) \<le> length (w_checkers w') \<and> length (w_wsProxies w) \<le> length (w_wsProxies w') \<and>
     (\<forall>c < length (w_checkers w). checker w' c = checker w c) \<and>
     (\<forall>q < length (w_wsProxies w). w_wsProxies w' ! q = w_wsProxies w ! q)"

lemma grows_refl: "grows w w"
  by (simp add: grows_def)

lemma grows_trans: "grows w w' \<Longrightarrow> grows w' w'' \<Longrightarrow> grows w w''"
  by (auto simp: grows_def)

lemma grows_wired: "grows w w' \<Longrightarrow> wired w n \<Longrightarrow> wired w' n"
  by (auto simp: grows_def wired_def split: option.splits)

lemma NewHealthCheckManager_grows: "grows w (snd (NewHealthCheckManager cfg w))"
proof -
  have "grows w (snd (add_checker cfg t c s))" if "grows w (snd s)" for t c s
    using that by (auto simp: grows_def add_checker_def nth_append Let_def split: prod.splits)
  then show ?thesis unfolding NewHealthCheckManager_def
    by (intro fold_keeps [where P = "\<lambda>s. grows w (snd s)"]) (simp_all add: grows_refl)
qed

lemma built_range:
  assumes "built cfg L F (hcm, w)" and "hcm_checkerMap hcm k = Some c"
  shows "L \<le> c"
proof -
  have "(k, c) \<in> set (zip (map conn_key F) [L..<L + length F])"
    using assms by (auto simp: built_def dest!: map_of_SomeD)
  then have "c \<in> set [L..<L + length F]" by (rule set_zip_rightD)
  then show ?thesis by simp
qed

lemma NewProxy_grows:
  assumes "NewProxy cfg w = (p, w')"
  shows "grows w w'"
proof -
  obtain hcm w1 client hw targets w2 where s:
    "NewHealthCheckManager cfg w = (hcm, w1)"
    "new_providers hcm (cfg_Timeout cfg) (cfg_Targets cfg) (w1\<lparr>w_http := hw\<rparr>) = (targets, w2)"
    "w' = SetWebSocketProxyReferences (ws_references targets) hcm w2"
    by (rule NewProxy_cases [OF assms])
  note b = NewHealthCheckManager_built [of cfg w, unfolded s(1)]
  have 1: "grows w w1" using NewHealthCheckManager_grows [of w cfg] s(1) by simp
  have 2: "w_checkers w2 = w_checkers w1" "\<exists>qs. w_wsProxies w2 = w_wsProxies w1 @ qs"
    using new_providers_spec [OF s(2)] by simp_all
  have "checker w' c = checker w2 c" if "c < length (w_checkers w)" for c
    unfolding s(3) using built_range [OF b] that by (intro SetRefs_other) (fastforce simp: ref_checker_def)
  with 1 2 show ?thesis by (auto simp: grows_def s(3) SetRefs_frames nth_append)
qed

section \<open>One proxy\<close>

lemma NewHealthCheckManager_fields:
  "hcm_path (fst (NewHealthCheckManager cfg w)) = cfg_Path cfg"
  "hcm_initialDelay (fst (NewHealthCheckManager cfg w)) = path_delay (cfg_PathIndex cfg)"
proof -
  have "hcm_path (fst (add_checker cfg t c s)) = hcm_path (fst s) \<and>
      hcm_initialDelay (fst (add_checker cfg t c s)) = hcm_initialDelay (fst s)" for t c s
    by (simp add: add_checker_def Let_def split: prod.split)
  then have "hcm_path (fst (NewHealthCheckManager cfg w)) = cfg_Path cfg \<and>
      hcm_initialDelay (fst (NewHealthCheckManager cfg w)) = path_delay (cfg_PathIndex cfg)"
    unfolding NewHealthCheckManager_def
    by (intro fold_keeps [where P = "\<lambda>s. hcm_path (fst s) = cfg_Path cfg \<and>
          hcm_initialDelay (fst s) = path_delay (cfg_PathIndex cfg)"]) simp_all
  then show "hcm_path (fst (NewHealthCheckManager cfg w)) = cfg_Path cfg"
    "hcm_initialDelay (fst (NewHealthCheckManager cfg w)) = path_delay (cfg_PathIndex cfg)" by simp_all
qed

text \<open>The client of a path, once created, stays the client of that path when another proxy is built.\<close>

lemma create_keeps_clients:
  assumes "http_wf hw" and "CreateOptimizedHTTPClient (''proxy-'' @ path) t hw = (c, hw')"
    and "path_client hw x = Some d"
  shows "path_client hw' x = Some d"
proof -
  have "factory_CreateOptimizedHTTPClient path t hw = (c, hw')"
    using assms(2) unfolding Create_path client_path_proxy .
  with paths.get_keeps [OF assms(1,3), of path t] show ?thesis by simp
qed

definition keeps_clients :: "World \<Rightarrow> World \<Rightarrow> bool" where
  "keeps_clients w w' \<longleftrightarrow> http_wf (w_http w') \<and>
     (\<forall>x d. path_client (w_http w) x = Some d \<longrightarrow> path_client (w_http w') x = Some d)"

lemma manager_keeps_clients:
  assumes "http_wf (w_http w)"
  shows "keeps_clients w (snd (NewHealthCheckManager cfg w))"
proof -
  have "keeps_clients w (snd (add_checker cfg t c s))" if k: "keeps_clients w (snd s)" for t c s
  proof (cases "fst c = []")
    case True
    with k show ?thesis by (cases s) (simp add: add_checker_def)
  next
    case False
    obtain hcm v where s: "s = (hcm, v)" by (cases s)
    obtain cl hw where cl: "CreateOptimizedHTTPClient (''proxy-'' @ cfg_Path cfg) (cfg_Timeout cfg) (w_http v) = (cl, hw)"
      by (cases "CreateOptimizedHTTPClient (''proxy-'' @ cfg_Path cfg) (cfg_Timeout cfg) (w_http v)")
    obtain h where "NewHealthChecker (checker_config cfg (hcm_initialDelay hcm) t c) (w_http v) = (h, hw)"
      using cl by (auto simp: NewHealthChecker_def checker_config_def Let_def)
    with False k create_keeps_clients [OF _ cl] path_client_create(1) [OF _ cl] show ?thesis
      by (simp add: s add_checker_def keeps_clients_def Let_def)
  qed
  with assms show ?thesis unfolding NewHealthCheckManager_def
    by (intro fold_keeps [where P = "\<lambda>s. keeps_clients w (snd s)"]) (simp_all add: keeps_clients_def)
qed

lemma NewProxy_keeps_clients:
  assumes "http_wf (w_http w)" and "NewProxy cfg w = (p, w')"
  shows "keeps_clients w w'" and "path_client (w_http w') (cfg_Path cfg) = Some (px_client p)"
proof -
  obtain hcm w1 client hw targets w2 where s:
    "NewHealthCheckManager cfg w = (hcm, w1)"
    "CreateOptimizedHTTPClient (''proxy-'' @ cfg_Path cfg) (cfg_Timeout cfg) (w_http w1) = (client, hw)"
    "new_providers hcm (cfg_Timeout cfg) (cfg_Targets cfg) (w1\<lparr>w_http := hw\<rparr>) = (targets, w2)"
    "px_client p = client" "w' = SetWebSocketProxyReferences (ws_references targets) hcm w2"
    by (rule NewProxy_cases [OF assms(2)])
  have http: "w_http w' = hw" using new_providers_spec [OF s(3)] by (simp add: s(5) SetRefs_frames)
  from manager_keeps_clients [OF assms(1), of cfg] s(1) have 1: "keeps_clients w w1" by simp
  then have wf: "http_wf (w_http w1)" by (simp add: keeps_clients_def)
  from 1 create_keeps_clients [OF wf s(2)] path_client_create(1) [OF wf s(2)]
  show "keeps_clients w w'" by (simp add: keeps_clients_def http)
  from path_client_create(2) [OF wf s(2)] s(4) http
  show "path_client (w_http w') (cfg_Path cfg) = Some (px_client p)" by simp
qed


text \<open>
  What holds of every new checker and survives the setting of callbacks, holds of all checkers when a
  proxy is built: they are made healthy, for one, and building a proxy taints none.
\<close>

lemma NewProxy_checkers:
  assumes "NewProxy cfg w = (p, w')" and "list_all Q (w_checkers w)"
    and "\<And>c hw. Q (fst (NewHealthChecker c hw))"
    and "\<And>n h. Q h \<Longrightarrow> Q (SetBlockNumberUpdateCallback n h)" and "\<And>q h. Q (SetBeforeTaintCallback q h) = Q h"
  shows "list_all Q (w_checkers w')"
proof -
  obtain hcm w1 client hw targets w2 where s:
    "NewHealthCheckManager cfg w = (hcm, w1)"
    "new_providers hcm (cfg_Timeout cfg) (cfg_Targets cfg) (w1\<lparr>w_http := hw\<rparr>) = (targets, w2)"
    "w' = SetWebSocketProxyReferences (ws_references targets) hcm w2"
    by (rule NewProxy_cases [OF assms(1)])
  have "list_all Q (w_checkers (snd (add_checker cfg t c s)))" if "list_all Q (w_checkers (snd s))" for t c s
    using that assms(3) [of "checker_config cfg (hcm_initialDelay (fst s)) t c" "w_http (snd s)"] assms(4)
    by (auto simp: add_checker_def Let_def split: prod.splits)
  then have "list_all Q (w_checkers (snd (NewHealthCheckManager cfg w)))"
    unfolding NewHealthCheckManager_def
    by (intro fold_keeps [where P = "\<lambda>s. list_all Q (w_checkers (snd s))"]) (simp_all add: assms(2))
  moreover have "w_checkers w2 = w_checkers w1" using new_providers_spec [OF s(2)] by simp
  moreover have "Q (checker w' c) = Q (checker w2 c)" for c
    unfolding s(3) by (rule SetRefs_fields) (rule assms(5))
  ultimately show ?thesis using s(1) by (simp add: list_all_length s(3) SetRefs_frames)
qed

definition all_healthy :: "World \<Rightarrow> bool" where
  "all_healthy w \<longleftrightarrow> list_all IsHealthy (w_checkers w)"

lemma NewProxy_healthy: "NewProxy cfg w = (p, w') \<Longrightarrow> all_healthy w \<Longrightarrow> all_healthy w'"
  unfolding all_healthy_def
  by (erule NewProxy_checkers)
     (auto simp: NewHealthChecker_def SetBlockNumberUpdateCallback_def SetBeforeTaintCallback_def IsHealthy_def
       IsTainted_def Let_def split: prod.splits)

text \<open>A proxy that was made for the i-th entry of the configuration, seen from a later world.\<close>

definition made_for :: "bool \<Rightarrow> int \<Rightarrow> ProxyConfig \<Rightarrow> World \<Rightarrow> Proxy \<Rightarrow> bool" where
  "made_for metrics i pc w p \<longleftrightarrow>
     map np_config (px_targets p) = pc_Targets pc \<and> list_all (wired w) (px_targets p) \<and>
     px_chainType p = pc_ChainType pc \<and> px_metricsEnabled p = metrics \<and>
     hcm_path (px_hcm p) = pc_Path pc \<and> hcm_initialDelay (px_hcm p) = path_delay i"

lemma made_for_grows: "made_for m i pc w p \<Longrightarrow> grows w w' \<Longrightarrow> made_for m i pc w' p"
  by (auto simp: made_for_def list_all_iff grows_wired)

definition distinct_names :: "ProxyConfig \<Rightarrow> bool" where
  "distinct_names pc \<longleftrightarrow> distinct (map npc_Name (pc_Targets pc))"

lemma NewProxy_made_for:
  assumes "NewProxy (proxy_config m i timeout pc) w = (p, w')" and "distinct_names pc"
  shows "made_for m i pc w' p"
proof -
  let ?cfg = "proxy_config m i timeout pc"
  have "px_chainType p = pc_ChainType pc" "px_metricsEnabled p = m"
    "px_hcm p = fst (NewHealthCheckManager ?cfg w)"
    by (rule NewProxy_cases [OF assms(1)], simp add: proxy_config_def)+
  with NewProxy_wired [OF assms(1)] assms(2) NewHealthCheckManager_fields [of ?cfg w] show ?thesis
    by (simp add: made_for_def distinct_names_def proxy_config_def)
qed

section \<open>All proxies\<close>

lemma map_put_new: "k \<notin> fst ` set m \<Longrightarrow> map_put k v m = m @ [(k, v)]"
  by (induction m) (auto simp: map_put_def)

lemma build_proxies_Cons:
  assumes "build_proxies m i (pc # pcs) ps w = Inr (ps', w')"
  obtains timeout p w1 where "ParseDuration (pc_Timeout pc) = Inr timeout"
    "NewProxy (proxy_config m i timeout pc) w = (p, w1)"
    "build_proxies m (i + 1) pcs (map_put (pc_Path pc) p ps) w1 = Inr (ps', w')"
  using assms by (auto split: sum.splits prod.splits)

lemma build_proxies_made:
  "build_proxies m i pcs ps w = Inr (ps', w') \<Longrightarrow> distinct (map fst ps @ map pc_Path pcs) \<Longrightarrow>
   list_all distinct_names pcs \<Longrightarrow>
   grows w w' \<and> (\<exists>qs. ps' = ps @ qs \<and> map fst qs = map pc_Path pcs \<and>
     (\<forall>j < length pcs. made_for m (i + int j) (pcs ! j) w' (snd (qs ! j))))"
proof (induction pcs arbitrary: i ps w)
  case (Cons pc pcs)
  obtain timeout p w1 where p: "NewProxy (proxy_config m i timeout pc) w = (p, w1)"
    and b: "build_proxies m (i + 1) pcs (map_put (pc_Path pc) p ps) w1 = Inr (ps', w')"
    by (rule build_proxies_Cons [OF Cons.prems(1)])
  have put: "map_put (pc_Path pc) p ps = ps @ [(pc_Path pc, p)]" using Cons.prems(2) by (simp add: map_put_new)
  from Cons.IH [OF b [unfolded put]] Cons.prems(2,3) obtain qs where
    qs: "grows w1 w'" "ps' = (ps @ [(pc_Path pc, p)]) @ qs" "map fst qs = map pc_Path pcs"
    "\<And>j. j < length pcs \<Longrightarrow> made_for m (i + 1 + int j) (pcs ! j) w' (snd (qs ! j))"
    by auto
  have "made_for m i pc w' p"
    using NewProxy_made_for [OF p] Cons.prems(3) made_for_grows [OF _ qs(1)] by simp
  then have "made_for m (i + int j) ((pc # pcs) ! j) w' (snd (((pc_Path pc, p) # qs) ! j))"
    if "j < length (pc # pcs)" for j
    using that qs(4) by (cases j) (simp_all add: algebra_simps)
  with qs(2,3) grows_trans [OF NewProxy_grows [OF p] qs(1)] show ?case
    by (intro conjI exI [of _ "(pc_Path pc, p) # qs"]) auto
qed (simp add: grows_refl)

definition own_clients :: "(string \<times> Proxy) list \<Rightarrow> World \<Rightarrow> bool" where
  "own_clients ps w \<longleftrightarrow> http_wf (w_http w) \<and>
     (\<forall>(path, p) \<in> set ps. path_client (w_http w) path = Some (px_client p))"

lemma build_proxies_clients:
  "build_proxies m i pcs ps w = Inr (ps', w') \<Longrightarrow> own_clients ps w \<Longrightarrow> own_clients ps' w'"
proof (induction pcs arbitrary: i ps w)
  case (Cons pc pcs)
  obtain timeout p w1 where p: "NewProxy (proxy_config m i timeout pc) w = (p, w1)"
    and b: "build_proxies m (i + 1) pcs (map_put (pc_Path pc) p ps) w1 = Inr (ps', w')"
    by (rule build_proxies_Cons [OF Cons.prems(1)])
  have wf: "http_wf (w_http w)" using Cons.prems(2) by (simp add: own_clients_def)
  have "own_clients (map_put (pc_Path pc) p ps) w1"
    using NewProxy_keeps_clients [OF wf p] Cons.prems(2)
    by (auto simp: own_clients_def keeps_clients_def map_put_def proxy_config_def)
  with Cons.IH [OF b] show ?case .
qed simp

text \<open>What every \<open>NewProxy\<close> keeps of the world is kept by the loop.\<close>

lemma build_proxies_keeps:
  assumes "build_proxies m i pcs ps w = Inr (ps', w')" and "I w"
    and "\<And>cfg w p w'. NewProxy cfg w = (p, w') \<Longrightarrow> I w \<Longrightarrow> I w'"
  shows "I w'"
  using assms(1,2)
proof (induction pcs arbitrary: i ps w)
  case (Cons pc pcs)
  show ?case
    by (rule build_proxies_Cons [OF Cons.prems(1)]) (use Cons assms(3) in blast)
qed simp

text \<open>The loop fails exactly when a timeout does not parse, with the error of the first such timeout.\<close>

fun first_bad_timeout :: "ProxyConfig list \<Rightarrow> goerr option" where
  "first_bad_timeout [] = None"
| "first_bad_timeout (pc # pcs) = (case ParseDuration (pc_Timeout pc) of
     Inl err \<Rightarrow> Some err | Inr t \<Rightarrow> first_bad_timeout pcs)"

lemma build_proxies_outcome:
  "case first_bad_timeout pcs of
     Some err \<Rightarrow> build_proxies m i pcs ps w = Inl (Wrap ''invalid timeout: '' err)
   | None \<Rightarrow> \<exists>ps' w'. build_proxies m i pcs ps w = Inr (ps', w') \<and>
       fst ` set ps' = fst ` set ps \<union> pc_Path ` set pcs \<and> (distinct (map fst ps) \<longrightarrow> distinct (map fst ps'))"
proof (induction m i pcs ps w rule: build_proxies.induct)
  case (2 m i pc pcs ps w)
  show ?case
  proof (cases "ParseDuration (pc_Timeout pc)")
    case (Inr t)
    obtain p w1 where p: "NewProxy (proxy_config m i t pc) w = (p, w1)"
      by (cases "NewProxy (proxy_config m i t pc) w")
    have "fst ` set (map_put (pc_Path pc) p ps) = insert (pc_Path pc) (fst ` set ps)"
      by (auto simp: map_put_def image_iff)
    with 2 [OF Inr p [symmetric] refl] Inr p map_put_distinct [of ps "pc_Path pc" p] show ?thesis
      by (auto split: option.splits)
  qed simp
qed simp

section \<open>Routes\<close>

text \<open>A path that is one segment without characters that mean something to the multiplexer.\<close>

definition plain_segment :: "string \<Rightarrow> bool" where
  "plain_segment path \<longleftrightarrow>
     path \<noteq> [] \<and> set path \<inter> {CHR ''/'', CHR ''{'', CHR ''}'', CHR ''%'', CHR '' '', CHR 0x09} = {}"

definition first_segment :: "string \<Rightarrow> string" where
  "first_segment path = takeWhile (\<lambda>c. c \<noteq> CHR ''/'') (drop 1 path)"

lemma first_segment_path:
  "CHR ''/'' \<notin> set path \<Longrightarrow> t = [] \<or> hd t = CHR ''/'' \<Longrightarrow> first_segment (CHR ''/'' # path @ t) = path"
  by (cases t) (auto simp: first_segment_def takeWhile_append2 takeWhile_tail)

lemma proxy_routes_segment:
  assumes "plain_segment (fst pp)" and "(k, h) \<in> set (proxy_routes pp)"
  shows "h = fst pp" and "first_segment k = fst pp" and "plain_pattern k"
  using assms first_segment_path [of "fst pp" "[]"] first_segment_path [of "fst pp" "''/''"]
    first_segment_path [of "fst pp" "''/*''"]
  by (auto simp: proxy_routes_def plain_segment_def plain_pattern_def Let_def split: if_splits)

lemma proxy_routes_distinct: "distinct (map fst (proxy_routes pp))"
  by (simp add: proxy_routes_def Let_def)

lemma routes_ok:
  assumes "list_all (plain_segment \<circ> fst) ps" and "distinct (map fst ps)"
  shows "mux_handle_all (concat (map proxy_routes ps)) [] = Some (concat (map proxy_routes ps))"
proof -
  have "distinct (map fst (concat (map proxy_routes ps)))"
    using assms
  proof (induction ps)
    case (Cons pp ps)
    have "first_segment k = fst pp" if "k \<in> fst ` set (proxy_routes pp)" for k
      using that Cons.prems(1) proxy_routes_segment(2) [of pp] by auto
    moreover have "first_segment k \<in> fst ` set ps" if "k \<in> fst ` set (concat (map proxy_routes ps))" for k
    proof -
      from that obtain qq h where qq: "qq \<in> set ps" "(k, h) \<in> set (proxy_routes qq)" by auto
      with Cons.prems(1) have "plain_segment (fst qq)" by (simp add: list_all_iff)
      from proxy_routes_segment(2) [OF this qq(2)] qq(1) show ?thesis by simp
    qed
    moreover have "fst pp \<notin> fst ` set ps" using Cons.prems(2) by simp
    ultimately have "fst ` set (proxy_routes pp) \<inter> fst ` set (concat (map proxy_routes ps)) = {}"
      by (metis (no_types, lifting) disjoint_iff)
    with Cons proxy_routes_distinct [of pp] show ?case by simp
  qed simp
  moreover have "list_all plain_pattern (map fst (concat (map proxy_routes ps)))"
    using assms(1) proxy_routes_segment(3) by (fastforce simp: list_all_iff)
  ultimately show ?thesis using mux_handle_all_distinct [of "concat (map proxy_routes ps)" "[]"] by simp
qed

section \<open>The gateway\<close>

text \<open>Randomizing keeps the paths, the clients, and every proxy but for the order of its providers.\<close>

lemma randomize_all_simps [simp]:
  "map fst (randomize_all seed ps) = map fst ps"
  "length (randomize_all seed ps) = length ps"
  by (simp_all add: randomize_all_def comp_def case_prod_beta)

lemma randomize_all_nth: "j < length ps \<Longrightarrow>
  randomize_all seed ps ! j = (fst (ps ! j), RandomizeProviders (seed (fst (ps ! j))) (snd (ps ! j)))"
  by (simp add: randomize_all_def case_prod_beta)

lemma RandomizeProviders_fields:
  "px_client (RandomizeProviders s p) = px_client p" "px_hcm (RandomizeProviders s p) = px_hcm p"
  "px_chainType (RandomizeProviders s p) = px_chainType p"
  "px_metricsEnabled (RandomizeProviders s p) = px_metricsEnabled p"
  by (simp_all add: RandomizeProviders_def)

lemma NewRPCGateway_cases:
  assumes "NewRPCGateway config seed w = Returns (Inr (g, w'))"
  obtains ps where "build_proxies (IsEnabled (gc_Metrics config)) 0 (gc_Proxies config) [] w = Inr (ps, w')"
    "gw_proxies g = (if gc_RandomizeProviders config then randomize_all seed ps else ps)"
    "gw_hcms g = map (\<lambda>(path, p). (path, GetHealthCheckManager p)) (gw_proxies g)"
    "mux_handle_all (concat (map proxy_routes (gw_proxies g))) [] = Some (gw_routes g)"
    "gw_config g = config"
  using assms by (auto simp: NewRPCGateway_def Let_def split: sum.splits option.splits prod.splits)

lemma NewRPCGateway_paths:
  assumes "NewRPCGateway config seed w = Returns (Inr (g, w'))"
  shows "fst ` set (gw_proxies g) = pc_Path ` set (gc_Proxies config)" and "distinct (map fst (gw_proxies g))"
proof -
  obtain ps where b: "build_proxies (IsEnabled (gc_Metrics config)) 0 (gc_Proxies config) [] w = Inr (ps, w')"
    and g: "gw_proxies g = (if gc_RandomizeProviders config then randomize_all seed ps else ps)"
    by (rule NewRPCGateway_cases [OF assms])
  have m: "map fst (gw_proxies g) = map fst ps" by (simp add: g)
  have "fst ` set ps = pc_Path ` set (gc_Proxies config)" "distinct (map fst ps)"
    using build_proxies_outcome [of "IsEnabled (gc_Metrics config)" 0 "gc_Proxies config" "[]" w] b
    by (auto split: option.splits)
  with m show "fst ` set (gw_proxies g) = pc_Path ` set (gc_Proxies config)" "distinct (map fst (gw_proxies g))"
    by (simp_all flip: set_map)
qed

lemma NewRPCGateway_outcome:
  assumes "list_all (plain_segment \<circ> pc_Path) (gc_Proxies config)"
  shows "case first_bad_timeout (gc_Proxies config) of
     Some err \<Rightarrow> NewRPCGateway config seed w = Returns (Inl (Wrap ''invalid timeout: '' err))
   | None \<Rightarrow> \<exists>g w'. NewRPCGateway config seed w = Returns (Inr (g, w')) \<and>
       fst ` set (gw_proxies g) = pc_Path ` set (gc_Proxies config) \<and> distinct (map fst (gw_proxies g))"
proof (cases "first_bad_timeout (gc_Proxies config)")
  case (Some err)
  with build_proxies_outcome [of "IsEnabled (gc_Metrics config)" 0 "gc_Proxies config" "[]" w] show ?thesis
    by (simp add: NewRPCGateway_def)
next
  case None
  with build_proxies_outcome [of "IsEnabled (gc_Metrics config)" 0 "gc_Proxies config" "[]" w] obtain ps w' where
    b: "build_proxies (IsEnabled (gc_Metrics config)) 0 (gc_Proxies config) [] w = Inr (ps, w')"
    "fst ` set ps = pc_Path ` set (gc_Proxies config)" "distinct (map fst ps)" by auto
  let ?ps = "if gc_RandomizeProviders config then randomize_all seed ps else ps"
  have m: "map fst ?ps = map fst ps" by simp
  then have "fst ` set ?ps = pc_Path ` set (gc_Proxies config)" unfolding b(2) [symmetric] by (metis set_map)
  then have "\<forall>k \<in> fst ` set ?ps. plain_segment k" using assms by (simp add: list_all_iff)
  then have "list_all (plain_segment \<circ> fst) ?ps" unfolding list_all_iff comp_def by blast
  moreover have "distinct (map fst ?ps)" using m b(3) by metis
  ultimately have "mux_handle_all (concat (map proxy_routes ?ps)) [] = Some (concat (map proxy_routes ?ps))"
    by (rule routes_ok)
  with b have "\<exists>g w'. NewRPCGateway config seed w = Returns (Inr (g, w'))" by (simp add: NewRPCGateway_def Let_def)
  with None NewRPCGateway_paths [of config seed w] show ?thesis by auto
qed

text \<open>
  C21. Building the gateway never panics when every path is a plain segment: it fails exactly
  when the timeout of an entry does not parse, with the first such error, and otherwise has one proxy for every
  configured path, even when entries share a path.
\<close>

theorem building_the_gateway:
  assumes "list_all (plain_segment \<circ> pc_Path) (gc_Proxies config)"
  shows "case first_bad_timeout (gc_Proxies config) of
     Some err \<Rightarrow> NewRPCGateway config seed w = Returns (Inl (Wrap ''invalid timeout: '' err))
   | None \<Rightarrow> \<exists>g w'. NewRPCGateway config seed w = Returns (Inr (g, w')) \<and>
       fst ` set (gw_proxies g) = pc_Path ` set (gc_Proxies config) \<and> distinct (map fst (gw_proxies g))"
  by (rule NewRPCGateway_outcome [OF assms])

lemma randomize_mset:
  "length (px_targets p) \<le> 2 ^ 63 \<Longrightarrow> mset (px_targets (RandomizeProviders s p)) = mset (px_targets p)"
  by (cases "px_targets p") (simp_all add: RandomizeProviders_def shuffle_mset)

text \<open>The proxy of the j-th entry in the finished gateway; \<open>shuffled\<close> tells that its providers may be in another order.\<close>

definition entry_made :: "bool \<Rightarrow> nat \<Rightarrow> ProxyConfig \<Rightarrow> World \<Rightarrow> Proxy \<Rightarrow> bool" where
  "entry_made shuffled j pc w p \<longleftrightarrow>
     mset (map np_config (px_targets p)) = mset (pc_Targets pc) \<and>
     (shuffled \<or> map np_config (px_targets p) = pc_Targets pc) \<and>
     list_all (wired w) (px_targets p) \<and> px_chainType p = pc_ChainType pc \<and>
     hcm_path (px_hcm p) = pc_Path pc \<and> hcm_initialDelay (px_hcm p) = path_delay (int j)"

lemma NewRPCGateway_entry:
  assumes "NewRPCGateway config seed w = Returns (Inr (g, w'))"
    and "distinct (map pc_Path (gc_Proxies config))" and "list_all distinct_names (gc_Proxies config)"
    and "j < length (gc_Proxies config)" and "gc_RandomizeProviders config \<Longrightarrow> length (pc_Targets (gc_Proxies config ! j)) \<le> 2 ^ 63"
  shows "map fst (gw_proxies g) = map pc_Path (gc_Proxies config) \<and>
    entry_made (gc_RandomizeProviders config) j (gc_Proxies config ! j) w' (snd (gw_proxies g ! j))"
proof -
  obtain ps where b: "build_proxies (IsEnabled (gc_Metrics config)) 0 (gc_Proxies config) [] w = Inr (ps, w')"
    and g: "gw_proxies g = (if gc_RandomizeProviders config then randomize_all seed ps else ps)"
    by (rule NewRPCGateway_cases [OF assms(1)])
  from build_proxies_made [OF b] assms(2,3) have
    paths: "map fst ps = map pc_Path (gc_Proxies config)" and
    made: "made_for (IsEnabled (gc_Metrics config)) (int j) (gc_Proxies config ! j) w' (snd (ps ! j))"
    using assms(4) by auto
  have j: "j < length ps" using paths assms(4) by (metis length_map)
  let ?p = "snd (ps ! j)" and ?q = "snd (gw_proxies g ! j)"
  have len: "length (px_targets ?p) \<le> 2 ^ 63" if "gc_RandomizeProviders config"
    using made assms(5) [OF that] by (metis length_map made_for_def)
  have q: "?q = (if gc_RandomizeProviders config then RandomizeProviders (seed (fst (ps ! j))) ?p else ?p)"
    using j by (simp add: g randomize_all_nth)
  then have ms: "mset (px_targets ?q) = mset (px_targets ?p)" using randomize_mset len by simp
  then have "mset (map np_config (px_targets ?q)) = mset (map np_config (px_targets ?p))" by simp
  then have "mset (map np_config (px_targets ?q)) = mset (pc_Targets (gc_Proxies config ! j))"
    using made by (simp only: made_for_def)
  moreover have "list_all (wired w') (px_targets ?q)"
    using ms made by (metis list_all_iff made_for_def set_mset_mset)
  moreover have "gc_RandomizeProviders config \<or> map np_config (px_targets ?q) = pc_Targets (gc_Proxies config ! j)"
    using made by (simp add: q made_for_def)
  moreover have "px_chainType ?q = px_chainType ?p" "px_hcm ?q = px_hcm ?p"
    by (simp_all add: q RandomizeProviders_fields)
  moreover have "map fst (gw_proxies g) = map fst ps" by (simp add: g)
  ultimately show ?thesis using made paths by (simp only: made_for_def entry_made_def)
qed

text \<open>
  C10. The gateway has one proxy per entry of its configuration, in order, when paths and provider names
  are distinct. In the finished gateway, after all other proxies were built and shuffled, the proxy of an entry has
  exactly the providers of that entry, in the configured order unless they are shuffled; each is wired to its own
  checkers and websocket proxy; and the health checks of the i-th entry are staggered by i.
\<close>

theorem gateway_is_wired:
  assumes "NewRPCGateway config seed w = Returns (Inr (g, w'))"
    and "distinct (map pc_Path (gc_Proxies config))" and "list_all distinct_names (gc_Proxies config)"
    and "j < length (gc_Proxies config)" and "gc_RandomizeProviders config \<Longrightarrow> length (pc_Targets (gc_Proxies config ! j)) \<le> 2 ^ 63"
  shows "map fst (gw_proxies g) = map pc_Path (gc_Proxies config) \<and>
    (let pc = gc_Proxies config ! j; p = snd (gw_proxies g ! j) in
     mset (map np_config (px_targets p)) = mset (pc_Targets pc) \<and>
     (gc_RandomizeProviders config \<or> map np_config (px_targets p) = pc_Targets pc) \<and>
     list_all (wired w') (px_targets p) \<and> px_chainType p = pc_ChainType pc \<and>
     hcm_path (px_hcm p) = pc_Path pc \<and> hcm_initialDelay (px_hcm p) = path_delay (int j))"
  using NewRPCGateway_entry [OF assms] by (simp only: entry_made_def Let_def)

text \<open>
  C22. Paths are isolated: the proxies of two different paths send their requests through different HTTP clients,
  and so never share a connection pool.
\<close>

theorem paths_have_own_clients:
  assumes "http_wf (w_http w)" and "NewRPCGateway config seed w = Returns (Inr (g, w'))"
    and "(path, p) \<in> set (gw_proxies g)" and "(path', p') \<in> set (gw_proxies g)" and "path \<noteq> path'"
  shows "px_client p \<noteq> px_client p'"
proof -
  obtain ps where b: "build_proxies (IsEnabled (gc_Metrics config)) 0 (gc_Proxies config) [] w = Inr (ps, w')"
    and g: "gw_proxies g = (if gc_RandomizeProviders config then randomize_all seed ps else ps)"
    by (rule NewRPCGateway_cases [OF assms(2)])
  have own: "own_clients ps w'"
    by (rule build_proxies_clients [OF b]) (simp add: own_clients_def assms(1))
  have "path_client (w_http w') x = Some (px_client q)" if "(x, q) \<in> set (gw_proxies g)" for x q
    using that own by (auto simp: g own_clients_def randomize_all_def RandomizeProviders_fields split: if_splits)
  with own paths.ok_inj assms(3-5) show ?thesis by (metis own_clients_def)
qed

end
