(* ===== verification/GatewayServe.thy ===== *)
theory GatewayServe
  imports GatewaySetup
begin

text \<open>
  Requests to the finished gateway of \<open>internal/rpcgateway/rpcgateway.go\<close>: which proxy serves them and with
  which path, and how a new gateway answers.
\<close>

section \<open>Routing\<close>

lemma mux_handle_all_result: "mux_handle_all ps mux = Some routes \<Longrightarrow> routes = mux @ ps"
proof (induction ps arbitrary: mux)
  case (Cons p ps)
  from Cons.IH [of "mux @ [p]"] Cons.prems show ?case
    by (cases p) (auto simp: mux_handle_def bind_eq_Some_conv split: if_splits)
qed simp

text \<open>The routes that can match a path are routes of its first segment.\<close>

lemma route_segment:
  assumes "list_all (plain_segment \<circ> fst) ps" and "(k, h) \<in> set (concat (map proxy_routes ps))"
  shows "h \<in> fst ` set ps" and "first_segment k = h" and "plain_pattern k"
proof -
  obtain pp where pp: "pp \<in> set ps" "(k, h) \<in> set (proxy_routes pp)" using assms(2) by auto
  with assms(1) have "plain_segment (fst pp)" by (simp add: list_all_iff)
  from proxy_routes_segment [OF this pp(2)] pp(1) show "h \<in> fst ` set ps" "first_segment k = h" "plain_pattern k"
    by auto
qed

lemma takeWhile_before: "takeWhile P (xs @ y # ys) = takeWhile P (xs @ y # zs)" if "\<not> P y"
  using that by (induction xs) auto

lemma subtree_segment:
  assumes "last k = CHR ''/''" and "length k > 1" and "cut_prefix path k = Some t"
  shows "first_segment path = first_segment k"
proof -
  obtain k' where k: "k = k' @ ''/''" using assms(1,2) by (metis append_butlast_last_id list.size(3) not_one_less_zero)
  with assms(2) obtain c k'' where "k' = c # k''" by (cases k') auto
  with k assms(3) takeWhile_before [of "\<lambda>c. c \<noteq> CHR ''/''" "CHR ''/''" k'' t "[]"] show ?thesis
    by (simp add: first_segment_def cut_prefix_Some_iff)
qed

lemma routes_of_path:
  assumes "list_all (plain_segment \<circ> fst) ps" and "(k, h) \<in> set (concat (map proxy_routes ps))"
    and "k = path \<or> last k = CHR ''/'' \<and> cut_prefix path k \<noteq> None"
  shows "h = first_segment path"
proof -
  note seg = route_segment [OF assms(1,2)]
  have "h \<noteq> []" using seg(1) assms(1) by (auto simp: list_all_iff plain_segment_def)
  then have "length k > 1" using seg(2) by (auto simp: first_segment_def) (metis drop_Suc_Cons length_0_conv
      length_drop list.size(3) neq0_conv takeWhile.simps(1) zero_less_diff One_nat_def)
  with seg(2) subtree_segment [of k path] assms(3) show ?thesis by auto
qed


lemma path_routes:
  assumes "path \<in> fst ` set ps"
  shows "(''/'' @ path, path) \<in> set (concat (map proxy_routes ps))"
    and "(''/'' @ path @ ''/'', path) \<in> set (concat (map proxy_routes ps))"
proof -
  obtain pp where "pp \<in> set ps" "fst pp = path" using assms by auto
  then show "(''/'' @ path, path) \<in> set (concat (map proxy_routes ps))"
    "(''/'' @ path @ ''/'', path) \<in> set (concat (map proxy_routes ps))"
    by (auto simp: proxy_routes_def Let_def intro!: bexI [of _ pp])
qed

lemma fst_image:
  assumes "k \<in> fst ` A"
  obtains h where "(k, h) \<in> A"
  using assms by force

lemma route_serves:
  assumes "list_all (plain_segment \<circ> fst) ps" and "path \<in> fst ` set ps"
    and "suffix = [] \<or> hd suffix = CHR ''/''" and "clean_path (''/'' @ path @ suffix) = ''/'' @ path @ suffix"
  shows "mux_serve (concat (map proxy_routes ps)) (''/'' @ path @ suffix) = Found path"
proof (rule mux_serve_unique [OF assms(4)])
  let ?mux = "concat (map proxy_routes ps)" and ?p = "''/'' @ path @ suffix"
  have plain: "plain_segment path" using assms(1,2) by (auto simp: list_all_iff)
  then have seg: "first_segment ?p = path"
    using first_segment_path [of path suffix] assms(3) by (simp add: plain_segment_def)
  show "h' = path" if "(k, h') \<in> set ?mux" "k = ?p \<or> last k = CHR ''/'' \<and> cut_prefix ?p k \<noteq> None" for k h'
    using routes_of_path [OF assms(1) that] seg by simp
  have exact: "(?p, path) \<in> set (exact_patterns ?mux)" if "suffix = []"
    using that path_routes(1) [OF assms(2)] plain
    by (auto simp: exact_patterns_def plain_segment_def dest: last_in_set)
  have "?p @ ''/'' \<notin> fst ` set ?mux" if "suffix \<noteq> []"
  proof
    assume "?p @ ''/'' \<in> fst ` set ?mux"
    then obtain h where h: "(?p @ ''/'', h) \<in> set ?mux" by (rule fst_image)
    from that assms(3) obtain t where t: "suffix = CHR ''/'' # t" by (cases suffix) auto
    have "(?p @ ''/'', h) \<in> set (concat (map proxy_routes ps)) \<Longrightarrow> \<exists>pp \<in> set ps. \<exists>e \<in> {[], ''/'', ''/*''}. ?p @ ''/'' = ''/'' @ fst pp @ e"
      by (auto simp: proxy_routes_def Let_def split: if_splits)
    with h obtain pp e where pp: "pp \<in> set ps" "e \<in> {[], ''/'', ''/*''}" "?p @ ''/'' = ''/'' @ fst pp @ e" by blast
    with assms(1) have q: "CHR ''/'' \<notin> set (fst pp)" by (auto simp: list_all_iff plain_segment_def)
    from pp(3) t have eq: "path @ CHR ''/'' # t @ ''/'' = fst pp @ e" by simp
    have "takeWhile (\<lambda>c. c \<noteq> CHR ''/'') (fst pp @ e) = fst pp"
      using q pp(2) by (auto simp: takeWhile_append2 takeWhile_tail)
    moreover have "takeWhile (\<lambda>c. c \<noteq> CHR ''/'') (path @ CHR ''/'' # t @ ''/'') = path"
      using plain by (auto simp: takeWhile_tail plain_segment_def)
    ultimately have "fst pp = path" using eq by simp
    with eq pp(2) show False by auto
  qed
  with exact show "(?p, path) \<in> set (exact_patterns ?mux) \<or> ?p @ ''/'' \<notin> fst ` set ?mux" by blast
  have "(''/'' @ path @ ''/'', path) \<in> set (subtree_patterns ?p ?mux)" if "suffix \<noteq> []"
    using that assms(3) path_routes(2) [OF assms(2)]
    by (cases suffix) (auto simp: subtree_patterns_def cut_prefix_Some_iff)
  with exact show "(?p, path) \<in> set (exact_patterns ?mux) \<or> subtree_patterns ?p ?mux \<noteq> []" by fastforce
qed

lemma route_missing:
  assumes "list_all (plain_segment \<circ> fst) ps" and "path \<notin> fst ` set ps" and "CHR ''/'' \<notin> set path"
    and "suffix = [] \<or> hd suffix = CHR ''/''" and "clean_path (''/'' @ path @ suffix) = ''/'' @ path @ suffix"
  shows "mux_serve (concat (map proxy_routes ps)) (''/'' @ path @ suffix) = NotFound"
proof (rule mux_serve_missing [OF assms(5)])
  let ?p = "''/'' @ path @ suffix"
  fix k h
  assume kh: "(k, h) \<in> set (concat (map proxy_routes ps))"
  have seg: "first_segment ?p = path" "first_segment (?p @ ''/'') = path"
    using first_segment_path [OF assms(3), of suffix] first_segment_path [OF assms(3), of "suffix @ ''/''"] assms(4)
    by (cases suffix; simp)+
  have "h \<noteq> path" using route_segment(1) [OF assms(1) kh] assms(2) by auto
  with routes_of_path [OF assms(1) kh, of ?p] routes_of_path [OF assms(1) kh, of "?p @ ''/''"] seg
  show "k \<noteq> ?p \<and> k \<noteq> ?p @ ''/'' \<and> \<not> (last k = CHR ''/'' \<and> cut_prefix ?p k \<noteq> None)" by blast
qed

text \<open>The proxies of a gateway that was built, and its routes.\<close>

lemma gateway_routes:
  assumes "NewRPCGateway config seed w = Returns (Inr (g, w'))"
    and "list_all (plain_segment \<circ> pc_Path) (gc_Proxies config)"
  shows "list_all (plain_segment \<circ> fst) (gw_proxies g)"
    and "gw_routes g = concat (map proxy_routes (gw_proxies g))"
proof -
  have "\<forall>k \<in> fst ` set (gw_proxies g). plain_segment k"
    using NewRPCGateway_paths(1) [OF assms(1)] assms(2) by (simp add: list_all_iff)
  then show "list_all (plain_segment \<circ> fst) (gw_proxies g)" unfolding list_all_iff comp_def by blast
  show "gw_routes g = concat (map proxy_routes (gw_proxies g))"
    by (rule NewRPCGateway_cases [OF assms(1)]) (drule mux_handle_all_result, simp)
qed

text \<open>What the proxy of a path is asked, when the rest of the request path is \<open>suffix\<close>.\<close>

definition routed_request :: "proxy_env \<Rightarrow> Proxy \<Rightarrow> string \<Rightarrow> ServerRequest \<Rightarrow> ServerRequest" where
  "routed_request env p suffix r =
    (if pr_isWebSocketUpgrade env r then r
     else r\<lparr>rq_path := if px_chainType p = ''tron'' \<and> suffix = [] then ''/'' else suffix\<rparr>)"

lemma gateway_finds:
  assumes "NewRPCGateway config seed w = Returns (Inr (g, w'))"
    and "list_all (plain_segment \<circ> pc_Path) (gc_Proxies config)" and "(path, p) \<in> set (gw_proxies g)"
    and "rq_path r = ''/'' @ path @ suffix" and "suffix = [] \<or> hd suffix = CHR ''/''"
    and "clean_path (rq_path r) = rq_path r"
  shows "mux_serve (gw_routes g) (rq_path r) = Found path" and "map_of (gw_proxies g) path = Some p"
    and "handler_request env path p r = routed_request env p suffix r"
proof -
  have "path \<in> fst ` set (gw_proxies g)" using assms(3) by force
  with route_serves [OF gateway_routes(1) [OF assms(1,2)], of path suffix] assms(4-6) gateway_routes(2) [OF assms(1,2)]
  show "mux_serve (gw_routes g) (rq_path r) = Found path" by simp
  show "map_of (gw_proxies g) path = Some p"
    using NewRPCGateway_paths(2) [OF assms(1)] assms(3) by (rule map_of_is_SomeI)
  show "handler_request env path p r = routed_request env p suffix r"
    using trim_prefix_append [of "''/'' @ path" suffix] assms(4)
    by (simp add: handler_request_def routed_request_def GetChainType_def Let_def)
qed

lemma gateway_serves:
  assumes "NewRPCGateway config seed w = Returns (Inr (g, w'))"
    and "list_all (plain_segment \<circ> pc_Path) (gc_Proxies config)" and "(path, p) \<in> set (gw_proxies g)"
    and "rq_path r = ''/'' @ path @ suffix" and "suffix = [] \<or> hd suffix = CHR ''/''"
    and "clean_path (rq_path r) = rq_path r"
  shows "gateway_ServeHTTP env g r s = Replies (ServeHTTP env p (routed_request env p suffix r) s)"
  using gateway_finds [OF assms] by (simp add: gateway_ServeHTTP_def gateway_handler_def)

text \<open>
  C13. A request whose first path segment is configured reaches exactly the proxy of that segment, whatever other
  paths are configured (a path may be a prefix of another), with the segment removed; Tron requests for the bare
  path get a slash, and websocket requests keep their path.
\<close>

theorem request_reaches_its_proxy:
  assumes "NewRPCGateway config seed w = Returns (Inr (g, w'))"
    and "list_all (plain_segment \<circ> pc_Path) (gc_Proxies config)" and "pc \<in> set (gc_Proxies config)"
    and "rq_path r = ''/'' @ pc_Path pc @ suffix" and "suffix = [] \<or> hd suffix = CHR ''/''"
    and "clean_path (rq_path r) = rq_path r"
  shows "\<exists>p. (pc_Path pc, p) \<in> set (gw_proxies g) \<and>
    gateway_ServeHTTP env g r s = Replies (ServeHTTP env p (routed_request env p suffix r) s)"
proof -
  have "pc_Path pc \<in> fst ` set (gw_proxies g)" using NewRPCGateway_paths(1) [OF assms(1)] assms(3) by simp
  then obtain p where "(pc_Path pc, p) \<in> set (gw_proxies g)" by force
  with gateway_serves [OF assms(1,2) _ assms(4-6)] show ?thesis by blast
qed

text \<open>
  C33. A request whose first path segment is not configured is answered with status 404 and reaches no provider.
\<close>

theorem unknown_path_is_not_found:
  assumes "NewRPCGateway config seed w = Returns (Inr (g, w'))"
    and "list_all (plain_segment \<circ> pc_Path) (gc_Proxies config)"
    and "segment \<notin> pc_Path ` set (gc_Proxies config)" and "CHR ''/'' \<notin> set segment"
    and "rq_path r = ''/'' @ segment @ suffix" and "suffix = [] \<or> hd suffix = CHR ''/''"
    and "clean_path (rq_path r) = rq_path r" and "fresh_writer (sv_writer s)"
  shows "\<exists>s'. gateway_ServeHTTP env g r s = Replies s' \<and> map_option fst (rw_sent (sv_writer s')) = Some 404 \<and>
    sv_world s' = sv_world s \<and> sv_sent s' = sv_sent s"
proof -
  have "mux_serve (gw_routes g) (rq_path r) = NotFound"
    using route_missing [OF gateway_routes(1) [OF assms(1,2)] _ assms(4,6)] assms(3,5,7)
      NewRPCGateway_paths(1) [OF assms(1)] gateway_routes(2) [OF assms(1,2)] by simp
  with assms(8) show ?thesis
    by (simp add: gateway_ServeHTTP_def http_error_def fresh_writer_def world_simps del: map_option_eq_Some)
qed

section \<open>The metrics server\<close>

text \<open>An enabled metrics server serves \<open>/metrics\<close> and \<open>/healthz\<close>; there is no route for \<open>/\<close>.\<close>

lemma metrics_routes:
  assumes "IsEnabled config"
  shows "mux_serve (ms_routes (metrics_NewServer config)) ''/metrics'' = Found Prometheus"
    and "mux_serve (ms_routes (metrics_NewServer config)) ''/healthz'' = Found Healthz"
    and "mux_serve (ms_routes (metrics_NewServer config)) ''/'' = NotFound"
proof -
  have clean: "clean_path ''/metrics'' = ''/metrics''" "clean_path ''/healthz'' = ''/healthz''" "clean_path ''/'' = ''/''"
    by code_simp+
  show "mux_serve (ms_routes (metrics_NewServer config)) ''/metrics'' = Found Prometheus"
    "mux_serve (ms_routes (metrics_NewServer config)) ''/healthz'' = Found Healthz"
    "mux_serve (ms_routes (metrics_NewServer config)) ''/'' = NotFound"
    using assms by (simp_all add: metrics_NewServer_def mux_serve_def exact_patterns_def subtree_patterns_def clean Let_def)
qed

section \<open>A sample gateway\<close>

text \<open>Two paths, one a prefix of the other; the second is a Tron chain.\<close>

definition sample_gateway_config :: RPCGatewayConfig where
  "sample_gateway_config = \<lparr>gc_Metrics = \<lparr>met_Port = 0\<rparr>, gc_Port = ''4000'', gc_RandomizeProviders = False,
     gc_Proxies =
       [\<lparr>pc_Path = ''eth'', pc_ChainType = [], pc_Timeout = ''5s'',
         pc_HealthChecks = \<lparr>hcc_Interval = 5 * second, hcc_BlockDiffThreshold = 2\<rparr>,
         pc_Targets = [mk_target ''a'' ''https://a'' [] ''wss://a'', mk_target ''b'' ''https://b'' [] []]\<rparr>,
        \<lparr>pc_Path = ''e'', pc_ChainType = ''tron'', pc_Timeout = ''500ms'',
         pc_HealthChecks = \<lparr>hcc_Interval = 5 * second, hcc_BlockDiffThreshold = 2\<rparr>,
         pc_Targets = [mk_target ''t'' ''https://t'' [] []]\<rparr>]\<rparr>"

lemma sample_timeouts: "ParseDuration ''5s'' = Inr (5 * second)" "ParseDuration ''500ms'' = Inr (500 * millisecond)"
  by (simp_all add: ParseDuration_def duration_sum.simps duration_term_def unit_map_def digit_val_def is_digit_def Let_def)

lemma sample_paths_plain: "list_all (plain_segment \<circ> pc_Path) (gc_Proxies sample_gateway_config)"
  by (simp add: sample_gateway_config_def plain_segment_def)

lemma sample_timeouts_ok: "first_bad_timeout (gc_Proxies sample_gateway_config) = None"
  by (simp add: sample_gateway_config_def sample_timeouts)

lemma sample_paths_distinct:
  "distinct (map pc_Path (gc_Proxies sample_gateway_config))"
  "list_all distinct_names (gc_Proxies sample_gateway_config)"
  by (simp_all add: sample_gateway_config_def distinct_names_def mk_target_def)

lemma sample_gateway_built:
  obtains g w' where "NewRPCGateway sample_gateway_config (\<lambda>p. 0) empty_world = Returns (Inr (g, w'))"
    "map fst (gw_proxies g) = [''eth'', ''e'']"
proof -
  obtain g w' where b: "NewRPCGateway sample_gateway_config (\<lambda>p. 0) empty_world = Returns (Inr (g, w'))"
    using NewRPCGateway_outcome [OF sample_paths_plain, of "\<lambda>p. 0" empty_world] sample_timeouts_ok by auto
  obtain ps where "build_proxies (IsEnabled (gc_Metrics sample_gateway_config)) 0 (gc_Proxies sample_gateway_config)
      [] empty_world = Inr (ps, w')" "gw_proxies g = ps"
    by (rule NewRPCGateway_cases [OF b]) (simp add: sample_gateway_config_def)
  with build_proxies_made [of _ 0 "gc_Proxies sample_gateway_config" "[]"] sample_paths_distinct
  have "map fst (gw_proxies g) = map pc_Path (gc_Proxies sample_gateway_config)" by fastforce
  with b that show thesis by (simp add: sample_gateway_config_def)
qed

theorem request_reaches_its_proxy_witness:
  "\<exists>g w' p. NewRPCGateway sample_gateway_config (\<lambda>p. 0) empty_world = Returns (Inr (g, w')) \<and>
    (''e'', p) \<in> set (gw_proxies g) \<and>
    gateway_ServeHTTP (sample_env (\<lambda>k. unreachable)) g (sample_request\<lparr>rq_path := ''/e/wallet''\<rparr>) (sample_serving None) =
      Replies (ServeHTTP (sample_env (\<lambda>k. unreachable)) p (sample_request\<lparr>rq_path := ''/wallet''\<rparr>) (sample_serving None))"
proof -
  obtain g w' where b: "NewRPCGateway sample_gateway_config (\<lambda>p. 0) empty_world = Returns (Inr (g, w'))"
    by (rule sample_gateway_built)
  have clean: "clean_path ''/e/wallet'' = ''/e/wallet''" by code_simp
  let ?pc = "gc_Proxies sample_gateway_config ! 1"
  have pc: "?pc \<in> set (gc_Proxies sample_gateway_config)" "pc_Path ?pc = ''e''"
    by (simp_all add: sample_gateway_config_def)
  from request_reaches_its_proxy [OF b sample_paths_plain pc(1), where suffix = "''/wallet''"
      and r = "sample_request\<lparr>rq_path := ''/e/wallet''\<rparr>" and env = "sample_env (\<lambda>k. unreachable)"
      and s = "sample_serving None"] b clean pc(2) show ?thesis
    by (auto simp: routed_request_def)
qed

theorem unknown_path_is_not_found_witness:
  "\<exists>g w' s'. NewRPCGateway sample_gateway_config (\<lambda>p. 0) empty_world = Returns (Inr (g, w')) \<and>
    gateway_ServeHTTP (sample_env (\<lambda>k. unreachable)) g (sample_request\<lparr>rq_path := ''/et''\<rparr>) (sample_serving None) =
      Replies s' \<and> map_option fst (rw_sent (sv_writer s')) = Some 404"
proof -
  obtain g w' where b: "NewRPCGateway sample_gateway_config (\<lambda>p. 0) empty_world = Returns (Inr (g, w'))"
    by (rule sample_gateway_built)
  have clean: "clean_path ''/et'' = ''/et''" by code_simp
  have new: "''et'' \<notin> pc_Path ` set (gc_Proxies sample_gateway_config)" by (simp add: sample_gateway_config_def)
  from unknown_path_is_not_found [OF b sample_paths_plain new, where suffix = "[]"
      and r = "sample_request\<lparr>rq_path := ''/et''\<rparr>" and env = "sample_env (\<lambda>k. unreachable)"
      and s = "sample_serving None"] b clean show ?thesis by auto
qed

theorem building_the_gateway_witness:
  "\<exists>g w'. NewRPCGateway sample_gateway_config (\<lambda>p. 0) empty_world = Returns (Inr (g, w')) \<and>
    fst ` set (gw_proxies g) = {''eth'', ''e''}"
proof -
  have paths: "pc_Path ` set (gc_Proxies sample_gateway_config) = {''eth'', ''e''}"
    by (simp add: sample_gateway_config_def)
  show ?thesis
    using building_the_gateway [OF sample_paths_plain, of "\<lambda>p. 0" empty_world]
    unfolding sample_timeouts_ok option.case paths by blast
qed

theorem gateway_is_wired_witness:
  "\<exists>g w'. NewRPCGateway sample_gateway_config (\<lambda>p. 0) empty_world = Returns (Inr (g, w')) \<and>
    list_all (wired w') (px_targets (snd (gw_proxies g ! 1))) \<and>
    hcm_initialDelay (px_hcm (snd (gw_proxies g ! 1))) = second"
proof -
  obtain g w' where b: "NewRPCGateway sample_gateway_config (\<lambda>p. 0) empty_world = Returns (Inr (g, w'))"
    by (rule sample_gateway_built)
  have "1 < length (gc_Proxies sample_gateway_config)"
    "length (pc_Targets (gc_Proxies sample_gateway_config ! 1)) \<le> 2 ^ 63"
    by (simp_all add: sample_gateway_config_def)
  from gateway_is_wired [OF b sample_paths_distinct this] b show ?thesis
    by (auto simp: Let_def path_delay_def wrap64_def)
qed

theorem paths_have_own_clients_witness:
  "\<exists>g w' p q. NewRPCGateway sample_gateway_config (\<lambda>p. 0) empty_world = Returns (Inr (g, w')) \<and>
    (''eth'', p) \<in> set (gw_proxies g) \<and> (''e'', q) \<in> set (gw_proxies g) \<and> px_client p \<noteq> px_client q"
proof -
  obtain g w' where b: "NewRPCGateway sample_gateway_config (\<lambda>p. 0) empty_world = Returns (Inr (g, w'))"
    "map fst (gw_proxies g) = [''eth'', ''e'']"
    by (rule sample_gateway_built)
  have "fst ` set (gw_proxies g) = {''eth'', ''e''}" unfolding set_map [symmetric] b(2) by simp
  then obtain p q where pq: "(''eth'', p) \<in> set (gw_proxies g)" "(''e'', q) \<in> set (gw_proxies g)"
    by (metis fst_image insertI1 insertI2)
  have "http_wf (w_http empty_world)" using http_wf_init by (simp add: empty_world_def)
  from paths_have_own_clients [OF this b(1) pq] b(1) pq show ?thesis by auto
qed

end
