(* ===== verification/System.thy ===== *)
theory System
  imports GatewayServe
begin

text \<open>
  The parts of a running gateway together: what a request, a health check, a removal timer, a wake-up and the
  shutdown do to the shared objects, the invariant that all of them keep and that a new gateway has,
  and the answer to a request whose healthy providers are known. Theory Concurrent lets them run at the same time.
\<close>

section \<open>What any operation does to the shared objects\<close>

text \<open>
  No operation changes what a checker is configured with or whom its callbacks reach, none breaks the
  invariant of its taint state, and each moves its status only as the abstract machine of a taint allows.
  No operation but the forwarding of a websocket message lets a websocket proxy track a new subscription.
\<close>

definition keeps_checker :: "gotime \<Rightarrow> HealthChecker \<Rightarrow> HealthChecker \<Rightarrow> bool" where
  "keeps_checker t h h' \<longleftrightarrow> h_config h' = h_config h \<and> h_httpClient h' = h_httpClient h \<and>
     h_onBeforeTaint h' = h_onBeforeTaint h \<and> h_onBlockNumberUpdate h' = h_onBlockNumberUpdate h \<and>
     (taint_inv (t, h) \<longrightarrow> taint_inv (t, h') \<and> (status_step t)\<^sup>*\<^sup>* (status h) (status h'))"

definition keeps_ws :: "WebSocketProxy \<Rightarrow> WebSocketProxy \<Rightarrow> bool" where
  "keeps_ws q q' \<longleftrightarrow> wp_targetURL q' = wp_targetURL q \<and>
     (length (wp_connPool q) \<le> pool_size \<longrightarrow> length (wp_connPool q') \<le> pool_size) \<and>
     set (wp_subscriptions q') \<subseteq> set (wp_subscriptions q)"

definition evolves :: "gotime \<Rightarrow> World \<Rightarrow> World \<Rightarrow> bool" where
  "evolves t w w' \<longleftrightarrow> w_http w' = w_http w \<and>
     list_all2 (keeps_checker t) (w_checkers w) (w_checkers w') \<and> list_all2 keeps_ws (w_wsProxies w) (w_wsProxies w')"

lemma keeps_refl [simp]: "keeps_checker t h h" "keeps_ws q q"
  by (simp_all add: keeps_checker_def keeps_ws_def)

lemma evolves_refl [simp]: "evolves t w w"
  by (simp add: evolves_def list_all2_refl)

lemma keeps_trans:
  "keeps_checker t h h' \<Longrightarrow> keeps_checker t h' h'' \<Longrightarrow> keeps_checker t h h''"
  "keeps_ws q q' \<Longrightarrow> keeps_ws q' q'' \<Longrightarrow> keeps_ws q q''"
  by (auto simp: keeps_checker_def keeps_ws_def)

lemma evolves_trans: "evolves t w w' \<Longrightarrow> evolves t w' w'' \<Longrightarrow> evolves t w w''"
  unfolding evolves_def by (auto elim: list_all2_trans [rotated] dest: keeps_trans)

lemma list_all2_upd_at: "(\<And>x. P x x) \<Longrightarrow> (\<And>x. P x (f x)) \<Longrightarrow> list_all2 P xs (upd_at i f xs)"
  by (simp add: list_all2_conv_all_nth nth_upd_at)

lemma list_all2_upd_at_nth:
  "(\<And>x. P x x) \<Longrightarrow> (i < length xs \<Longrightarrow> P (xs ! i) (f (xs ! i))) \<Longrightarrow> list_all2 P xs (upd_at i f xs)"
  by (auto simp: list_all2_conv_all_nth nth_upd_at)

lemma evolves_checker: "(\<And>c. keeps_checker t c (f c)) \<Longrightarrow> evolves t w (upd_checker h f w)"
  by (simp add: evolves_def upd_checker_def list_all2_refl list_all2_upd_at)

lemma evolves_ws: "(p < length (w_wsProxies w) \<Longrightarrow> keeps_ws (w_wsProxies w ! p) (f (w_wsProxies w ! p))) \<Longrightarrow>
  evolves t w (upd_ws p f w)"
  by (simp add: evolves_def upd_ws_def list_all2_refl list_all2_upd_at_nth)

section \<open>The operations\<close>

lemma keeps_step:
  assumes "taint_step True (t, h) (t, h')"
    and "h_config h' = h_config h" and "h_httpClient h' = h_httpClient h"
    and "h_onBeforeTaint h' = h_onBeforeTaint h" and "h_onBlockNumberUpdate h' = h_onBlockNumberUpdate h"
  shows "keeps_checker t h h'"
  using assms(2-5) taint_step_inv [OF assms(1)] taint_refines_step [OF assms(1)] by (auto simp: keeps_checker_def)

lemma keeps_taint: "known_config cfg \<Longrightarrow> keeps_checker t h (taint_checker cfg t h)"
  by (rule keeps_step [OF taint_step.taints]) (simp_all add: taint_checker_def mark_tainted_def Let_def)

lemma keeps_timer:
  "(i, d) \<in> set (h_timers h) \<Longrightarrow> d \<le> t \<Longrightarrow> keeps_checker t h (timer_fires i t h)"
  "0 < h_signals h \<Longrightarrow> keeps_checker t h (timer_signals h)"
  "h_taintRemoveCh h \<noteq> [] \<Longrightarrow> keeps_checker t h (drain_signal h)"
  "keeps_checker t h (Stop h)"
proof -
  show "(i, d) \<in> set (h_timers h) \<Longrightarrow> d \<le> t \<Longrightarrow> keeps_checker t h (timer_fires i t h)"
    by (rule keeps_step [OF taint_step.fires]) (simp_all add: timer_fires_def RemoveTaint_def Let_def)
  show "0 < h_signals h \<Longrightarrow> keeps_checker t h (timer_signals h)"
    by (rule keeps_step [OF taint_step.signals]) (simp_all add: timer_signals_def)
  show "h_taintRemoveCh h \<noteq> [] \<Longrightarrow> keeps_checker t h (drain_signal h)"
    by (rule keeps_step [OF taint_step.drains]) (simp_all add: drain_signal_def split: option.split)
  show "keeps_checker t h (Stop h)"
    by (rule keeps_step [OF taint_step.stops]) (simp_all add: Stop_def)
qed

lemma keeps_UnsubscribeAll: "keeps_ws q (UnsubscribeAll env q)"
  by (simp add: keeps_ws_def UnsubscribeAll_url UnsubscribeAll_pool UnsubscribeAll_subs)

lemma Taint_evolves:
  assumes "known_config cfg"
  shows "evolves t w (Taint env t cfg h w)"
proof (cases "h_isTainted (checker w h)")
  case False
  have "evolves t w (before_taint env h w)"
    by (simp add: before_taint_def evolves_ws keeps_UnsubscribeAll split: option.split)
  moreover have "evolves t (before_taint env h w) (upd_checker h (mark_tainted cfg t) (before_taint env h w))"
  proof -
    have "keeps_checker t (checker w h) (mark_tainted cfg t (checker w h))"
      using keeps_taint [OF assms, of t "checker w h"] False by (simp add: taint_checker_def)
    then show ?thesis
      by (simp add: evolves_def upd_checker_def list_all2_refl list_all2_upd_at_nth before_taint_simps)
  qed
  ultimately have "evolves t w (upd_checker h (mark_tainted cfg t) (before_taint env h w))" by (rule evolves_trans)
  with False show ?thesis by (simp add: Taint_def)
qed simp

lemma TaintHTTP_evolves: "evolves t w (TaintHTTP env t h w)"
  by (simp add: TaintHTTP_def Taint_evolves known_http)

lemma TaintHealthCheck_evolves: "evolves t w (TaintHealthCheck env t d h w)"
  by (simp add: TaintHealthCheck_def Taint_evolves known_health_check)

lemma checkBlockLag_evolves: "evolves t w (checkBlockLagAndTaint env t hcm name n w)"
  by (simp add: checkBlockLagAndTaint_def TaintHealthCheck_evolves Let_def split: prod.split option.split)

lemma counters_evolve:
  "evolves t w (upd_checker h (\<lambda>c. c\<lparr>h_blockNumber := n\<rparr>) w)"
  "evolves t w (upd_checker h (\<lambda>c. c\<lparr>h_ethCallCheckCounter := k\<rparr>) w)"
  by (rule evolves_checker, simp add: keeps_checker_def taint_inv_def timer_ok_def wait_ok_def status_def split: option.split)+

lemma block_check_evolves: "evolves t w (checkAndSetBlockNumberHealth penv env t hcm h w)"
  using evolves_trans [OF counters_evolve(1) checkBlockLag_evolves]
  by (simp add: checkAndSetBlockNumberHealth_def TaintHealthCheck_evolves counters_evolve Let_def
      split: sum.split option.split)

lemma call_check_evolves: "evolves t w (checkAndSetEthCallHealth penv env t h w)"
  using evolves_trans [OF counters_evolve(2) TaintHealthCheck_evolves]
  by (simp add: checkAndSetEthCallHealth_def counters_evolve Let_def split: option.split)

section \<open>Requests\<close>

lemma pipe_message_keeps:
  "pipe_message dir bs c p = Inr (c', p') \<Longrightarrow> wp_targetURL p' = wp_targetURL p \<and> wp_connPool p' = wp_connPool p"
  by (auto simp: pipe_message_def trackSubscriptionFromMessage_def trackSubscriptionResponse_def note_unsubscribe_def
      TrackSubscription_def RemoveSubscription_def Let_def
      split: direction.splits option.splits sum.splits if_splits list.splits goany.splits prod.splits)

lemma session_keeps:
  "served_proxy (Served (serve_session ic conn es c p)) = Some q \<Longrightarrow>
   wp_targetURL q = wp_targetURL p \<and> wp_connPool q = wp_connPool p"
proof (induction ic conn es c p rule: serve_session.induct)
  case (2 ic conn dir bs es c p)
  then show ?case by (auto simp: served_proxy_def dest: pipe_message_keeps split: sum.splits prod.splits)
qed (auto simp: served_proxy_def closeAll_def cleanupConnectionSubscriptions_def log_wire_def Let_def split: if_splits)

lemma recordMetrics_world: "sv_world (snd (recordMetrics env p m n res s)) = sv_world s"
  by (simp add: world_simps)

lemma taint_http_evolves: "evolves (pr_now env) (sv_world s) (sv_world (taint_http env hc s))"
  by (simp add: taint_http_def TaintHTTP_evolves split: option.split)

lemma handleProviderFailure_evolves:
  "evolves (pr_now env) (sv_world s) (sv_world (handleProviderFailure env p target r s))"
proof -
  have "sv_world (add_metrics ms s) = sv_world s" for ms s by (simp add: add_metrics_def)
  then show ?thesis
    using taint_http_evolves [of env "snd (recordMetrics env p (rq_method r) (provider_Name target) ''error'' s)"]
      taint_http_evolves [of env "add_metrics [Counted (rq_method r) (provider_Name target) ''rerouted'']
        (snd (recordMetrics env p (rq_method r) (provider_Name target) ''error'' s))"]
    by (simp add: handleProviderFailure_def recordMetrics_world Let_def)
qed

lemma forwardRequest_evolves:
  assumes "forwardRequest env p r body target url s = (res, s')"
  shows "evolves (pr_now env) (sv_world s) (sv_world s')"
proof -
  have fail: "evolves (pr_now env) (sv_world s) (sv_world (handleProviderFailure env p target r s1))"
    if "sv_world s1 = sv_world s" for s1
    using handleProviderFailure_evolves [of env s1] that by simp
  from assms show ?thesis
    by (auto simp: forwardRequest_def success_simps Let_def intro!: fail
        split: option.splits sum.splits if_splits prod.splits)
qed

lemma serve_target_evolves:
  assumes "serve_target env p r body n s = (d, s')" and "\<not> pr_isWebSocketUpgrade env r"
  shows "evolves (pr_now env) (sv_world s) (sv_world s')"
proof -
  obtain res s1 where f: "forwardRequest env p r body n (target_url p r n) s = (res, s1)"
    by (cases "forwardRequest env p r body n (target_url p r n) s")
  from forwardRequest_evolves [OF f] assms f show ?thesis
    by (simp add: serve_target_def split: if_splits)
qed

lemma createNewConnection_evolves:
  assumes "createNewConnection env (w_wsProxies w ! q) = (c, p)"
  shows "evolves t w (upd_ws q (\<lambda>_. p) w)" and "evolves t w (upd_ws q (\<lambda>_. log_wire e p) w)"
  using createNewConnection_simps(1,2) [of env "w_wsProxies w ! q"] createNewConnection_url [of env "w_wsProxies w ! q"] assms
  by (auto intro!: evolves_ws simp: keeps_ws_def log_wire_simps)

text \<open>A websocket message may change what is tracked, and nothing else.\<close>

definition drifts :: "gotime \<Rightarrow> World \<Rightarrow> World \<Rightarrow> bool" where
  "drifts t w w' \<longleftrightarrow> list_all2 (keeps_checker t) (w_checkers w) (w_checkers w') \<and>
     list_all2 (\<lambda>q q'. wp_targetURL q' = wp_targetURL q \<and>
       (length (wp_connPool q) \<le> pool_size \<longrightarrow> length (wp_connPool q') \<le> pool_size)) (w_wsProxies w) (w_wsProxies w')"

lemma evolves_drifts: "evolves t w w' \<Longrightarrow> drifts t w w'"
  by (auto simp: evolves_def drifts_def keeps_ws_def elim!: list_all2_mono)

lemma drifts_ws:
  "wp_targetURL p = wp_targetURL (w_wsProxies w ! q) \<Longrightarrow> wp_connPool p = wp_connPool (w_wsProxies w ! q) \<Longrightarrow>
   drifts t w (upd_ws q (\<lambda>_. p) w)"
  by (auto simp: drifts_def upd_ws_def intro!: list_all2_refl list_all2_upd_at_nth)

section \<open>The background\<close>

text \<open>
  What runs in the background of requests and health checks: a removal timer that fires or sends its wake-up, the
  shutdown, or time that passes.
\<close>

type_synonym system = "gotime \<times> World"

inductive background_step :: "RPCGateway \<Rightarrow> system \<Rightarrow> system \<Rightarrow> bool" for g :: RPCGateway where
  time: "t \<le> t' \<Longrightarrow> background_step g (t, w) (t', w)"
| timer: "h < length (w_checkers w) \<Longrightarrow> (i, d) \<in> set (h_timers (checker w h)) \<Longrightarrow> d \<le> t \<Longrightarrow>
    background_step g (t, w) (t, upd_checker h (timer_fires i t) w)"
| wakeup: "h < length (w_checkers w) \<Longrightarrow> 0 < h_signals (checker w h) \<Longrightarrow>
    background_step g (t, w) (t, upd_checker h timer_signals w)"
| stop: "gateway_Stop close metricsClose g w = (logs, w') \<Longrightarrow> background_step g (t, w) (t, w')"

inductive_cases background_stepE: "background_step g s s'"

definition valid_config :: "RPCGatewayConfig \<Rightarrow> bool" where
  "valid_config config \<longleftrightarrow> distinct (map pc_Path (gc_Proxies config)) \<and> list_all distinct_names (gc_Proxies config) \<and>
     (gc_RandomizeProviders config \<longrightarrow> list_all (\<lambda>pc. length (pc_Targets pc) \<le> 2 ^ 63) (gc_Proxies config))"

definition sys_init :: "RPCGatewayConfig \<Rightarrow> (string \<Rightarrow> u64) \<Rightarrow> RPCGateway \<Rightarrow> system \<Rightarrow> bool" where
  "sys_init config seed g = (\<lambda>(t, w). valid_config config \<and> NewRPCGateway config seed empty_world = Returns (Inr (g, w)))"

definition sys_inv :: "RPCGateway \<Rightarrow> system \<Rightarrow> bool" where
  "sys_inv g = (\<lambda>(t, w). list_all (\<lambda>(path, p). list_all (wired w) (px_targets p)) (gw_proxies g) \<and>
     list_all (\<lambda>h. taint_inv (t, h)) (w_checkers w) \<and> list_all (\<lambda>q. length (wp_connPool q) \<le> pool_size) (w_wsProxies w))"

lemma evolves_checker_at:
  "(h < length (w_checkers w) \<Longrightarrow> keeps_checker t (checker w h) (f (checker w h))) \<Longrightarrow> evolves t w (upd_checker h f w)"
  by (simp add: evolves_def upd_checker_def list_all2_refl list_all2_upd_at_nth)

lemma gateway_Stop_evolves: "evolves t w (snd (gateway_Stop close metricsClose g w))"
proof -
  have "evolves t w (manager_Stop hcm v)" if "evolves t w v" for hcm v
    unfolding manager_Stop_def using that
    by (intro fold_keeps [where P = "evolves t w"])
       (auto intro: evolves_trans evolves_checker keeps_timer(4))
  then show ?thesis
    unfolding gateway_Stop_def snd_conv by (intro fold_keeps [where P = "evolves t w"]) auto
qed

lemma timers_evolve:
  "(i, d) \<in> set (h_timers (checker w h)) \<Longrightarrow> d \<le> t \<Longrightarrow> evolves t w (upd_checker h (timer_fires i t) w)"
  "0 < h_signals (checker w h) \<Longrightarrow> evolves t w (upd_checker h timer_signals w)"
  "h_taintRemoveCh (checker w h) \<noteq> [] \<Longrightarrow> evolves t w (upd_checker h drain_signal w)"
  by (auto intro: evolves_checker_at keeps_timer)

lemma gateway_Stop_evolves': "gateway_Stop close metricsClose g w = (logs, w') \<Longrightarrow> evolves t w w'"
  using gateway_Stop_evolves [of t w close metricsClose g] by simp

lemma background_evolves:
  assumes "background_step g (t, w) (t', w')"
  shows "t = t' \<and> evolves t w w' \<or> t \<le> t' \<and> w' = w"
  using assms
  by (elim background_stepE) (auto intro: timers_evolve gateway_Stop_evolves')

lemma drifts_wired:
  assumes "drifts t w w'" and "wired w n"
  shows "wired w' n"
proof -
  have len: "length (w_checkers w') = length (w_checkers w)" "length (w_wsProxies w') = length (w_wsProxies w)"
    using assms(1) by (auto simp: drifts_def dest: list_all2_lengthD)
  have c: "h_config (checker w' h) = h_config (checker w h) \<and> h_onBeforeTaint (checker w' h) = h_onBeforeTaint (checker w h)"
    if "h < length (w_checkers w)" for h
    using assms(1) that by (simp add: drifts_def list_all2_conv_all_nth keeps_checker_def)
  have q: "wp_targetURL (w_wsProxies w' ! q) = wp_targetURL (w_wsProxies w ! q)" if "q < length (w_wsProxies w)" for q
    using assms(1) that by (simp add: drifts_def list_all2_conv_all_nth)
  from assms(2) c q show ?thesis by (auto simp: wired_def len Name_def split: option.splits)
qed

lemma sys_inv_step:
  assumes "t = t' \<and> drifts t w w' \<or> t \<le> t' \<and> w' = w" and "sys_inv g (t, w)"
  shows "sys_inv g (t', w')"
  using assms(1)
proof
  assume "t \<le> t' \<and> w' = w"
  then have "taint_inv (t, h) \<Longrightarrow> taint_inv (t', h)" for h
    using taint_step_inv [OF taint_step.passes [of t t' True h]] by blast
  with assms(2) \<open>t \<le> t' \<and> w' = w\<close> show ?thesis by (auto simp: sys_inv_def list_all_iff)
next
  assume e: "t = t' \<and> drifts t w w'"
  then have "list_all (\<lambda>h. taint_inv (t, h)) (w_checkers w')" "list_all (\<lambda>q. length (wp_connPool q) \<le> pool_size) (w_wsProxies w')"
    using assms(2)
    by (auto simp: sys_inv_def drifts_def list_all2_conv_all_nth list_all_length keeps_checker_def)
  with e assms(2) drifts_wired [of t w w'] show ?thesis by (auto simp: sys_inv_def list_all_iff)
qed

section \<open>A new gateway\<close>

lemma NewProxy_ws:
  assumes "NewProxy cfg w = (p, w')" and "list_all P (w_wsProxies w)" and "\<And>u t. P (NewWebSocketProxy u t)"
  shows "list_all P (w_wsProxies w')"
proof -
  obtain hcm w1 client hw targets w2 where s:
    "NewHealthCheckManager cfg w = (hcm, w1)"
    "new_providers hcm (cfg_Timeout cfg) (cfg_Targets cfg) (w1\<lparr>w_http := hw\<rparr>) = (targets, w2)"
    "w' = SetWebSocketProxyReferences (ws_references targets) hcm w2"
    by (rule NewProxy_cases [OF assms(1)])
  let ?ok = "\<lambda>w. list_all P (w_wsProxies w)"
  have new: "new_providers hcm t ts v = (ns, v') \<Longrightarrow> ?ok v \<Longrightarrow> ?ok v'" for hcm t ts v ns v'
    by (induction ts arbitrary: v ns v')
       (fastforce simp: NewNodeProvider_def assms(3) Let_def split: prod.splits if_splits)+
  have "w_wsProxies (snd (add_checker cfg t c v)) = w_wsProxies (snd v)" for t c v
    by (simp add: add_checker_def Let_def split: prod.split)
  then have "w_wsProxies (snd (NewHealthCheckManager cfg w)) = w_wsProxies w" unfolding NewHealthCheckManager_def
    by (intro fold_keeps [where P = "\<lambda>v. w_wsProxies (snd v) = w_wsProxies w"]) simp_all
  then have "w_wsProxies w1 = w_wsProxies w" using s(1) by simp
  with assms(2) new [OF s(2)] show ?thesis by (simp add: s(3) SetRefs_frames)
qed

lemma NewProxy_taint_init:
  assumes "NewProxy cfg w = (p, w')" and "list_all (\<lambda>h. taint_init (t, h)) (w_checkers w)"
  shows "list_all (\<lambda>h. taint_init (t, h)) (w_checkers w')"
  using assms
proof (rule NewProxy_checkers)
  show "taint_init (t, fst (NewHealthChecker c hw))" for c hw by (rule NewHealthChecker_init)
qed (simp_all add: taint_init_def quiet_def wait_ok_def SetBlockNumberUpdateCallback_def SetBeforeTaintCallback_def)

lemma new_gateway_ws:
  assumes "NewRPCGateway config seed empty_world = Returns (Inr (g, w))" and "\<And>u t. P (NewWebSocketProxy u t)"
  shows "list_all P (w_wsProxies w)"
proof -
  obtain ps where ps: "build_proxies (IsEnabled (gc_Metrics config)) 0 (gc_Proxies config) [] empty_world = Inr (ps, w)"
    by (rule NewRPCGateway_cases [OF assms(1)])
  show ?thesis
    by (rule build_proxies_keeps [OF ps]) (simp add: empty_world_def, erule NewProxy_ws, assumption, rule assms(2))
qed

lemma sys_initially:
  assumes "sys_init config seed g (t, w)"
  shows "sys_inv g (t, w)"
proof -
  have v: "valid_config config" and b: "NewRPCGateway config seed empty_world = Returns (Inr (g, w))"
    using assms by (simp_all add: sys_init_def)
  obtain ps where ps: "build_proxies (IsEnabled (gc_Metrics config)) 0 (gc_Proxies config) [] empty_world = Inr (ps, w)"
    by (rule NewRPCGateway_cases [OF b])
  have "list_all (\<lambda>h. taint_init (t, h)) (w_checkers w)"
    by (rule build_proxies_keeps [OF ps]) (simp add: empty_world_def, erule NewProxy_taint_init)
  then have "list_all (\<lambda>h. taint_inv (t, h)) (w_checkers w)"
    using taint_sys.initially by (auto simp: list_all_iff)
  moreover have "list_all (\<lambda>q. length (wp_connPool q) \<le> pool_size) (w_wsProxies w)"
    by (rule new_gateway_ws [OF b]) (simp add: NewWebSocketProxy_def)
  moreover have "list_all (wired w) (px_targets (snd (gw_proxies g ! j)))" if "j < length (gw_proxies g)" for j
  proof -
    from NewRPCGateway_paths [OF b] v have "length (gw_proxies g) = length (gc_Proxies config)"
      by (metis distinct_card length_map set_map valid_config_def)
    with that NewRPCGateway_entry [OF b, of j] v show ?thesis
      by (simp add: valid_config_def entry_made_def list_all_length [of _ "gc_Proxies config"])
  qed
  then have "list_all (\<lambda>(path, p). list_all (wired w) (px_targets p)) (gw_proxies g)"
    by (simp add: list_all_length [of _ "gw_proxies g"] case_prod_unfold)
  ultimately show ?thesis by (simp add: sys_inv_def)
qed

section \<open>Requests to a gateway\<close>

text \<open>The proxy of an entry of the configuration.\<close>

lemma gateway_entry:
  assumes "NewRPCGateway config seed w = Returns (Inr (g, w'))"
    and "distinct (map pc_Path (gc_Proxies config))" and "list_all distinct_names (gc_Proxies config)"
    and "pc \<in> set (gc_Proxies config)"
    and "gc_RandomizeProviders config \<Longrightarrow> length (pc_Targets pc) \<le> 2 ^ 63"
  obtains j p where "(pc_Path pc, p) \<in> set (gw_proxies g)" "entry_made (gc_RandomizeProviders config) j pc w' p"
proof -
  obtain j where j: "j < length (gc_Proxies config)" "gc_Proxies config ! j = pc"
    using assms(4) by (auto simp: in_set_conv_nth)
  with NewRPCGateway_entry [OF assms(1-3) j(1)] assms(5) have
    paths: "map fst (gw_proxies g) = map pc_Path (gc_Proxies config)" and
    made: "entry_made (gc_RandomizeProviders config) j pc w' (snd (gw_proxies g ! j))" by simp_all
  have "j < length (gw_proxies g)" using paths j(1) by (metis length_map)
  moreover from this paths j have "fst (gw_proxies g ! j) = pc_Path pc" by (metis nth_map)
  ultimately have "(pc_Path pc, snd (gw_proxies g ! j)) \<in> set (gw_proxies g)" by (metis nth_mem prod.collapse)
  with made that show thesis by blast
qed

lemma wired_http:
  assumes "wired w n" and "target_http_url (np_config n) \<noteq> []" and "all_healthy w"
  shows "provider_IsHealthy ''http'' w n"
  using assms
  by (auto simp: wired_def all_healthy_def list_all_length provider_IsHealthy_def healthy_checker_def split: option.splits)

lemma wired_proxy_wf: "list_all (wired w) (px_targets p) \<Longrightarrow> proxy_wf p w"
  by (auto simp: proxy_wf_def wired_def list_all_iff split: option.splits)

definition provider_url :: "ProxyConfig \<Rightarrow> string \<Rightarrow> NodeProviderConfig \<Rightarrow> string" where
  "provider_url pc suffix t =
    target_http_url t @ (if pc_ChainType pc = ''tron'' then if suffix = [] then ''/'' else suffix else [])"

lemma target_url_routed:
  assumes "\<not> pr_isWebSocketUpgrade env r" and "px_chainType p = pc_ChainType pc"
  shows "target_url p (routed_request env p suffix r) n = provider_url pc suffix (np_config n)"
  using assms by (simp add: target_url_def routed_request_def provider_url_def)

text \<open>A request to a gateway when its healthy providers are known.\<close>

lemma gateway_first_answer:
  assumes "NewRPCGateway config seed w = Returns (Inr (g, w'))" and "list_all (plain_segment \<circ> pc_Path) (gc_Proxies config)"
    and "(pc_Path pc, p) \<in> set (gw_proxies g)" and "px_chainType p = pc_ChainType pc" and "proxy_wf p (sv_world s)"
    and "getHealthyProviders ''http'' p (sv_world s) = ns1 @ n # ns2"
    and "\<And>path. \<not> pr_isWebSocketUpgrade env (r\<lparr>rq_path := path\<rparr>)" and "rq_body r = Inr body"
    and "rq_path r = ''/'' @ pc_Path pc @ suffix" and "suffix = [] \<or> hd suffix = CHR ''/''"
    and "clean_path (rq_path r) = rq_path r"
    and "\<And>m u. new_request (pr_http env) m u = None"
    and "\<And>k req. k < length ns1 \<Longrightarrow> hr_url req = provider_url pc suffix (np_config (ns1 ! k)) \<Longrightarrow>
      refused (do_request (pr_http env) k req)"
    and "\<And>req. hr_url req = provider_url pc suffix (np_config n) \<Longrightarrow> do_request (pr_http env) (length ns1) req = Inr resp"
    and "\<not> HasNodeProviderFailed (rs_status resp)" and "rs_err resp = None"
    and "sv_sent s = []" and "fresh_writer (sv_writer s)" and "rw_fail (sv_writer s) = None"
  shows "\<exists>s'. gateway_ServeHTTP env g r s = Replies s' \<and>
    rw_sent (sv_writer s') = Some (rs_status resp, sent_header (sv_writer s) resp) \<and>
    rw_body (sv_writer s') = (if rs_body resp = [] then [] else [Upstream (provider_Name n) (rs_body resp)]) \<and>
    map fst (sv_sent s') = map provider_Name (ns1 @ [n]) \<and>
    map (hr_url \<circ> snd) (sv_sent s') = map (provider_url pc suffix \<circ> np_config) (ns1 @ [n]) \<and>
    (\<forall>m. provider_IsHealthy ''http'' (sv_world s') m \<longleftrightarrow>
      provider_IsHealthy ''http'' (sv_world s) m \<and> np_httpChecker m \<notin> np_httpChecker ` set ns1)"
proof -
  let ?r = "routed_request env p suffix r"
  have up: "\<not> pr_isWebSocketUpgrade env r" using assms(7) [of "rq_path r"] by simp
  have r: "\<not> pr_isWebSocketUpgrade env ?r" "rq_body ?r = Inr body"
    using assms(7,8) up by (simp_all add: routed_request_def)
  note url = target_url_routed [OF up assms(4), of suffix]
  have refuse: "all_refuse env p ?r body 0 ns1"
    unfolding all_refuse_def using assms(13) by (auto simp: url upstream_request_def)
  have answer: "answer_of env p ?r body (length ns1) n = Inr resp"
    using assms(14) by (auto simp: url upstream_request_def)
  have w: "unanswered (sv_writer s)" "rw_sent (sv_writer s) = None" "rw_body (sv_writer s) = []"
    using assms(18) by (simp_all add: fresh_writer_def)
  note f = serve_first_answer [OF r assms(6,12,17) w(1) refuse answer assms(15)]
  have "np_httpChecker t' = Some h \<Longrightarrow> h < length (w_checkers (sv_world s))" if "t' \<in> set ns1" for t' h
    using proxy_wf_healthy [OF assms(5), of t' "''http''" h] that by (simp add: assms(6))
  note healthy = taint_providers_healthy [OF this]
  have "gateway_ServeHTTP env g r s = Replies (ServeHTTP env p ?r s)"
    by (rule gateway_serves [OF assms(1,2,3,9,10,11)])
  with f copyResponse_frames(2) [OF w(1,2)] copyResponse_complete [OF w(1,2) assms(19,16)] w(3) healthy
  show ?thesis by (auto simp: provider_Name_def upstream_request_def url)
qed

end
