(* ===== verification/Concurrent.thy ===== *)
theory Concurrent
  imports System "HOL-Library.Sublist"
begin

text \<open>
  Requests and health checks that run at the same time. A request is split into the steps at which it meets what it shares with
  others: reading the taint of one provider, asking one provider, handling one message of a websocket, taking a slice for
  its healthy providers from the pool of its proxy and giving it back. The slices are arrays that are reused, so they
  are kept in a store, and a request holds the index of its array.
\<close>

section \<open>The pool of slices\<close>

text \<open>
  \<open>sh_heap\<close> has the arrays of all slices, \<open>sh_free\<close> those that lie in the pool \<open>healthyPool\<close> of the
  proxy of a path. A slice is an array and its length; a new array is filled with nil pointers.
  \<open>sh_checks\<close> says where the goroutine of each checker is: waiting for its timer, in one of the two probes of a
  check, or returned. A panic outside of a handler, in a pipe of a websocket, ends the process: \<open>sh_crash\<close>.
\<close>

datatype check_pc = Waits gotime | ChecksBlock | ChecksCall | Stopped

record Shared =
  sh_world :: World
  sh_heap :: "NodeProvider option list list"
  sh_free :: "(string \<times> nat) list"
  sh_checks :: "nat \<Rightarrow> check_pc"
  sh_crash :: "string option"

type_synonym slice = "nat \<times> nat"

text \<open>
  \<open>healthyPool.Get\<close> returns any array of the pool, chosen by \<open>c\<close>, or calls \<open>New\<close>, which makes one with
  the capacity of the configured targets. The pool may drop arrays at any time.
\<close>

definition pool_Get :: "string \<Rightarrow> nat \<Rightarrow> nat option \<Rightarrow> Shared \<Rightarrow> nat \<times> Shared" where
  "pool_Get path capacity c sh =
    (case c of
       Some a \<Rightarrow>
         if (path, a) \<in> set (sh_free sh) then (a, sh\<lparr>sh_free := remove1 (path, a) (sh_free sh)\<rparr>)
         else (length (sh_heap sh), sh\<lparr>sh_heap := sh_heap sh @ [replicate capacity None]\<rparr>)
     | None \<Rightarrow> (length (sh_heap sh), sh\<lparr>sh_heap := sh_heap sh @ [replicate capacity None]\<rparr>))"

definition releaseHealthyProviders :: "string \<Rightarrow> slice \<Rightarrow> Shared \<Rightarrow> Shared" where
  "releaseHealthyProviders path healthy sh = sh\<lparr>sh_free := (path, fst healthy) # sh_free sh\<rparr>"

text \<open>
  \<open>append\<close> writes behind the slice when its array has room, and otherwise copies the slice to a larger array.
\<close>

definition append_slice ::
  "NodeProvider \<Rightarrow> slice \<Rightarrow> NodeProvider option list list \<Rightarrow> slice \<times> NodeProvider option list list" where
  "append_slice x = (\<lambda>(a, n) heap.
    if n < length (heap ! a) then ((a, Suc n), heap[a := (heap ! a)[n := Some x]])
    else ((length heap, Suc n), heap @ [take n (heap ! a) @ Some x # replicate n None]))"

section \<open>A request in flight\<close>

text \<open>
  Where the handler is: before the body is read, in the loop of \<open>getHealthyProviders\<close>, in the loop over
  the healthy providers, passing on messages between the client and the connection to a websocket proxy,
  returned, or stopped by a nil pointer.
\<close>

datatype pc = Starts | Collects nat | Asks nat | Pipes nat nat | Finished | Panicked

record Flight =
  fl_path :: string
  fl_proxy :: Proxy
  fl_request :: ServerRequest
  fl_upgrade :: bool
  fl_body :: string
  fl_slice :: slice
  fl_ws :: "nat option"
  fl_conn :: ConnState
  fl_pc :: pc
  fl_serving :: Serving

definition new_flight :: "proxy_env \<Rightarrow> string \<Rightarrow> Proxy \<Rightarrow> ServerRequest \<Rightarrow> ResponseWriter \<Rightarrow> World \<Rightarrow> Flight" where
  "new_flight env path p r w world =
    (let r' = handler_request env path p r in
     \<lparr>fl_path = path, fl_proxy = p, fl_request = r', fl_upgrade = pr_isWebSocketUpgrade env r', fl_body = [],
      fl_slice = (0, 0), fl_ws = None, fl_conn = new_conn, fl_pc = Starts,
      fl_serving = \<lparr>sv_world = world, sv_writer = w, sv_sent = [], sv_metrics = [], sv_websocket = None\<rparr>\<rparr>)"

text \<open>The handler returns: the deferred call gives the slice back.\<close>

definition returns :: "pc \<Rightarrow> Serving \<Rightarrow> Flight \<Rightarrow> Shared \<Rightarrow> Flight \<times> Shared" where
  "returns end s f sh =
    (f\<lparr>fl_pc := end, fl_serving := s\<rparr>,
     releaseHealthyProviders (fl_path f) (fl_slice f) (sh\<lparr>sh_world := sv_world s\<rparr>))"

text \<open>
  One step of a request on the current world. \<open>c\<close> is the choice of the pool. The bytes of the body are read
  at once, and one provider is asked in one step; what others see of it, the taint, happens at its end.
  The handler of a websocket proxy runs up to the start of its pipes in one step, without a message, and then
  handles one message, or the error that ends the connection, per step.
\<close>

definition start_step :: "nat option \<Rightarrow> Flight \<Rightarrow> Shared \<Rightarrow> Flight \<times> Shared" where
  "start_step c f sh =
    (case (if fl_upgrade f then Inr [] else rq_body (fl_request f)) of
       Inl err \<Rightarrow>
         (f\<lparr>fl_pc := Finished,
            fl_serving := write_error (fl_request f) ''Failed to read request body'' 400 [] (fl_serving f)\<rparr>, sh)
     | Inr bodyBytes \<Rightarrow>
         (let (a, sh1) = pool_Get (fl_path f) (length (px_targets (fl_proxy f))) c sh
          in (f\<lparr>fl_body := bodyBytes, fl_slice := (a, 0), fl_pc := Collects 0\<rparr>, sh1)))"

definition check_step :: "Flight \<Rightarrow> Shared \<Rightarrow> Flight \<times> Shared" where
  "check_step f sh =
    (if snd (fl_slice f) = 0 then
       returns Finished
         (write_error (fl_request f) (''No healthy providers available for chain '' @ hcm_path (px_hcm (fl_proxy f))) 503
           (fl_body f) ((fl_serving f)\<lparr>sv_world := sh_world sh\<rparr>)) f sh
     else (f\<lparr>fl_pc := Asks 0\<rparr>, sh))"

definition collect_step :: "proxy_env \<Rightarrow> nat \<Rightarrow> Flight \<Rightarrow> Shared \<Rightarrow> Flight \<times> Shared" where
  "collect_step env i f sh =
    (let connType = getConnectionType env (fl_request f) in
     if i < length (px_targets (fl_proxy f)) then
       (let target = px_targets (fl_proxy f) ! i;
            (healthy, heap) =
              (if provider_IsHealthy connType (sh_world sh) target then append_slice target (fl_slice f) (sh_heap sh)
               else (fl_slice f, sh_heap sh))
        in (f\<lparr>fl_slice := healthy, fl_pc := Collects (Suc i)\<rparr>, sh\<lparr>sh_heap := heap\<rparr>))
     else check_step f sh)"

definition offering :: "pipe_event list \<Rightarrow> proxy_env \<Rightarrow> proxy_env" where
  "offering events env = env\<lparr>pr_call := (pr_call env)\<lparr>wcl_events := events\<rparr>\<rparr>"

definition ask_step :: "proxy_env \<Rightarrow> nat \<Rightarrow> Flight \<Rightarrow> Shared \<Rightarrow> Flight \<times> Shared" where
  "ask_step env k f sh =
    (let p = fl_proxy f; r = fl_request f; s = (fl_serving f)\<lparr>sv_world := sh_world sh\<rparr> in
     if k < snd (fl_slice f) then
       (case sh_heap sh ! fst (fl_slice f) ! k of
          None \<Rightarrow> returns Panicked s f sh
        | Some target \<Rightarrow>
            (case serve_target (offering [] env) p r (fl_body f) target s of
               (True, s1) \<Rightarrow>
                 (case (GetWebSocketProxy target, sv_websocket s1) of
                    (Some q, Some (Served (Running conn c wsProxy))) \<Rightarrow>
                      (f\<lparr>fl_pc := Pipes q conn, fl_ws := Some q, fl_conn := c, fl_serving := s1\<rparr>, sh\<lparr>sh_world := sv_world s1\<rparr>)
                  | _ \<Rightarrow> returns Finished s1 f sh)
             | (False, s1) \<Rightarrow> (f\<lparr>fl_pc := Asks (Suc k), fl_serving := s1\<rparr>, sh\<lparr>sh_world := sv_world s1\<rparr>)))
     else
       returns Finished
         (write_error r (''All providers failed for chain '' @ hcm_path (px_hcm p)) 503 (fl_body f) s) f sh)"

definition pipe_step :: "proxy_env \<Rightarrow> nat \<Rightarrow> nat \<Rightarrow> Flight \<Rightarrow> Shared \<Rightarrow> Flight \<times> Shared" where
  "pipe_step env q conn f sh =
    (let wsProxy = w_wsProxies (sh_world sh) ! q;
         served = serve_session (wcl_isCloseError (pr_call env)) conn (take 1 (wcl_events (pr_call env))) (fl_conn f) wsProxy
     in case served of
          Running conn c wsProxy' \<Rightarrow> (f\<lparr>fl_conn := c\<rparr>, sh\<lparr>sh_world := upd_ws q (\<lambda>_. wsProxy') (sh_world sh)\<rparr>)
        | Crashed panic \<Rightarrow> (f, sh\<lparr>sh_crash := Some panic\<rparr>)
        | Terminated info frame wsProxy' \<Rightarrow>
            returns Finished
              ((fl_serving f)\<lparr>sv_world := upd_ws q (\<lambda>_. wsProxy') (sh_world sh), sv_websocket := Some (Served served)\<rparr>)
              (f\<lparr>fl_conn := fst (cleanupConnectionSubscriptions (fl_conn f) wsProxy)\<rparr>) sh)"

text \<open>A pipe that had read a message before the connection was closed handles it afterwards.\<close>

definition late_step :: "direction \<Rightarrow> string \<Rightarrow> nat \<Rightarrow> Flight \<Rightarrow> Shared \<Rightarrow> Flight \<times> Shared" where
  "late_step dir msgBytes q f sh =
    (case pipe_message dir msgBytes (fl_conn f) (w_wsProxies (sh_world sh) ! q) of
       Inl panic \<Rightarrow> (f, sh\<lparr>sh_crash := Some panic\<rparr>)
     | Inr (c, wsProxy) \<Rightarrow> (f\<lparr>fl_conn := c\<rparr>, sh\<lparr>sh_world := upd_ws q (\<lambda>_. wsProxy) (sh_world sh)\<rparr>))"

definition advance :: "proxy_env \<Rightarrow> nat option \<Rightarrow> Flight \<Rightarrow> Shared \<Rightarrow> Flight \<times> Shared" where
  "advance env c f sh = (case fl_pc f of
     Starts \<Rightarrow> start_step c f sh
   | Collects i \<Rightarrow> collect_step env i f sh
   | Asks k \<Rightarrow> ask_step env k f sh
   | Pipes q conn \<Rightarrow> pipe_step env q conn f sh
   | Finished \<Rightarrow> (f, sh)
   | Panicked \<Rightarrow> (f, sh))"

definition landed :: "Flight \<Rightarrow> bool" where
  "landed f \<longleftrightarrow> fl_pc f = Finished \<or> fl_pc f = Panicked"

section \<open>A health check in progress\<close>

text \<open>
  One step of the goroutine of checker \<open>h\<close>, which takes \<open>branch\<close> when it waits: \<open>CheckAndSetHealth\<close> in the steps in which a
  probe ends. Everything else can happen during a probe.
\<close>

definition set_check :: "nat \<Rightarrow> check_pc \<Rightarrow> Shared \<Rightarrow> Shared" where
  "set_check h pc sh = sh\<lparr>sh_checks := (sh_checks sh)(h := pc)\<rparr>"

definition timer_reset :: "gotime \<Rightarrow> nat \<Rightarrow> Shared \<Rightarrow> Shared" where
  "timer_reset now h sh = set_check h (Waits (now + hcf_Interval (h_config (checker (sh_world sh) h)))) sh"

definition check_advance ::
  "probe_env \<Rightarrow> ws_env \<Rightarrow> HealthCheckManager \<Rightarrow> nat \<Rightarrow> branch \<Rightarrow> gotime \<Rightarrow> Shared \<Rightarrow> Shared" where
  "check_advance penv env hcm h branch now sh = (case sh_checks sh h of
     Waits due \<Rightarrow>
       (case branch of
          CtxDone \<Rightarrow> set_check h Stopped sh
        | TimerFired \<Rightarrow> if IsTainted (checker (sh_world sh) h) then timer_reset now h sh else set_check h ChecksBlock sh
        | TaintRemoved \<Rightarrow> sh\<lparr>sh_world := upd_checker h drain_signal (sh_world sh)\<rparr>)
   | ChecksBlock \<Rightarrow>
       (let w = checkAndSetBlockNumberHealth penv env now hcm h (sh_world sh) in
        if \<not> IsTainted (checker w h) then set_check h ChecksCall (sh\<lparr>sh_world := w\<rparr>)
        else timer_reset now h (sh\<lparr>sh_world := w\<rparr>))
   | ChecksCall \<Rightarrow> timer_reset now h (sh\<lparr>sh_world := checkAndSetEthCallHealth penv env now h (sh_world sh)\<rparr>)
   | Stopped \<Rightarrow> sh)"

text \<open>When a waiting goroutine can take a branch: its timer is due, or there is a wake-up.\<close>

definition ready :: "gotime \<Rightarrow> branch \<Rightarrow> nat \<Rightarrow> Shared \<Rightarrow> bool" where
  "ready now branch h sh = (case sh_checks sh h of
     Waits due \<Rightarrow>
       (case branch of
          CtxDone \<Rightarrow> True
        | TimerFired \<Rightarrow> due \<le> now
        | TaintRemoved \<Rightarrow> h < length (w_checkers (sh_world sh)) \<and> h_taintRemoveCh (checker (sh_world sh) h) \<noteq> [])
   | _ \<Rightarrow> True)"

section \<open>All requests and checks together\<close>

type_synonym concurrent = "gotime \<times> Shared \<times> Flight list"

text \<open>
  The label of a step is the number of the request that makes it. \<open>late\<close> says whether messages
  are handled after the end of their connection. Nothing happens after a crash.
\<close>

inductive conc_step :: "bool \<Rightarrow> RPCGateway \<Rightarrow> nat option \<Rightarrow> concurrent \<Rightarrow> concurrent \<Rightarrow> bool"
  for late :: bool and g :: RPCGateway where
  others: "sh_crash sh = None \<Longrightarrow> background_step g (t, sh_world sh) (t', w') \<Longrightarrow>
    conc_step late g None (t, sh, fs) (t', sh\<lparr>sh_world := w'\<rparr>, fs)"
| checks: "sh_crash sh = None \<Longrightarrow> (path, hcm) \<in> set (gw_hcms g) \<Longrightarrow> h \<in> set (manager_Start hcm) \<Longrightarrow> ready t branch h sh \<Longrightarrow>
    conc_step late g None (t, sh, fs) (t, check_advance penv env hcm h branch t sh, fs)"
| arrives: "sh_crash sh = None \<Longrightarrow>
    mux_serve (gw_routes g) (rq_path r) = Found path \<Longrightarrow> map_of (gw_proxies g) path = Some p \<Longrightarrow> fresh_writer w \<Longrightarrow>
    conc_step late g None (t, sh, fs) (t, sh, fs @ [new_flight env path p r w (sh_world sh)])"
| proceeds: "sh_crash sh = None \<Longrightarrow> \<not> landed f \<Longrightarrow> pr_now env = t \<Longrightarrow>
    pr_isWebSocketUpgrade env (fl_request f) = fl_upgrade f \<Longrightarrow> advance env c f sh = (f', sh') \<Longrightarrow>
    conc_step late g (Some (length xs)) (t, sh, xs @ f # ys) (t, sh', xs @ f' # ys)"
| lingers: "sh_crash sh = None \<Longrightarrow> late \<Longrightarrow> fl_pc f = Finished \<Longrightarrow> fl_ws f = Some q \<Longrightarrow>
    late_step dir msgBytes q f sh = (f', sh') \<Longrightarrow> conc_step late g None (t, sh, xs @ f # ys) (t, sh', xs @ f' # ys)"
| drops: "sh_crash sh = None \<Longrightarrow>
    conc_step late g None (t, sh, fs) (t, sh\<lparr>sh_free := remove1 x (sh_free sh)\<rparr>, fs)"

inductive_cases conc_stepE: "conc_step late g k s s'"

definition conc_init :: "RPCGatewayConfig \<Rightarrow> (string \<Rightarrow> u64) \<Rightarrow> RPCGateway \<Rightarrow> concurrent \<Rightarrow> bool" where
  "conc_init config seed g = (\<lambda>(t, sh, fs). sys_init config seed g (t, sh_world sh) \<and>
     sh_heap sh = [] \<and> sh_free sh = [] \<and> sh_checks sh = (\<lambda>h. Waits (Start t (checker (sh_world sh) h))) \<and>
     sh_crash sh = None \<and> fs = [])"

definition conc_any :: "bool \<Rightarrow> RPCGateway \<Rightarrow> concurrent \<Rightarrow> concurrent \<Rightarrow> bool" where
  "conc_any late g s s' \<longleftrightarrow> (\<exists>k. conc_step late g k s s')"

section \<open>What holds of every request\<close>

definition owned :: "Flight \<Rightarrow> nat list" where
  "owned f = (case fl_pc f of Collects i \<Rightarrow> [fst (fl_slice f)] | Asks k \<Rightarrow> [fst (fl_slice f)] |
    Pipes q conn \<Rightarrow> [fst (fl_slice f)] | _ \<Rightarrow> [])"

definition arrays :: "Shared \<Rightarrow> Flight list \<Rightarrow> nat list" where
  "arrays sh fs = map snd (sh_free sh) @ concat (map owned fs)"

definition holds :: "NodeProvider option list list \<Rightarrow> slice \<Rightarrow> NodeProvider list \<Rightarrow> bool" where
  "holds heap = (\<lambda>(a, n) hs. n \<le> length (heap ! a) \<and> take n (heap ! a) = map Some hs)"

abbreviation targets :: "Flight \<Rightarrow> NodeProvider list" where
  "targets f \<equiv> px_targets (fl_proxy f)"

abbreviation asked :: "Flight \<Rightarrow> string list" where
  "asked f \<equiv> map fst (sv_sent (fl_serving f))"

definition flight_ok :: "RPCGateway \<Rightarrow> NodeProvider option list list \<Rightarrow> Flight \<Rightarrow> bool" where
  "flight_ok g heap f \<longleftrightarrow> map_of (gw_proxies g) (fl_path f) = Some (fl_proxy f) \<and>
    (case fl_pc f of
       Starts \<Rightarrow> fresh_writer (sv_writer (fl_serving f)) \<and> asked f = [] \<and> sv_websocket (fl_serving f) = None
     | Collects i \<Rightarrow> fresh_writer (sv_writer (fl_serving f)) \<and> asked f = [] \<and> sv_websocket (fl_serving f) = None \<and>
         i \<le> length (targets f) \<and> length (targets f) \<le> length (heap ! fst (fl_slice f)) \<and>
         (\<exists>hs. holds heap (fl_slice f) hs \<and> subseq hs (take i (targets f)))
     | Asks k \<Rightarrow> (\<not> fl_upgrade f \<longrightarrow> fresh_writer (sv_writer (fl_serving f))) \<and> sv_websocket (fl_serving f) = None \<and>
         length (targets f) \<le> length (heap ! fst (fl_slice f)) \<and>
         (\<exists>hs. holds heap (fl_slice f) hs \<and> subseq hs (targets f) \<and> k \<le> length hs \<and>
            subseq (asked f) (map provider_Name (take k hs)))
     | Pipes q conn \<Rightarrow> fl_upgrade f \<and> length (targets f) \<le> length (heap ! fst (fl_slice f)) \<and>
         subseq (asked f) (map provider_Name (targets f))
     | Finished \<Rightarrow> (\<not> fl_upgrade f \<longrightarrow> one_source (sv_writer (fl_serving f))) \<and>
         subseq (asked f) (map provider_Name (targets f))
     | Panicked \<Rightarrow> False)"

definition free_ok :: "RPCGateway \<Rightarrow> Shared \<Rightarrow> bool" where
  "free_ok g sh \<longleftrightarrow> (\<forall>(path, a) \<in> set (sh_free sh). \<forall>p. map_of (gw_proxies g) path = Some p \<longrightarrow>
     length (px_targets p) \<le> length (sh_heap sh ! a))"

definition conc_inv :: "RPCGateway \<Rightarrow> concurrent \<Rightarrow> bool" where
  "conc_inv g = (\<lambda>(t, sh, fs). sys_inv g (t, sh_world sh) \<and> distinct (arrays sh fs) \<and>
     (\<forall>a \<in> set (arrays sh fs). a < length (sh_heap sh)) \<and> free_ok g sh \<and> list_all (flight_ok g (sh_heap sh)) fs)"

lemma flight_ok_frame:
  assumes "flight_ok g heap f" and "\<And>a. a \<in> set (owned f) \<Longrightarrow> heap' ! a = heap ! a"
  shows "flight_ok g heap' f"
  using assms by (auto simp: flight_ok_def owned_def holds_def split: pc.splits prod.splits)

lemma holds_Nil: "holds heap (a, 0) []"
  by (simp add: holds_def)

lemma holds_length: "holds heap s hs \<Longrightarrow> length hs = snd s"
  by (auto simp: holds_def dest: arg_cong [where f = length])

lemma holds_nth: "holds heap s hs \<Longrightarrow> k < snd s \<Longrightarrow> heap ! fst s ! k = Some (hs ! k)"
  using holds_length [of heap s hs] by (auto simp: holds_def dest!: arg_cong [where f = "\<lambda>xs. xs ! k"])

text \<open>Within its capacity, \<open>append\<close> changes one array, beyond the slices that it held.\<close>

lemma append_slice_room:
  assumes "n < length (heap ! a)" and "a < length heap" and "holds heap (a, n) hs"
  shows "append_slice x (a, n) heap = ((a, Suc n), heap[a := (heap ! a)[n := Some x]])"
    and "holds (heap[a := (heap ! a)[n := Some x]]) (a, Suc n) (hs @ [x])"
  using assms by (auto simp: append_slice_def holds_def take_Suc_conv_app_nth)

text \<open>What one step of a request does to the arrays: its own, those of the others and the pool.\<close>

definition arrays_step :: "RPCGateway \<Rightarrow> Flight \<Rightarrow> Shared \<Rightarrow> Flight \<Rightarrow> Shared \<Rightarrow> bool" where
  "arrays_step g f sh f' sh' \<longleftrightarrow>
     length (sh_heap sh) \<le> length (sh_heap sh') \<and>
     (\<forall>a < length (sh_heap sh). length (sh_heap sh' ! a) = length (sh_heap sh ! a)) \<and>
     (\<forall>a < length (sh_heap sh). a \<notin> set (owned f) \<longrightarrow> sh_heap sh' ! a = sh_heap sh ! a) \<and>
     (mset (map snd (sh_free sh')) + mset (owned f') = mset (map snd (sh_free sh)) + mset (owned f) \<or>
      mset (map snd (sh_free sh')) + mset (owned f') =
        add_mset (length (sh_heap sh)) (mset (map snd (sh_free sh)) + mset (owned f)) \<and>
      length (sh_heap sh) < length (sh_heap sh')) \<and>
     free_ok g sh'"

definition shared_ok :: "RPCGateway \<Rightarrow> Flight \<Rightarrow> Shared \<Rightarrow> bool" where
  "shared_ok g f sh \<longleftrightarrow> flight_ok g (sh_heap sh) f \<and> free_ok g sh \<and>
     (\<forall>a \<in> set (map snd (sh_free sh) @ owned f). a < length (sh_heap sh))"

lemma pool_Get_step:
  assumes "pool_Get path (length (px_targets p)) c sh = (a, sh')" and "map_of (gw_proxies g) path = Some p"
    and "free_ok g sh" and "\<forall>a \<in> snd ` set (sh_free sh). a < length (sh_heap sh)"
  shows "length (px_targets p) \<le> length (sh_heap sh' ! a)" and "sh_world sh' = sh_world sh"
    and "length (sh_heap sh) \<le> length (sh_heap sh')" and "\<And>b. b < length (sh_heap sh) \<Longrightarrow> sh_heap sh' ! b = sh_heap sh ! b"
    and "add_mset a (mset (map snd (sh_free sh'))) = mset (map snd (sh_free sh)) \<or>
      a = length (sh_heap sh) \<and> length (sh_heap sh) < length (sh_heap sh') \<and> sh_free sh' = sh_free sh"
    and "free_ok g sh'"
proof -
  consider (new) "a = length (sh_heap sh)" "sh' = sh\<lparr>sh_heap := sh_heap sh @ [replicate (length (px_targets p)) None]\<rparr>"
    | (old) "(path, a) \<in> set (sh_free sh)" "sh' = sh\<lparr>sh_free := remove1 (path, a) (sh_free sh)\<rparr>"
    using assms(1) by (auto simp: pool_Get_def split: option.splits if_splits)
  then have "length (px_targets p) \<le> length (sh_heap sh' ! a) \<and> sh_world sh' = sh_world sh \<and>
    length (sh_heap sh) \<le> length (sh_heap sh') \<and> (\<forall>b < length (sh_heap sh). sh_heap sh' ! b = sh_heap sh ! b) \<and>
    (add_mset a (mset (map snd (sh_free sh'))) = mset (map snd (sh_free sh)) \<or>
      a = length (sh_heap sh) \<and> length (sh_heap sh) < length (sh_heap sh') \<and> sh_free sh' = sh_free sh) \<and> free_ok g sh'"
  proof cases
    case new
    with assms(3,4) show ?thesis by (fastforce simp: free_ok_def nth_append)
  next
    case old
    have "mset (sh_free sh) = add_mset (path, a) (mset (remove1 (path, a) (sh_free sh)))" using old(1) by simp
    then have "image_mset snd (mset (sh_free sh)) = add_mset a (image_mset snd (mset (remove1 (path, a) (sh_free sh))))"
      by (metis image_mset_add_mset snd_conv)
    with assms(2,3) old show ?thesis by (auto simp: free_ok_def dest: notin_set_remove1)
  qed
  then show "length (px_targets p) \<le> length (sh_heap sh' ! a)" "sh_world sh' = sh_world sh"
    "length (sh_heap sh) \<le> length (sh_heap sh')" "\<And>b. b < length (sh_heap sh) \<Longrightarrow> sh_heap sh' ! b = sh_heap sh ! b"
    "add_mset a (mset (map snd (sh_free sh'))) = mset (map snd (sh_free sh)) \<or>
      a = length (sh_heap sh) \<and> length (sh_heap sh) < length (sh_heap sh') \<and> sh_free sh' = sh_free sh"
    "free_ok g sh'" by blast+
qed

lemma error_one_source: "fresh_writer (sv_writer s) \<Longrightarrow> one_source (sv_writer (write_error r m code body s))"
  using WriteJSONRPCError_fresh [of "sv_writer s" r m code body] by (auto simp: one_source_def write_error_def)

lemma write_error_frames [world_simps]:
  "sv_sent (write_error r m code body s) = sv_sent s" "sv_world (write_error r m code body s) = sv_world s"
  by (simp_all add: write_error_def)

lemma start_step_ok:
  assumes "shared_ok g f sh" and "fl_pc f = Starts" and "start_step c f sh = (f', sh')"
  shows "flight_ok g (sh_heap sh') f' \<and> arrays_step g f sh f' sh' \<and> sh_world sh' = sh_world sh"
proof (cases "if fl_upgrade f then Inr [] else rq_body (fl_request f)")
  case (Inl err)
  with assms show ?thesis
    by (auto simp: start_step_def shared_ok_def flight_ok_def arrays_step_def owned_def error_one_source world_simps
        split: if_splits)
next
  case (Inr body)
  obtain a sh1 where get: "pool_Get (fl_path f) (length (targets f)) c sh = (a, sh1)"
    by (cases "pool_Get (fl_path f) (length (targets f)) c sh")
  have new: "f' = f\<lparr>fl_body := body, fl_slice := (a, 0), fl_pc := Collects 0\<rparr>" "sh' = sh1"
    using assms(3) Inr get by (auto simp: start_step_def)
  have ok: "map_of (gw_proxies g) (fl_path f) = Some (fl_proxy f)" "free_ok g sh"
    "\<forall>a \<in> snd ` set (sh_free sh). a < length (sh_heap sh)"
    using assms(1) by (auto simp: shared_ok_def flight_ok_def)
  note p = pool_Get_step [OF get ok]
  have "flight_ok g (sh_heap sh') f'"
    using assms(1,2) p(1) by (auto simp: new shared_ok_def flight_ok_def intro: holds_Nil)
  moreover have "arrays_step g f sh f' sh'"
    using assms(2) p(3-6) by (auto simp: new arrays_step_def owned_def)
  ultimately show ?thesis using p(2) new by simp
qed

lemma returns_ok:
  assumes "shared_ok g f sh" and "owned f = [fst (fl_slice f)]" and "returns Finished s f sh = (f', sh')"
    and "length (targets f) \<le> length (sh_heap sh ! fst (fl_slice f))"
    and "\<not> fl_upgrade f \<Longrightarrow> one_source (sv_writer s)" and "subseq (map fst (sv_sent s)) (map provider_Name (targets f))"
  shows "flight_ok g (sh_heap sh') f' \<and> arrays_step g f sh f' sh' \<and> sh_world sh' = sv_world s"
proof -
  have new: "f' = f\<lparr>fl_pc := Finished, fl_serving := s\<rparr>"
    "sh' = sh\<lparr>sh_world := sv_world s, sh_free := (fl_path f, fst (fl_slice f)) # sh_free sh\<rparr>"
    using assms(3) by (simp_all add: returns_def releaseHealthyProviders_def)
  have p: "map_of (gw_proxies g) (fl_path f) = Some (fl_proxy f)" "free_ok g sh"
    using assms(1) by (simp_all add: shared_ok_def flight_ok_def)
  have "flight_ok g (sh_heap sh') f'" using p(1) assms(5,6) by (simp add: new flight_ok_def)
  moreover have "free_ok g sh'" using p assms(4) by (simp add: new free_ok_def)
  moreover have "owned f' = []" by (simp add: new owned_def)
  ultimately show ?thesis using assms(2) by (simp add: new arrays_step_def)
qed

lemma collect_step_ok:
  assumes "shared_ok g f sh" and "fl_pc f = Collects i" and "collect_step env i f sh = (f', sh')"
  shows "flight_ok g (sh_heap sh') f' \<and> arrays_step g f sh f' sh' \<and> sh_world sh' = sh_world sh"
proof -
  obtain a n where sl: "fl_slice f = (a, n)" by (cases "fl_slice f")
  have none: "sv_websocket (fl_serving f) = None" using assms(1,2) by (simp add: shared_ok_def flight_ok_def)
  obtain hs where ok: "fresh_writer (sv_writer (fl_serving f))" "asked f = []" "i \<le> length (targets f)"
    "length (targets f) \<le> length (sh_heap sh ! a)" "holds (sh_heap sh) (a, n) hs" "subseq hs (take i (targets f))"
    "map_of (gw_proxies g) (fl_path f) = Some (fl_proxy f)" "free_ok g sh"
    using assms(1,2) sl by (auto simp: shared_ok_def flight_ok_def)
  have own: "owned f = [a]" "a < length (sh_heap sh)" using assms(1,2) sl by (auto simp: shared_ok_def owned_def)
  show ?thesis
  proof (cases "i < length (targets f)")
    case True
    let ?x = "targets f ! i"
    have take: "take (Suc i) (targets f) = take i (targets f) @ [?x]" using True by (simp add: take_Suc_conv_app_nth)
    show ?thesis
    proof (cases "provider_IsHealthy (getConnectionType env (fl_request f)) (sh_world sh) ?x")
      case healthy: True
      have "n \<le> i" using list_emb_length [OF ok(6)] holds_length [OF ok(5)] by simp
      then have "n < length (sh_heap sh ! a)" using True ok(4) by simp
      note room = append_slice_room [OF this own(2) ok(5), of ?x]
      let ?heap = "(sh_heap sh)[a := (sh_heap sh ! a)[n := Some ?x]]"
      have new: "f' = f\<lparr>fl_slice := (a, Suc n), fl_pc := Collects (Suc i)\<rparr>" "sh' = sh\<lparr>sh_heap := ?heap\<rparr>"
        using assms(3) True healthy room(1) by (auto simp: collect_step_def check_step_def sl Let_def)
      have len: "length (?heap ! b) = length (sh_heap sh ! b)" for b
        using own(2) by (cases "b = a") simp_all
      have "subseq (hs @ [?x]) (take (Suc i) (targets f))" unfolding take using ok(6) by (intro list_emb_append_mono) simp_all
      with ok room(2) True len have "flight_ok g (sh_heap sh') f'" by (auto simp: new flight_ok_def none)
      moreover have "arrays_step g f sh f' sh'"
        using own ok(8) len assms(2) by (auto simp: new arrays_step_def owned_def free_ok_def sl)
      ultimately show ?thesis by (simp add: new)
    next
      case False
      have new: "f' = f\<lparr>fl_pc := Collects (Suc i)\<rparr>" "sh' = sh"
        using assms(3) True False by (auto simp: collect_step_def check_step_def sl Let_def)
      have "subseq hs (take (Suc i) (targets f))" unfolding take using ok(6) by (rule list_emb_prefix)
      with ok True assms(2) sl show ?thesis by (auto simp: new flight_ok_def arrays_step_def owned_def none)
    qed
  next
    case False
    show ?thesis
    proof (cases "n = 0")
      case True
      with assms(3) False sl have r: "returns Finished
          (write_error (fl_request f) (''No healthy providers available for chain '' @ hcm_path (px_hcm (fl_proxy f))) 503
            (fl_body f) ((fl_serving f)\<lparr>sv_world := sh_world sh\<rparr>)) f sh = (f', sh')"
        by (simp add: collect_step_def check_step_def Let_def)
      have "owned f = [fst (fl_slice f)]" using own sl by simp
      from returns_ok [OF assms(1) this r] ok error_one_source show ?thesis by (simp add: world_simps sl)
    next
      case nonempty: False
      have new: "f' = f\<lparr>fl_pc := Asks 0\<rparr>" "sh' = sh"
        using assms(3) False nonempty by (auto simp: collect_step_def check_step_def sl Let_def)
      with ok False assms(2) sl show ?thesis by (auto simp: flight_ok_def arrays_step_def owned_def none)
    qed
  qed
qed

lemma serve_target_writer:
  assumes "serve_target env p r body n s = (d, s')" and "\<not> pr_isWebSocketUpgrade env r" and "fresh_writer (sv_writer s)"
  shows "if d then one_source (sv_writer s') else sv_writer s' = sv_writer s"
proof -
  have "serve_loop env p r body [n] s = (d, s')"
    using assms(1) by (simp add: serve_loop.simps(2) del: serve_loop_Cons split: bool.split)
  then show ?thesis using serve_loop_one_source assms(2,3) by blast
qed

lemma forwardRequest_sent:
  assumes "forwardRequest env p r body n url s = (res, s')"
  shows "sv_sent s' = sv_sent s \<or> (\<exists>req. sv_sent s' = sv_sent s @ [(provider_Name n, req)])"
  using assms
  by (auto simp: forwardRequest_def world_simps Let_def split: option.splits sum.splits if_splits prod.splits)

lemma serve_target_sent:
  assumes "serve_target env p r body n s = (d, s')"
  shows "sv_sent s' = sv_sent s \<or> (\<exists>req. sv_sent s' = sv_sent s @ [(provider_Name n, req)])"
proof (cases "pr_isWebSocketUpgrade env r")
  case True
  with assms show ?thesis by (auto simp: serve_target_def taint_http_def Let_def split: option.splits prod.splits)
next
  case False
  obtain res s1 where f: "forwardRequest env p r body n (target_url p r n) s = (res, s1)"
    by (cases "forwardRequest env p r body n (target_url p r n) s")
  with assms False have "s' = s1" by (auto simp: serve_target_def split: if_splits)
  with forwardRequest_sent [OF f] show ?thesis by simp
qed

lemma offering_simps [simp]:
  "pr_now (offering es env) = pr_now env" "pr_http (offering es env) = pr_http env"
  "pr_start (offering es env) = pr_start env" "pr_test (offering es env) = pr_test env"
  "pr_isWebSocketUpgrade (offering es env) = pr_isWebSocketUpgrade env"
  "wcl_events (pr_call (offering es env)) = es" "wcl_env (pr_call (offering es env)) = wcl_env (pr_call env)"
  "wcl_upgrade (pr_call (offering es env)) = wcl_upgrade (pr_call env)"
  "wcl_isCloseError (pr_call (offering es env)) = wcl_isCloseError (pr_call env)"
  "getConnectionType (offering es env) r = getConnectionType env r"
  by (simp_all add: offering_def getConnectionType_def)

lemma forwardRequest_websocket:
  "forwardRequest env p r body n url s = (res, s') \<Longrightarrow> sv_websocket s' = sv_websocket s"
  by (auto simp: forwardRequest_def handleProviderFailure_def logSuccessfulRequest_def recordMetrics_def add_metrics_def
      taint_http_def Let_def split: option.splits sum.splits if_splits prod.splits)

lemma serve_target_websocket:
  assumes "serve_target env p r body n s = (d, s')" and "\<not> pr_isWebSocketUpgrade env r \<or> \<not> d"
  shows "sv_websocket s' = sv_websocket s"
  using assms forwardRequest_websocket
  by (fastforce simp: serve_target_def taint_http_def Let_def split: if_splits option.splits prod.splits)

text \<open>Until its pipes run, a websocket changes no subscription.\<close>

lemma ws_ServeHTTP_starts:
  assumes "ws_ServeHTTP ic env upgrade [] (w_wsProxies w ! q) = served"
  shows "evolves t w (case served_proxy served of Some p \<Rightarrow> upd_ws q (\<lambda>_. p) w | None \<Rightarrow> w)"
proof -
  obtain c p where p: "createNewConnection env (w_wsProxies w ! q) = (c, p)"
    by (cases "createNewConnection env (w_wsProxies w ! q)")
  show ?thesis
    using assms p createNewConnection_evolves(1) [OF p, of t]
    by (auto simp: ws_ServeHTTP_def served_proxy_def split: option.splits)
qed

lemma serve_target_starts:
  assumes "serve_target (offering [] env) p r body n s = (d, s')"
  shows "evolves (pr_now env) (sv_world s) (sv_world s')"
proof (cases "pr_isWebSocketUpgrade env r")
  case False
  with serve_target_evolves [OF assms] show ?thesis by simp
next
  case True
  show ?thesis
  proof (cases "GetWebSocketProxy n")
    case None
    with True assms show ?thesis by (simp add: serve_target_def)
  next
    case (Some q)
    obtain c px where px: "createNewConnection (pr_test env) (w_wsProxies (sv_world s) ! q) = (c, px)"
      by (cases "createNewConnection (pr_test env) (w_wsProxies (sv_world s) ! q)")
    note e = createNewConnection_evolves [OF px, of "pr_now env"]
    show ?thesis
    proof (cases c)
      case None
      let ?s = "s\<lparr>sv_world := upd_ws q (\<lambda>_. px) (sv_world s)\<rparr>"
      have "s' = taint_http (offering [] env) (GetHealthChecker (px_hcm p) (provider_Name n) (getConnectionType env r)) ?s"
        using assms True Some px None by (simp add: serve_target_def)
      with taint_http_evolves [where env = "offering [] env" and s = ?s] evolves_trans [OF e(1)] show ?thesis by simp
    next
      case conn: (Some conn)
      let ?w = "upd_ws q (\<lambda>_. log_wire (ClosedConn conn) px) (sv_world s)"
      let ?served = "ws_ServeHTTP (wcl_isCloseError (pr_call env)) (wcl_env (pr_call env)) (wcl_upgrade (pr_call env)) []
        (w_wsProxies ?w ! q)"
      have "sv_world s' = (case served_proxy ?served of Some p \<Rightarrow> upd_ws q (\<lambda>_. p) ?w | None \<Rightarrow> ?w)"
        using assms True Some px conn by (auto simp: serve_target_def provider_ServeHTTP_def GetWebSocketProxy_def Let_def)
      with ws_ServeHTTP_starts [OF refl, of "pr_now env" ?w] have "evolves (pr_now env) ?w (sv_world s')" by simp
      with e(2) show ?thesis by (rule evolves_trans)
    qed
  qed
qed

lemma ask_step_ok:
  assumes "shared_ok g f sh" and "fl_pc f = Asks k" and "ask_step env k f sh = (f', sh')"
    and "pr_isWebSocketUpgrade env (fl_request f) = fl_upgrade f"
  shows "flight_ok g (sh_heap sh') f' \<and> arrays_step g f sh f' sh' \<and> evolves (pr_now env) (sh_world sh) (sh_world sh')"
proof -
  let ?s = "(fl_serving f)\<lparr>sv_world := sh_world sh\<rparr>"
  have none: "sv_websocket ?s = None" using assms(1,2) by (simp add: shared_ok_def flight_ok_def)
  have p: "map_of (gw_proxies g) (fl_path f) = Some (fl_proxy f)" "free_ok g sh"
    and w: "\<not> fl_upgrade f \<Longrightarrow> fresh_writer (sv_writer ?s)"
    and room: "length (targets f) \<le> length (sh_heap sh ! fst (fl_slice f))"
    using assms(1,2) by (simp_all add: shared_ok_def flight_ok_def)
  obtain hs where hs: "holds (sh_heap sh) (fl_slice f) hs" "subseq hs (targets f)" "k \<le> length hs"
    "subseq (asked f) (map provider_Name (take k hs))"
    using assms(1,2) by (auto simp: shared_ok_def flight_ok_def)
  have own: "owned f = [fst (fl_slice f)]" using assms(2) by (simp add: owned_def)
  have all: "subseq xs (map provider_Name (targets f))" if "subseq xs (map provider_Name (take j hs))" for xs j
  proof -
    have "subseq (take j hs) hs" by (metis append_take_drop_id list_emb_prefix subseq_order.order_refl)
    then have "subseq (take j hs) (targets f)" using hs(2) by (rule subseq_order.order_trans)
    with that show ?thesis using subseq_map subseq_order.order_trans by blast
  qed
  show ?thesis
  proof (cases "k < snd (fl_slice f)")
    case False
    with assms(3) have r: "returns Finished
        (write_error (fl_request f) (''All providers failed for chain '' @ hcm_path (px_hcm (fl_proxy f))) 503 (fl_body f) ?s)
        f sh = (f', sh')" by (simp add: ask_step_def Let_def)
    from returns_ok [OF assms(1) own r room] w hs(4) all error_one_source show ?thesis by (simp add: world_simps)
  next
    case True
    have n: "sh_heap sh ! fst (fl_slice f) ! k = Some (hs ! k)" using holds_nth [OF hs(1) True] .
    have k: "k < length hs" using True holds_length [OF hs(1)] by simp
    let ?serve = "serve_target (offering [] env) (fl_proxy f) (fl_request f) (fl_body f) (hs ! k) ?s"
    obtain d s1 where t: "?serve = (d, s1)" by (cases ?serve)
    have e: "evolves (pr_now env) (sh_world sh) (sv_world s1)" using serve_target_starts [OF t] by simp
    have sent: "subseq (map fst (sv_sent s1)) (map provider_Name (take (Suc k) hs))"
      using serve_target_sent [OF t] hs(4) k
      by (auto simp: take_Suc_conv_app_nth intro: list_emb_append_mono list_emb_prefix)
    have writer: "if d then one_source (sv_writer s1) else fresh_writer (sv_writer s1)" if "\<not> fl_upgrade f"
      using serve_target_writer [OF t] w that assms(4) by (auto split: if_splits)
    have ws: "sv_websocket s1 = None" if "\<not> fl_upgrade f \<or> \<not> d"
      using serve_target_websocket [OF t] none that assms(4) by auto
    consider (tries) "\<not> d" "f' = f\<lparr>fl_pc := Asks (Suc k), fl_serving := s1\<rparr>" "sh' = sh\<lparr>sh_world := sv_world s1\<rparr>"
      | (pipes) q conn c where "fl_upgrade f" "sh' = sh\<lparr>sh_world := sv_world s1\<rparr>"
          "f' = f\<lparr>fl_pc := Pipes q conn, fl_ws := Some q, fl_conn := c, fl_serving := s1\<rparr>"
      | (ends) d "returns Finished s1 f sh = (f', sh')"
      using assms(3) True n t ws
      by (auto simp: ask_step_def Let_def split: bool.splits option.splits ws_served.splits session_end.splits)
    then show ?thesis
    proof cases
      case tries
      have "flight_ok g (sh_heap sh') f'"
        using p(1) writer tries room hs sent k ws by (auto simp: flight_ok_def)
      with own p(2) e tries show ?thesis by (simp add: arrays_step_def free_ok_def owned_def)
    next
      case pipes
      have "flight_ok g (sh_heap sh') f'" using p(1) pipes room all [OF sent] by (simp add: flight_ok_def)
      with own p(2) e pipes show ?thesis by (simp add: arrays_step_def free_ok_def owned_def)
    next
      case ends
      from returns_ok [OF assms(1) own ends(2) room _ all [OF sent]] writer ends(1) e show ?thesis by auto
    qed
  qed
qed

lemma pipe_step_ok:
  assumes "shared_ok g f sh" and "fl_pc f = Pipes q conn" and "pipe_step env q conn f sh = (f', sh')"
  shows "flight_ok g (sh_heap sh') f' \<and> arrays_step g f sh f' sh' \<and> drifts t (sh_world sh) (sh_world sh')"
proof -
  let ?wp = "w_wsProxies (sh_world sh) ! q"
  let ?served = "serve_session (wcl_isCloseError (pr_call env)) conn (take 1 (wcl_events (pr_call env))) (fl_conn f) ?wp"
  have ok: "flight_ok g (sh_heap sh) f" "free_ok g sh" using assms(1) by (simp_all add: shared_ok_def)
  have own: "owned f = [fst (fl_slice f)]" using assms(2) by (simp add: owned_def)
  note drift = drifts_ws [of _ "sh_world sh" q t]
  note keeps = session_keeps [of "wcl_isCloseError (pr_call env)" conn "take 1 (wcl_events (pr_call env))" "fl_conn f" ?wp]
  show ?thesis
  proof (cases ?served)
    case (Running conn' c wp)
    then have "f' = f\<lparr>fl_conn := c\<rparr>" "sh' = sh\<lparr>sh_world := upd_ws q (\<lambda>_. wp) (sh_world sh)\<rparr>"
      using assms(3) by (simp_all add: pipe_step_def Let_def)
    with drift [of wp] keeps [of wp] Running ok assms(2) show ?thesis
      by (simp add: served_proxy_def flight_ok_def arrays_step_def owned_def free_ok_def)
  next
    case (Crashed e)
    then have "f' = f" "sh' = sh\<lparr>sh_crash := Some e\<rparr>" using assms(3) by (simp_all add: pipe_step_def Let_def)
    with ok show ?thesis by (simp add: arrays_step_def free_ok_def evolves_drifts)
  next
    case (Terminated info frame wp)
    let ?f = "f\<lparr>fl_conn := fst (cleanupConnectionSubscriptions (fl_conn f) ?wp)\<rparr>"
    have r: "returns Finished ((fl_serving f)\<lparr>sv_world := upd_ws q (\<lambda>_. wp) (sh_world sh), sv_websocket := Some (Served ?served)\<rparr>)
        ?f sh = (f', sh')"
      using assms(3) Terminated by (simp add: pipe_step_def Let_def)
    have "shared_ok g ?f sh" "owned ?f = [fst (fl_slice ?f)]"
      using assms(1,2) own by (simp_all add: shared_ok_def flight_ok_def owned_def)
    from returns_ok [OF this r] drift [of wp] keeps [of wp] ok assms(2) Terminated show ?thesis
      by (simp add: served_proxy_def flight_ok_def arrays_step_def owned_def)
  qed
qed

lemma advance_ok:
  assumes "shared_ok g f sh" and "advance env c f sh = (f', sh')" and "\<not> landed f"
    and "pr_isWebSocketUpgrade env (fl_request f) = fl_upgrade f"
  shows "flight_ok g (sh_heap sh') f' \<and> arrays_step g f sh f' sh' \<and> drifts (pr_now env) (sh_world sh) (sh_world sh')"
  using assms start_step_ok [OF assms(1)] collect_step_ok [OF assms(1)] ask_step_ok [OF assms(1) _ _ assms(4)]
    pipe_step_ok [OF assms(1)] evolves_drifts [OF evolves_refl] evolves_drifts
  by (auto simp: advance_def landed_def split: pc.splits)

lemma late_step_ok:
  assumes "shared_ok g f sh" and "fl_pc f = Finished" and "late_step dir bs q f sh = (f', sh')"
  shows "flight_ok g (sh_heap sh') f' \<and> arrays_step g f sh f' sh' \<and> drifts t (sh_world sh) (sh_world sh')"
  using assms drifts_ws [of _ "sh_world sh" q t] evolves_drifts [OF evolves_refl]
  by (auto simp: late_step_def shared_ok_def flight_ok_def arrays_step_def owned_def free_ok_def
      dest!: pipe_message_keeps split: sum.splits prod.splits)

text \<open>A step of a health check changes the checkers and nothing of the requests.\<close>

lemma check_advance_frames:
  "sh_heap (check_advance penv env hcm h branch t sh) = sh_heap sh"
  "sh_free (check_advance penv env hcm h branch t sh) = sh_free sh"
  "sh_crash (check_advance penv env hcm h branch t sh) = sh_crash sh"
  by (simp_all add: check_advance_def timer_reset_def set_check_def Let_def split: check_pc.split branch.split)

lemma check_advance_evolves:
  assumes "ready t branch h sh"
  shows "evolves t (sh_world sh) (sh_world (check_advance penv env hcm h branch t sh))"
  using assms block_check_evolves call_check_evolves timers_evolve(3)
  by (auto simp: ready_def check_advance_def timer_reset_def set_check_def Let_def split: check_pc.split branch.splits)

text \<open>A step of one request keeps the invariant.\<close>

lemma conc_inv_flight:
  assumes "conc_inv g (t, sh, xs @ f # ys)"
  shows "shared_ok g f sh"
  using assms by (auto simp: conc_inv_def shared_ok_def arrays_def)

lemma conc_inv_advance:
  assumes inv: "conc_inv g (t, sh, xs @ f # ys)"
    and f': "flight_ok g (sh_heap sh') f'" and a: "arrays_step g f sh f' sh'" and d: "drifts t (sh_world sh) (sh_world sh')"
  shows "conc_inv g (t, sh', xs @ f' # ys)"
proof -
  let ?X = "mset (concat (map owned (xs @ ys)))"
  have inv: "sys_inv g (t, sh_world sh)" "distinct (arrays sh (xs @ f # ys))"
    "\<forall>a \<in> set (arrays sh (xs @ f # ys)). a < length (sh_heap sh)"
    "list_all (flight_ok g (sh_heap sh)) (xs @ f # ys)"
    using inv by (simp_all add: conc_inv_def)
  have old: "mset (arrays sh (xs @ f # ys)) = ?X + (mset (map snd (sh_free sh)) + mset (owned f))"
    "mset (arrays sh' (xs @ f' # ys)) = ?X + (mset (map snd (sh_free sh')) + mset (owned f'))"
    by (simp_all add: arrays_def)
  then have m: "mset (arrays sh' (xs @ f' # ys)) = mset (arrays sh (xs @ f # ys)) \<or>
      mset (arrays sh' (xs @ f' # ys)) = mset (length (sh_heap sh) # arrays sh (xs @ f # ys)) \<and>
      length (sh_heap sh) < length (sh_heap sh')"
    using a by (auto simp: arrays_step_def)
  have fresh: "length (sh_heap sh) \<notin> set (arrays sh (xs @ f # ys))" using inv(3) by blast
  have "distinct (arrays sh' (xs @ f' # ys))"
    using m inv(2) fresh mset_eq_imp_distinct_iff by (metis distinct.simps(2))
  moreover have "\<forall>a \<in> set (arrays sh' (xs @ f' # ys)). a < length (sh_heap sh')"
  proof -
    have "length (sh_heap sh) \<le> length (sh_heap sh')" using a by (simp add: arrays_step_def)
    with m inv(3) show ?thesis by (fastforce dest!: mset_eq_setD)
  qed
  moreover have "flight_ok g (sh_heap sh') h" if "h \<in> set (xs @ ys)" for h
  proof (rule flight_ok_frame)
    show "flight_ok g (sh_heap sh) h" using that inv(4) by (auto simp: list_all_iff)
    fix b
    assume "b \<in> set (owned h)"
    then have "b \<notin> set (owned f)" "b < length (sh_heap sh)"
      using that inv(2,3) by (auto simp: arrays_def)
    then show "sh_heap sh' ! b = sh_heap sh ! b" using a by (simp add: arrays_step_def)
  qed
  moreover have "sys_inv g (t, sh_world sh')" using sys_inv_step [OF _ inv(1)] d by blast
  moreover have "free_ok g sh'" using a by (simp add: arrays_step_def)
  ultimately show ?thesis using f' by (auto simp: conc_inv_def list_all_iff)
qed

lemma conc_step_inv:
  assumes "conc_step late g k s s'" and "conc_inv g s"
  shows "conc_inv g s'"
  using assms
proof (induction rule: conc_step.induct)
  case (others sh t t' w' fs)
  have "t = t' \<and> drifts t (sh_world sh) w' \<or> t \<le> t' \<and> w' = sh_world sh"
    using background_evolves [OF others(2)] evolves_drifts by blast
  from sys_inv_step [OF this] others(3) show ?case by (simp add: conc_inv_def arrays_def free_ok_def)
next
  case (checks sh path hcm h t branch fs penv env)
  have "drifts t (sh_world sh) (sh_world (check_advance penv env hcm h branch t sh))"
    using check_advance_evolves [OF checks(4)] by (rule evolves_drifts)
  with sys_inv_step [of t t] checks.prems show ?case
    by (auto simp: conc_inv_def arrays_def free_ok_def check_advance_frames)
next
  case (arrives sh r path p w t fs env)
  then show ?case
    by (auto simp: conc_inv_def arrays_def owned_def flight_ok_def new_flight_def Let_def)
next
  case (proceeds sh f env t c f' sh' xs ys)
  from advance_ok [OF conc_inv_flight [OF proceeds.prems] proceeds(5,2,4)] proceeds(3) conc_inv_advance [OF proceeds.prems]
  show ?case by simp
next
  case (lingers sh f q dir bs f' sh' t xs ys)
  from late_step_ok [OF conc_inv_flight [OF lingers.prems] lingers(3,5)] conc_inv_advance [OF lingers.prems]
  show ?case by simp
next
  case (drops sh t fs x)
  then show ?case
    by (auto simp: conc_inv_def arrays_def free_ok_def distinct_map intro: inj_on_diff dest!: notin_set_remove1)
qed

section \<open>What holds at all times\<close>

lemma conc_initially:
  assumes "conc_init config seed g s"
  shows "conc_inv g s"
  using assms sys_initially by (cases s) (auto simp: conc_init_def conc_inv_def arrays_def free_ok_def)

interpretation concurrent: invariant_of "conc_any late g" "conc_inv g" "conc_init config seed g" for late g config seed
proof (unfold_locales, goal_cases)
  case (1 s t)
  then show ?case using conc_step_inv unfolding conc_any_def by blast
next
  case (2 s)
  then show ?case by (rule conc_initially)
qed

lemma conc_step_drifts:
  assumes "conc_step late g k (t, sh, fs) (t', sh', fs')" and "conc_inv g (t, sh, fs)"
  shows "t = t' \<and> drifts t (sh_world sh) (sh_world sh') \<or> t \<le> t' \<and> sh_world sh' = sh_world sh"
  using assms(1)
proof (cases rule: conc_step.cases)
  case (others w')
  then show ?thesis using background_evolves evolves_drifts by fastforce
next
  case (checks path hcm h branch penv env)
  then show ?thesis using check_advance_evolves evolves_drifts by blast
next
  case (proceeds f env c f' xs ys)
  with assms(2) have "shared_ok g f sh" by (auto intro: conc_inv_flight)
  with proceeds advance_ok [of g f sh env c f' sh'] show ?thesis by auto
next
  case (lingers f q dir bs f' xs ys)
  with assms(2) have "shared_ok g f sh" by (auto intro: conc_inv_flight)
  with lingers late_step_ok [of g f sh dir bs q f' sh' t] show ?thesis by simp
qed simp_all

lemma reach_built:
  assumes "reach (conc_init config seed g) (conc_any late g) s"
  obtains w where "valid_config config" "NewRPCGateway config seed empty_world = Returns (Inr (g, w))"
  using assms by (induction rule: reach.induct) (auto simp: conc_init_def sys_init_def)



text \<open>
  C4. Requests do not disturb each other through the pool of slices: no array belongs to two requests, or to a request
  and the pool; and what a request finds in its slice while it is being served are providers of its own path, in the
  configured order, none twice, and never a nil pointer.
\<close>

theorem slices_are_private:
  assumes "reach (conc_init config seed g) (conc_any late g) (t, sh, fs)"
  shows "distinct (map snd (sh_free sh) @ concat (map owned fs)) \<and>
    (\<forall>f \<in> set fs. fl_pc f \<noteq> Panicked \<and>
      (\<forall>k. fl_pc f = Asks k \<longrightarrow> (\<exists>p hs. map_of (gw_proxies g) (fl_path f) = Some p \<and> subseq hs (px_targets p) \<and>
        take (snd (fl_slice f)) (sh_heap sh ! fst (fl_slice f)) = map Some hs)))"
proof -
  note inv = concurrent.always [OF assms]
  have "fl_pc f \<noteq> Panicked \<and>
      (\<forall>k. fl_pc f = Asks k \<longrightarrow> (\<exists>p hs. map_of (gw_proxies g) (fl_path f) = Some p \<and> subseq hs (px_targets p) \<and>
        take (snd (fl_slice f)) (sh_heap sh ! fst (fl_slice f)) = map Some hs))" if "f \<in> set fs" for f
  proof -
    have "flight_ok g (sh_heap sh) f" using inv that by (simp add: conc_inv_def list_all_iff)
    then show ?thesis by (auto simp: flight_ok_def holds_def)
  qed
  moreover have "distinct (map snd (sh_free sh) @ concat (map owned fs))"
    using inv by (simp add: conc_inv_def arrays_def)
  ultimately show ?thesis by blast
qed

text \<open>
  C3. Whatever runs at the same time and whatever the providers and the client do: an HTTP request that has been served got
  one header and a body from a single provider, or a single JSON-RPC error, never a mixture of two; and every request was sent
  only to providers of its own path, in their order, at most once to each.
\<close>

theorem concurrent_responses:
  assumes "reach (conc_init config seed g) (conc_any late g) (t, sh, fs)" and "f \<in> set fs" and "fl_pc f = Finished"
  shows "(\<not> fl_upgrade f \<longrightarrow> one_source (sv_writer (fl_serving f))) \<and>
    (\<exists>p. map_of (gw_proxies g) (fl_path f) = Some p \<and>
      subseq (map fst (sv_sent (fl_serving f))) (map provider_Name (px_targets p)))"
  using concurrent.always [OF assms(1)] assms(2,3) by (auto simp: conc_inv_def list_all_iff flight_ok_def)

end
