(* ===== verification/Progress.thy ===== *)
theory Progress
  imports Concurrent
begin

text \<open>
  Every request among those that run at the same time ends: the number of steps that it has left, and runs
  that count its own steps.
\<close>

section \<open>The steps of one request\<close>

text \<open>How many steps of its own a request has left, at most, besides the messages of its websocket.\<close>

definition steps_left :: "Flight \<Rightarrow> nat" where
  "steps_left f = (case fl_pc f of
     Starts \<Rightarrow> 2 * length (targets f) + 3
   | Collects i \<Rightarrow> 2 * length (targets f) + 2 - i
   | Asks k \<Rightarrow> Suc (snd (fl_slice f)) - k
   | _ \<Rightarrow> 0)"

definition piping :: "Flight \<Rightarrow> bool" where
  "piping f = (case fl_pc f of Pipes q conn \<Rightarrow> True | _ \<Rightarrow> False)"

lemma advance_frames:
  assumes "advance env c f sh = (f', sh')"
  shows "fl_proxy f' = fl_proxy f \<and> fl_path f' = fl_path f \<and> fl_request f' = fl_request f \<and> fl_upgrade f' = fl_upgrade f"
  using assms
  by (auto simp: advance_def start_step_def collect_step_def check_step_def ask_step_def pipe_step_def returns_def Let_def
      split: pc.splits sum.splits prod.splits if_splits option.splits bool.splits ws_served.splits session_end.splits)

lemma pipe_step_left:
  assumes "fl_pc f = Pipes q conn" and "advance env c f sh = (f', sh')"
  shows "steps_left f' = 0"
  using assms by (auto simp: advance_def pipe_step_def returns_def steps_left_def Let_def split: session_end.splits)

lemma advance_steps:
  assumes "shared_ok g f sh" and "\<not> landed f" and "\<not> piping f" and "advance env c f sh = (f', sh')"
  shows "steps_left f' < steps_left f"
proof -
  have p: "fl_pc (fst (returns e s f sh)) = e" for e s by (simp add: returns_def)
  show ?thesis
  proof (cases "fl_pc f")
    case Starts
    with assms(4) show ?thesis
      by (auto simp: advance_def start_step_def steps_left_def split: sum.splits prod.splits if_splits)
  next
    case (Collects i)
    then obtain hs where "holds (sh_heap sh) (fl_slice f) hs" "subseq hs (take i (targets f))" "i \<le> length (targets f)"
      using assms(1) by (auto simp: shared_ok_def flight_ok_def)
    then have "snd (fl_slice f) \<le> i" using list_emb_length holds_length by fastforce
    with Collects assms(4) p \<open>i \<le> length (targets f)\<close> show ?thesis
      by (auto simp: advance_def collect_step_def check_step_def returns_def steps_left_def Let_def split: prod.splits if_splits)
  next
    case (Asks k)
    with assms(1) have "k \<le> snd (fl_slice f)" by (auto simp: shared_ok_def flight_ok_def dest: holds_length)
    with Asks assms(4) p show ?thesis
      by (auto simp: advance_def ask_step_def returns_def steps_left_def Let_def
          split: prod.splits if_splits option.splits bool.splits ws_served.splits session_end.splits)
  qed (use assms(2,3) in \<open>simp_all add: landed_def piping_def\<close>)
qed

text \<open>
  Runs of all requests that count the steps of the request with number \<open>i\<close>, without those that
  handle a message of its websocket.
\<close>

inductive conc_run :: "bool \<Rightarrow> RPCGateway \<Rightarrow> nat \<Rightarrow> nat \<Rightarrow> concurrent \<Rightarrow> concurrent \<Rightarrow> bool"
  for late :: bool and g :: RPCGateway and i :: nat where
  run_none: "conc_run late g i 0 s s"
| run_own: "conc_run late g i m s (t, sh, fs) \<Longrightarrow> conc_step late g (Some i) (t, sh, fs) s'' \<Longrightarrow> \<not> piping (fs ! i) \<Longrightarrow>
    conc_run late g i (Suc m) s s''"
| run_pipes: "conc_run late g i m s (t, sh, fs) \<Longrightarrow> conc_step late g (Some i) (t, sh, fs) s'' \<Longrightarrow> piping (fs ! i) \<Longrightarrow>
    conc_run late g i m s s''"
| run_other: "conc_run late g i m s s' \<Longrightarrow> conc_step late g k s' s'' \<Longrightarrow> k \<noteq> Some i \<Longrightarrow> conc_run late g i m s s''"

lemma late_step_frames:
  "late_step dir bs q f sh = (f', sh') \<Longrightarrow> fl_proxy f' = fl_proxy f \<and> fl_upgrade f' = fl_upgrade f \<and> fl_pc f' = fl_pc f"
  by (auto simp: late_step_def split: sum.splits prod.splits)

lemma conc_step_flight:
  assumes "conc_step late g k (t, sh, fs) (t', sh', fs')" and "i < length fs" and "conc_inv g (t, sh, fs)"
  shows "i < length fs' \<and> fl_proxy (fs' ! i) = fl_proxy (fs ! i) \<and> fl_upgrade (fs' ! i) = fl_upgrade (fs ! i) \<and>
    steps_left (fs' ! i) + (if k = Some i \<and> \<not> piping (fs ! i) then 1 else 0) \<le> steps_left (fs ! i)"
  using assms(1)
proof (cases rule: conc_step.cases)
  case (proceeds f env c f' xs ys)
  with assms(3) have "shared_ok g f sh" by (auto intro: conc_inv_flight)
  note own = advance_steps [OF this] advance_frames [of env c f sh f' sh'] pipe_step_left [of f _ _ env c sh f' sh']
  have "steps_left f' + (if \<not> piping f then 1 else 0) \<le> steps_left f"
    using own(1) [OF proceeds(6) _ proceeds(9)] own(3) [OF _ proceeds(9)]
    by (auto simp: piping_def split: pc.splits)
  with proceeds assms(2) own(2) show ?thesis by (auto simp: nth_append nth_Cons split: nat.split)
next
  case (lingers f q dir bs f' xs ys)
  moreover from this have "steps_left f' = steps_left f"
    using late_step_frames [of dir bs q f sh f' sh'] by (simp add: steps_left_def)
  ultimately show ?thesis using late_step_frames [of dir bs q f sh f' sh'] assms(2)
    by (auto simp: nth_append nth_Cons split: nat.split)
qed (use assms(2) in \<open>simp_all add: nth_append\<close>)

lemma conc_run_flight:
  assumes "conc_run late g i m s s'" and "conc_inv g s" and "i < length (snd (snd s))"
  shows "conc_inv g s' \<and> i < length (snd (snd s')) \<and> fl_proxy (snd (snd s') ! i) = fl_proxy (snd (snd s) ! i) \<and>
    fl_upgrade (snd (snd s') ! i) = fl_upgrade (snd (snd s) ! i) \<and>
    steps_left (snd (snd s') ! i) + m \<le> steps_left (snd (snd s) ! i)"
  using assms
proof (induction rule: conc_run.induct)
  case (run_own m s t sh fs s'')
  then show ?case
    using conc_step_inv [OF run_own.hyps(2)]
      conc_step_flight [of late g "Some i" t sh fs "fst s''" "fst (snd s'')" "snd (snd s'')" i]
    by simp
next
  case (run_pipes m s t sh fs s'')
  then show ?case
    using conc_step_inv [OF run_pipes.hyps(2)]
      conc_step_flight [of late g "Some i" t sh fs "fst s''" "fst (snd s'')" "snd (snd s'')" i]
    by simp
next
  case (run_other m s s' k s'')
  then show ?case
    using conc_step_inv [OF run_other.hyps(2)]
      conc_step_flight [of late g k "fst s'" "fst (snd s')" "snd (snd s')" "fst s''" "fst (snd s'')" "snd (snd s'')" i]
    by simp
qed simp

lemma conc_progress:
  assumes "i < length fs" and "\<not> landed (fs ! i)" and "sh_crash sh = None"
  shows "\<exists>s. conc_step late g (Some i) (t, sh, fs) s"
proof -
  define env where "env = (sample_env (\<lambda>k. unreachable))\<lparr>pr_now := t, pr_isWebSocketUpgrade := \<lambda>r. fl_upgrade (fs ! i)\<rparr>"
  obtain f' sh' where a: "advance env None (fs ! i) sh = (f', sh')" by (cases "advance env None (fs ! i) sh")
  have "fs = take i fs @ fs ! i # drop (Suc i) fs" "length (take i fs) = i"
    using assms(1) by (simp_all add: id_take_nth_drop)
  with conc_step.proceeds [OF assms(3,2) _ _ a, where t = t and xs = "take i fs" and ys = "drop (Suc i) fs" and g = g]
  show ?thesis by (auto simp: env_def)
qed


end
