(* ===== verification/Sessions.thy ===== *)
theory Sessions
  imports Progress
begin

text \<open>
  The websockets of a running gateway: which subscriptions are tracked while other requests, checks and
  taints run, and what a panic in one of them does.
\<close>

section \<open>Tracked subscriptions\<close>

text \<open>The subscriptions of the clients that are connected to the websocket proxy \<open>q\<close>.\<close>

definition client_subs :: "nat \<Rightarrow> Flight \<Rightarrow> string set" where
  "client_subs q f = (case fl_pc f of
     Pipes q' conn \<Rightarrow> if q' = q then set (cs_subscriptions (fl_conn f)) else {}
   | _ \<Rightarrow> {})"

definition open_subs :: "Flight list \<Rightarrow> nat \<Rightarrow> string set" where
  "open_subs fs q = (\<Union>f \<in> set fs. client_subs q f)"

definition tracked :: "World \<Rightarrow> nat \<Rightarrow> string set" where
  "tracked w q = set (wp_subscriptions (w_wsProxies w ! q))"

definition session_inv :: "RPCGateway \<Rightarrow> concurrent \<Rightarrow> bool" where
  "session_inv g = (\<lambda>(t, sh, fs). conc_inv g (t, sh, fs) \<and>
     (\<forall>q < length (w_wsProxies (sh_world sh)). tracked (sh_world sh) q \<subseteq> open_subs fs q))"

lemma open_subs_split [simp]:
  "open_subs (xs @ f # ys) q = open_subs (xs @ ys) q \<union> client_subs q f"
  by (auto simp: open_subs_def)

lemma client_subs_idle: "\<not> piping f \<Longrightarrow> client_subs q f = {}"
  by (simp add: client_subs_def piping_def split: pc.splits)

lemma evolves_tracked:
  assumes "evolves t w w'" and "q < length (w_wsProxies w')"
  shows "q < length (w_wsProxies w) \<and> tracked w' q \<subseteq> tracked w q"
  using assms by (auto simp: evolves_def tracked_def list_all2_conv_all_nth keeps_ws_def)

lemma tracked_upd_ws:
  "tracked (upd_ws q (\<lambda>_. p) w) q' = (if q' = q \<and> q < length (w_wsProxies w) then set (wp_subscriptions p) else tracked w q')"
  by (auto simp: tracked_def upd_ws_def upd_at_def nth_list_update list_update_beyond)

text \<open>One event of a connection.\<close>

lemma one_event_tracks:
  assumes "serve_session ic conn (take 1 es) c p = Running conn' c' p'"
  shows "tracks c p c' p'"
proof (cases es)
  case Nil
  with assms show ?thesis by (simp add: tracks_same)
next
  case (Cons e es')
  with assms show ?thesis
    by (cases e) (auto simp: closeAll_def dest: pipe_message_tracks split: sum.splits prod.splits)
qed

lemma tracks_subs:
  assumes "tracks c p c' p'" and "set (wp_subscriptions p) \<subseteq> S \<union> set (cs_subscriptions c)"
  shows "set (wp_subscriptions p') \<subseteq> S \<union> set (cs_subscriptions c')"
  using assms unfolding tracks_def by blast

lemma pipe_step_tracked:
  assumes "pipe_step env q conn f sh = (f', sh')" and "fl_pc f = Pipes q conn"
    and "q' < length (w_wsProxies (sh_world sh)) \<Longrightarrow> tracked (sh_world sh) q' \<subseteq> S \<union> client_subs q' f"
    and "q' < length (w_wsProxies (sh_world sh'))"
  shows "tracked (sh_world sh') q' \<subseteq> S \<union> client_subs q' f'"
proof -
  let ?p = "w_wsProxies (sh_world sh) ! q"
  let ?served = "serve_session (wcl_isCloseError (pr_call env)) conn (take 1 (wcl_events (pr_call env))) (fl_conn f) ?p"
  have len: "length (w_wsProxies (sh_world sh')) = length (w_wsProxies (sh_world sh))"
    using assms(1)
    by (auto simp: pipe_step_def returns_def releaseHealthyProviders_def world_simps Let_def split: session_end.splits)
  then have S: "tracked (sh_world sh) q' \<subseteq> S \<union> client_subs q' f" using assms(3,4) by simp
  show ?thesis
  proof (cases ?served)
    case (Running conn' c p)
    then have new: "f' = f\<lparr>fl_conn := c\<rparr>" "sh' = sh\<lparr>sh_world := upd_ws q (\<lambda>_. p) (sh_world sh)\<rparr>"
      using assms(1) by (simp_all add: pipe_step_def Let_def)
    show ?thesis
    proof (cases "q' = q")
      case True
      have "tracked (sh_world sh) q \<subseteq> S \<union> set (cs_subscriptions (fl_conn f))"
        using S assms(2) True by (simp add: client_subs_def)
      then have "set (wp_subscriptions p) \<subseteq> S \<union> set (cs_subscriptions c)"
        using tracks_subs [OF one_event_tracks [OF Running]] by (simp add: tracked_def)
      with assms(2,4) len True show ?thesis by (simp add: new(1) tracked_upd_ws client_subs_def) (simp add: new(2) tracked_upd_ws)
    next
      case False
      with S assms(2) show ?thesis by (simp add: new tracked_upd_ws client_subs_def)
    qed
  next
    case (Crashed e)
    with assms(1) S show ?thesis by (auto simp: pipe_step_def Let_def)
  next
    case (Terminated info frame p)
    then have new: "fl_pc f' = Finished" "sh_world sh' = upd_ws q (\<lambda>_. p) (sh_world sh)"
      using assms(1) by (auto simp: pipe_step_def returns_def releaseHealthyProviders_def Let_def)
    show ?thesis
    proof (cases "q' = q")
      case True
      have "tracked (sh_world sh) q \<subseteq> S \<union> set (cs_subscriptions (fl_conn f))"
        using S assms(2) True by (simp add: client_subs_def)
      then have "set (wp_subscriptions p) \<subseteq> S"
        using serve_session_tracked [OF Terminated] by (simp add: tracked_def)
      with assms(4) len True show ?thesis by (auto simp: new(2) tracked_upd_ws)
    next
      case False
      with S assms(2) show ?thesis by (simp add: new tracked_upd_ws client_subs_def)
    qed
  qed
qed

lemma advance_evolves:
  assumes "shared_ok g f sh" and "advance env c f sh = (f', sh')" and "\<not> piping f"
    and "pr_isWebSocketUpgrade env (fl_request f) = fl_upgrade f"
  shows "evolves (pr_now env) (sh_world sh) (sh_world sh')"
  using assms start_step_ok [OF assms(1)] collect_step_ok [OF assms(1)] ask_step_ok [OF assms(1) _ _ assms(4)]
  by (auto simp: advance_def piping_def split: pc.splits)

lemma advance_tracked:
  assumes "shared_ok g f sh" and "advance env c f sh = (f', sh')"
    and "pr_isWebSocketUpgrade env (fl_request f) = fl_upgrade f"
    and "\<And>q. q < length (w_wsProxies (sh_world sh)) \<Longrightarrow> tracked (sh_world sh) q \<subseteq> S q \<union> client_subs q f"
    and "q < length (w_wsProxies (sh_world sh'))"
  shows "tracked (sh_world sh') q \<subseteq> S q \<union> client_subs q f'"
proof (cases "piping f")
  case True
  then obtain q' conn where "fl_pc f = Pipes q' conn" by (auto simp: piping_def split: pc.splits)
  with pipe_step_tracked [of env q' conn f sh f' sh' q "S q"] assms(2,4,5) show ?thesis by (simp add: advance_def)
next
  case False
  with evolves_tracked [OF advance_evolves [OF assms(1,2) False assms(3)] assms(5)] assms(4) [of q] client_subs_idle
  show ?thesis by blast
qed

lemma session_step_inv:
  assumes "conc_step False g k s s'" and "session_inv g s"
  shows "session_inv g s'"
proof -
  have inv: "conc_inv g s'" using conc_step_inv [OF assms(1)] assms(2) by (auto simp: session_inv_def)
  have "case s' of (t, sh, fs) \<Rightarrow> \<forall>q < length (w_wsProxies (sh_world sh)). tracked (sh_world sh) q \<subseteq> open_subs fs q"
    using assms
  proof (induction rule: conc_step.induct)
    case (others sh t t' w' fs)
    have "evolves t (sh_world sh) w'" using background_evolves [OF others(2)] by auto
    with others(3) show ?case by (fastforce simp: session_inv_def dest: evolves_tracked)
  next
    case (checks sh path hcm h t branch fs penv env)
    from check_advance_evolves [OF checks(4)] checks.prems show ?case by (fastforce simp: session_inv_def dest: evolves_tracked)
  next
    case (arrives sh r path p w t fs env)
    then show ?case by (auto simp: session_inv_def open_subs_def)
  next
    case (proceeds sh f env t c f' sh' xs ys)
    have "shared_ok g f sh" using proceeds.prems by (auto simp: session_inv_def intro: conc_inv_flight)
    from advance_tracked [OF this proceeds(5,4), of "open_subs (xs @ ys)"] proceeds.prems show ?case
      by (simp add: session_inv_def)
  next
    case (drops sh t fs x)
    then show ?case by (simp add: session_inv_def)
  qed simp
  with inv show ?thesis by (auto simp: session_inv_def)
qed

interpretation sessions: invariant_of "conc_any False g" "session_inv g" "conc_init config seed g" for g config seed
proof (unfold_locales, goal_cases)
  case (1 s t)
  then show ?case using session_step_inv unfolding conc_any_def by blast
next
  case (2 s)
  obtain t sh fs where s: "s = (t, sh, fs)" by (cases s)
  have "list_all (\<lambda>q. wp_subscriptions q = []) (w_wsProxies (sh_world sh))"
    using 2 by (auto simp: s conc_init_def sys_init_def NewWebSocketProxy_def intro: new_gateway_ws)
  with conc_initially [OF 2] show ?case by (simp add: s session_inv_def tracked_def list_all_length)
qed

text \<open>
  C16. No leak in a running gateway whose pipes stop before the cleanup, whatever requests, health checks, taints and ends of
  other connections run in between: a subscription that a websocket proxy tracks belongs to a client that is
  connected through it; so when all its clients have gone, it tracks none.
\<close>

theorem tracked_by_open_websockets:
  assumes "reach (conc_init config seed g) (conc_any False g) (t, sh, fs)" and "q < length (w_wsProxies (sh_world sh))"
  shows "set (wp_subscriptions (w_wsProxies (sh_world sh) ! q)) \<subseteq> open_subs fs q \<and>
    (list_all (\<lambda>f. \<not> piping f) fs \<longrightarrow> wp_subscriptions (w_wsProxies (sh_world sh) ! q) = [])"
proof -
  have "set (wp_subscriptions (w_wsProxies (sh_world sh) ! q)) \<subseteq> open_subs fs q"
    using sessions.always [OF assms(1)] assms(2) by (simp add: session_inv_def tracked_def)
  moreover have "open_subs fs q = {}" if "list_all (\<lambda>f. \<not> piping f) fs"
    using that client_subs_idle by (auto simp: open_subs_def list_all_iff)
  ultimately show ?thesis by auto
qed

section \<open>A panic\<close>

text \<open>
  C38. One message ends the process: when a client that is connected to a websocket proxy, or its upstream, sends a message
  with a request identifier that is an array or an object where it is used as a key, the gateway crashes, and no
  request, on whatever path, makes a further step.
\<close>

theorem unhashable_identifier_stops_gateway:
  assumes "fl_pc (fs ! i) = Pipes q conn" and "i < length fs" and "sh_crash sh = None"
    and "unmarshal_map bs = Some msg" and "msg ''id'' = Some v" and "v \<in> range GArr \<union> range GObj"
    and "dir = TargetToClient \<or> map_index msg ''method'' \<in>
      {GStr ''eth_subscribe'', GStr ''shh_subscribe'', GStr ''net_subscribe''}"
  shows "conc_step late g (Some i) (t, sh, fs) (t, sh\<lparr>sh_crash := Some unhashable_panic\<rparr>, fs) \<and>
    \<not> conc_step late g k (t, sh\<lparr>sh_crash := Some unhashable_panic\<rparr>, fs) s"
proof
  let ?f = "fs ! i"
  define env where "env = (sample_env (\<lambda>k. unreachable))\<lparr>pr_now := t, pr_isWebSocketUpgrade := \<lambda>r. fl_upgrade ?f,
    pr_call := (pr_call (sample_env (\<lambda>k. unreachable)))\<lparr>wcl_events := [Message dir bs]\<rparr>\<rparr>"
  have "pipe_message dir bs (fl_conn ?f) (w_wsProxies (sh_world sh) ! q) = Inl unhashable_panic"
    unfolding pipe_panics_iff using assms(4-7) by blast
  then have a: "advance env None ?f sh = (?f, sh\<lparr>sh_crash := Some unhashable_panic\<rparr>)"
    using assms(1) by (simp add: advance_def pipe_step_def env_def Let_def)
  have "fs = take i fs @ ?f # drop (Suc i) fs" "length (take i fs) = i" "\<not> landed ?f"
    using assms(1,2) by (simp_all add: id_take_nth_drop landed_def)
  with conc_step.proceeds [OF assms(3) _ _ _ a, where t = t and xs = "take i fs" and ys = "drop (Suc i) fs" and g = g]
  show "conc_step late g (Some i) (t, sh, fs) (t, sh\<lparr>sh_crash := Some unhashable_panic\<rparr>, fs)"
    by (simp add: env_def)
  show "\<not> conc_step late g k (t, sh\<lparr>sh_crash := Some unhashable_panic\<rparr>, fs) s"
    by (auto elim: conc_stepE)
qed

end
