(* ===== verification/Flights.thy ===== *)
theory Flights
  imports Sessions
begin

text \<open>
  Single requests among those that run at the same time: a request that is not interrupted is served as
  \<open>ServeHTTP\<close> says, in whatever state the gateway is.
\<close>

section \<open>A request that is not interrupted\<close>

text \<open>
  A number of steps of one request alone, with the messages and errors that its websocket, if it becomes one,
  still has to handle: each step in a pipe takes the next of them.
\<close>

type_synonym flying = "pipe_event list \<times> Flight \<times> Shared"

definition fly_step :: "proxy_env \<Rightarrow> flying \<Rightarrow> flying" where
  "fly_step env = (\<lambda>(es, f, sh). (if piping f then drop 1 es else es, advance (offering es env) None f sh))"

primrec fly :: "proxy_env \<Rightarrow> nat \<Rightarrow> flying \<Rightarrow> flying" where
  "fly env 0 x = x"
| "fly env (Suc n) x = fly env n (fly_step env x)"

lemma fly_add: "fly env (m + n) x = fly env n (fly env m x)"
  by (induction m arbitrary: x) simp_all

lemma fly_step_walks:
  "\<not> piping f \<Longrightarrow> advance (offering es env) None f sh = y \<Longrightarrow> fly_step env (es, f, sh) = (es, y)"
  by (simp add: fly_step_def)

lemma fly_landed: "landed f \<Longrightarrow> fly env n (es, f, sh) = (es, f, sh)"
  by (induction n) (auto simp: fly_step_def advance_def landed_def piping_def)

lemma fly_lands:
  assumes "fly env n x = (es, f, sh)" and "landed f" and "n \<le> m"
  shows "fly env m x = (es, f, sh)"
  using assms fly_landed [OF assms(2), of env "m - n" es sh] fly_add [of env n "m - n" x] by simp

lemma fly_collects:
  assumes "fl_pc f = Collects i" and "i \<le> length (targets f)" and "fst (fl_slice f) < length (sh_heap sh)"
    and "length (targets f) \<le> length (sh_heap sh ! fst (fl_slice f))"
    and "holds (sh_heap sh) (fl_slice f)
      (filter (provider_IsHealthy (getConnectionType env (fl_request f)) (sh_world sh)) (take i (targets f)))"
  shows "\<exists>sl heap. fly env (length (targets f) - i) (es, f, sh) =
      (es, f\<lparr>fl_slice := sl, fl_pc := Collects (length (targets f))\<rparr>, sh\<lparr>sh_heap := heap\<rparr>) \<and>
    holds heap sl (filter (provider_IsHealthy (getConnectionType env (fl_request f)) (sh_world sh)) (targets f))"
  using assms
proof (induction "length (targets f) - i" arbitrary: f sh i)
  case 0
  then show ?case by (intro exI [of _ "fl_slice f"] exI [of _ "sh_heap sh"]) simp
next
  case (Suc l)
  let ?ok = "provider_IsHealthy (getConnectionType env (fl_request f)) (sh_world sh)"
  let ?x = "targets f ! i"
  obtain a n where sl: "fl_slice f = (a, n)" by (cases "fl_slice f")
  have i: "i < length (targets f)" "l = length (targets f) - Suc i" using Suc.hyps(2) by simp_all
  have take: "take (Suc i) (targets f) = take i (targets f) @ [?x]" using i(1) by (simp add: take_Suc_conv_app_nth)
  have n: "n = length (filter ?ok (take i (targets f)))" using holds_length [OF Suc.prems(5)] sl by simp
  then have "n \<le> i" using length_filter_le [of ?ok "take i (targets f)"] i(1) by simp
  then have "n < length (sh_heap sh ! a)" using i(1) Suc.prems(4) sl by simp
  note room = append_slice_room [OF this _ Suc.prems(5) [unfolded sl], of ?x]
  define sl' heap' where "sl' = (if ?ok ?x then (a, Suc n) else (a, n))"
    and "heap' = (if ?ok ?x then (sh_heap sh)[a := (sh_heap sh ! a)[n := Some ?x]] else sh_heap sh)"
  let ?f = "f\<lparr>fl_slice := sl', fl_pc := Collects (Suc i)\<rparr>" and ?sh = "sh\<lparr>sh_heap := heap'\<rparr>"
  have adv: "fly_step env (es, f, sh) = (es, ?f, ?sh)"
    using Suc.prems(1,3) i(1) room(1) sl
    by (intro fly_step_walks) (simp_all add: piping_def advance_def collect_step_def check_step_def sl'_def heap'_def Let_def)
  have "holds heap' sl' (filter ?ok (take (Suc i) (targets f)))"
    using room(2) Suc.prems(3,5) sl by (simp add: take sl'_def heap'_def)
  moreover have "length (targets f) \<le> length (heap' ! a)" "a < length heap'" "fst sl' = a"
    using Suc.prems(3,4) sl by (simp_all add: heap'_def sl'_def)
  ultimately obtain sl2 heap2 where "fly env (length (targets f) - Suc i) (es, ?f, ?sh) =
      (es, ?f\<lparr>fl_slice := sl2, fl_pc := Collects (length (targets f))\<rparr>, ?sh\<lparr>sh_heap := heap2\<rparr>)"
    "holds heap2 sl2 (filter ?ok (targets f))"
    using Suc.hyps(1) [where f = ?f and i = "Suc i" and sh = ?sh] i by auto
  moreover have "length (targets f) - i = Suc (length (targets f) - Suc i)" using i(1) by simp
  ultimately show ?case using adv by (intro exI [of _ sl2] exI [of _ heap2]) simp
qed

section \<open>A websocket that is not interrupted\<close>

text \<open>Whether the handler of a websocket proxy returned.\<close>

definition has_ended :: "ws_served option \<Rightarrow> bool" where
  "has_ended served = (case served of
     Some (Served (Running conn c p)) \<Rightarrow> False | Some (Served (Crashed e)) \<Rightarrow> False | _ \<Rightarrow> True)"

lemma upd_ws_twice [simp]: "upd_ws q (\<lambda>_. b) (upd_ws q (\<lambda>_. a) w) = upd_ws q (\<lambda>_. b) w"
  by (simp add: upd_ws_def upd_at_def)

lemma upd_ws_nth: "q < length (w_wsProxies w) \<Longrightarrow> w_wsProxies (upd_ws q (\<lambda>_. p) w) ! q = p"
  by (simp add: upd_ws_def)

text \<open>The messages of a websocket one by one are its session.\<close>

lemma fly_pipes:
  assumes "fl_pc f = Pipes q conn" and "q < length (w_wsProxies (sh_world sh))"
    and "serve_session (wcl_isCloseError (pr_call env)) conn es (fl_conn f) (w_wsProxies (sh_world sh) ! q) =
      Terminated info frame p'"
  shows "\<exists>rest f' sh'. fly env (length es) (es, f, sh) = (rest, f', sh') \<and> fl_pc f' = Finished \<and>
    sh_world sh' = upd_ws q (\<lambda>_. p') (sh_world sh) \<and> sh_crash sh' = sh_crash sh \<and>
    fl_serving f' = (fl_serving f)\<lparr>sv_world := upd_ws q (\<lambda>_. p') (sh_world sh),
      sv_websocket := Some (Served (Terminated info frame p'))\<rparr>"
  using assms
proof (induction es arbitrary: f sh)
  case (Cons e es)
  let ?ic = "wcl_isCloseError (pr_call env)" and ?p = "w_wsProxies (sh_world sh) ! q"
  let ?one = "serve_session ?ic conn [e] (fl_conn f) ?p"
  note one = Cons.prems(3) [unfolded serve_session_Cons [of _ _ e es]]
  have step: "fly_step env (e # es, f, sh) = (es, pipe_step (offering (e # es) env) q conn f sh)"
    using Cons.prems(1) by (simp add: fly_step_def piping_def advance_def)
  show ?case
  proof (cases ?one)
    case (Running conn' c p)
    let ?f = "f\<lparr>fl_conn := c\<rparr>" and ?sh = "sh\<lparr>sh_world := upd_ws q (\<lambda>_. p) (sh_world sh)\<rparr>"
    have "fly_step env (e # es, f, sh) = (es, ?f, ?sh)" using step Running by (simp add: pipe_step_def Let_def)
    moreover have "serve_session ?ic conn es (fl_conn ?f) (w_wsProxies (sh_world ?sh) ! q) = Terminated info frame p'"
      using one Running Cons.prems(2) by (simp add: upd_ws_nth)
    ultimately show ?thesis using Cons.IH [of ?f ?sh] Cons.prems(1,2) by (simp add: upd_ws_simps)
  next
    case (Crashed panic)
    with one show ?thesis by simp
  next
    case (Terminated info' frame' p)
    with one have "?one = Terminated info frame p'" by simp
    then have "\<exists>f' sh'. fly_step env (e # es, f, sh) = (es, f', sh') \<and> fl_pc f' = Finished \<and>
        sh_world sh' = upd_ws q (\<lambda>_. p') (sh_world sh) \<and> sh_crash sh' = sh_crash sh \<and>
        fl_serving f' = (fl_serving f)\<lparr>sv_world := upd_ws q (\<lambda>_. p') (sh_world sh),
          sv_websocket := Some (Served (Terminated info frame p'))\<rparr>"
      unfolding step by (simp add: pipe_step_def returns_def releaseHealthyProviders_def Let_def)
    then show ?thesis by (auto simp: fly_landed landed_def)
  qed
qed simp

text \<open>
  The handler up to the first message, and the whole handler: either they agree, or the former opened a connection
  and the latter ran it to its end.
\<close>

lemma failure_offering:
  "taint_http (offering es env) = taint_http env"
  "handleProviderFailure (offering es env) = handleProviderFailure env"
  "logSuccessfulRequest (offering es env) = logSuccessfulRequest env"
proof -
  show t: "taint_http (offering es env) = taint_http env"
    by (intro ext) (simp add: taint_http_def split: option.split)
  show "handleProviderFailure (offering es env) = handleProviderFailure env"
    by (intro ext) (simp add: handleProviderFailure_def recordMetrics_def t Let_def)
  show "logSuccessfulRequest (offering es env) = logSuccessfulRequest env"
    by (intro ext) (simp add: logSuccessfulRequest_def recordMetrics_def Let_def)
qed

lemma serve_target_offering:
  assumes "\<not> pr_isWebSocketUpgrade env r"
  shows "serve_target (offering es env) p r b n s = serve_target env p r b n s"
proof -
  have "forwardRequest (offering es env) p r b n url s = forwardRequest env p r b n url s" for url
    by (simp add: forwardRequest_def failure_offering Let_def split: option.split sum.split prod.split)
  with assms show ?thesis by (simp add: serve_target_def)
qed

lemma serve_target_opens:
  assumes "serve_target env p r b n s = (d, s')" and "has_ended (sv_websocket s')"
    and "\<And>q. np_wsProxy n = Some q \<Longrightarrow> q < length (w_wsProxies (sv_world s))" and "sv_websocket s = None"
  shows "serve_target (offering [] env) p r b n s = (d, s') \<and>
      (d \<longrightarrow> (\<forall>conn c px. sv_websocket s' \<noteq> Some (Served (Running conn c px)))) \<or>
    (\<exists>q conn px s1 info frame p'. d \<and> serve_target (offering [] env) p r b n s = (True, s1) \<and> GetWebSocketProxy n = Some q \<and>
      sv_websocket s1 = Some (Served (Running conn new_conn px)) \<and> q < length (w_wsProxies (sv_world s1)) \<and>
      serve_session (wcl_isCloseError (pr_call env)) conn (wcl_events (pr_call env)) new_conn (w_wsProxies (sv_world s1) ! q) =
        Terminated info frame p' \<and>
      s' = s1\<lparr>sv_world := upd_ws q (\<lambda>_. p') (sv_world s1), sv_websocket := Some (Served (Terminated info frame p'))\<rparr>)"
proof (cases "pr_isWebSocketUpgrade env r")
  case False
  then have "sv_websocket s' = None" using serve_target_websocket [OF assms(1)] assms(4) by simp
  with False assms(1) show ?thesis by (simp add: serve_target_offering)
next
  case True
  show ?thesis
  proof (cases "GetWebSocketProxy n")
    case None
    with True assms(1,4) show ?thesis by (simp add: serve_target_def)
  next
    case (Some q)
    have q: "np_wsProxy n = Some q" "q < length (w_wsProxies (sv_world s))" using Some assms(3) by (simp_all add: GetWebSocketProxy_def)
    obtain c px where px: "createNewConnection (pr_test env) (w_wsProxies (sv_world s) ! q) = (c, px)"
      by (cases "createNewConnection (pr_test env) (w_wsProxies (sv_world s) ! q)")
    show ?thesis
    proof (cases c)
      case None
      with True Some px assms(1) show ?thesis by (auto simp: serve_target_def failure_offering taint_http_def split: option.split)
    next
      case (Some conn)
      let ?px = "log_wire (ClosedConn conn) px"
      let ?w = "upd_ws q (\<lambda>_. ?px) (sv_world s)"
      let ?served = "\<lambda>es. ws_ServeHTTP (wcl_isCloseError (pr_call env)) (wcl_env (pr_call env)) (wcl_upgrade (pr_call env)) es ?px"
      let ?s = "\<lambda>es. s\<lparr>sv_world := (case served_proxy (?served es) of Some p \<Rightarrow> upd_ws q (\<lambda>_. p) (sv_world s) | None \<Rightarrow> ?w),
        sv_websocket := Some (?served es)\<rparr>"
      have opens: "serve_target (offering es env) p r b n s = (True, ?s es)" for es
        using True Some \<open>GetWebSocketProxy n = Some q\<close> px q
        by (simp add: serve_target_def provider_ServeHTTP_def upd_ws_nth Let_def split: option.split)
      have "offering (wcl_events (pr_call env)) env = env" by (simp add: offering_def)
      with opens [of "wcl_events (pr_call env)"] assms(1) have s': "d" "s' = ?s (wcl_events (pr_call env))" by simp_all
      show ?thesis
      proof (cases "wcl_upgrade (pr_call env)")
        case (Some err)
        with opens [of "[]"] s' show ?thesis by (simp add: ws_ServeHTTP_def served_proxy_def)
      next
        case ok: None
        obtain conn' px' where dial: "createNewConnection (wcl_env (pr_call env)) ?px = (conn', px')"
          by (cases "createNewConnection (wcl_env (pr_call env)) ?px")
        show ?thesis
        proof (cases conn')
          case None
          with ok dial opens [of "[]"] s' show ?thesis by (simp add: ws_ServeHTTP_def served_proxy_def)
        next
          case (Some up)
          let ?session = "serve_session (wcl_isCloseError (pr_call env)) up (wcl_events (pr_call env)) new_conn px'"
          have all: "?served (wcl_events (pr_call env)) = Served ?session" "?served [] = Served (Running up new_conn px')"
            using ok dial Some by (simp_all add: ws_ServeHTTP_def)
          with s'(2) assms(2) obtain info frame p' where e: "?session = Terminated info frame p'"
            by (cases ?session) (simp_all add: has_ended_def)
          show ?thesis
            using opens [of "[]"] s' all e q \<open>GetWebSocketProxy n = Some q\<close>
            by (intro disjI2 exI [of _ q] exI [of _ up] exI [of _ px'] exI [of _ "?s []"] exI [of _ info] exI [of _ frame]
                exI [of _ p']) (simp add: served_proxy_def upd_ws_nth upd_ws_simps)
        qed
      qed
    qed
  qed
qed

section \<open>The loop over the providers\<close>

text \<open>The websocket proxies of providers are among the shared objects.\<close>

definition ws_known :: "World \<Rightarrow> NodeProvider list \<Rightarrow> bool" where
  "ws_known w ns \<longleftrightarrow> (\<forall>n \<in> set ns. \<forall>q. np_wsProxy n = Some q \<longrightarrow> q < length (w_wsProxies w))"

lemma ws_known_evolves: "evolves t w w' \<Longrightarrow> ws_known w ns \<Longrightarrow> ws_known w' ns"
  by (auto simp: ws_known_def evolves_def dest: list_all2_lengthD)

lemma fly_asks:
  assumes "fl_pc f = Asks k" and "holds (sh_heap sh) (fl_slice f) hs" and "k \<le> length hs"
    and "sv_world (fl_serving f) = sh_world sh" and "sv_websocket (fl_serving f) = None" and "ws_known (sh_world sh) hs"
    and "es = wcl_events (pr_call env)"
    and "serve_loop env (fl_proxy f) (fl_request f) (fl_body f) (drop k hs) (fl_serving f) = (d, s')"
    and "has_ended (sv_websocket s')"
  shows "\<exists>rest f' sh'. fly env (Suc (length hs - k) + length es) (es, f, sh) = (rest, f', sh') \<and> fl_pc f' = Finished \<and>
    sh_world sh' = sv_world s' \<and> sh_crash sh' = sh_crash sh \<and>
    fl_serving f' = (if d then s' else write_error (fl_request f)
      (''All providers failed for chain '' @ hcm_path (px_hcm (fl_proxy f))) 503 (fl_body f) s')"
  using assms
proof (induction "length hs - k" arbitrary: f sh k)
  case 0
  have s: "(fl_serving f)\<lparr>sv_world := sh_world sh\<rparr> = fl_serving f" using 0(5) by (cases "fl_serving f") simp
  have e: "\<not> d" "s' = fl_serving f" "k = snd (fl_slice f)" "length hs = k"
    using 0 holds_length [OF 0(3)] by simp_all
  have "\<exists>f' sh'. fly_step env (es, f, sh) = (es, f', sh') \<and> fl_pc f' = Finished \<and> sh_world sh' = sv_world s' \<and>
      sh_crash sh' = sh_crash sh \<and> fl_serving f' = write_error (fl_request f) (''All providers failed for chain '' @ hcm_path (px_hcm (fl_proxy f))) 503
        (fl_body f) s'" unfolding e(2)
    using 0(2) e(1,3,4)
    by (simp add: fly_step_def piping_def advance_def ask_step_def returns_def releaseHealthyProviders_def s world_simps 0(5))
  then show ?case using e(1,4) by (auto simp: fly_landed landed_def)
next
  case (Suc l)
  let ?s = "fl_serving f" and ?n = "hs ! k"
  have k: "k < length hs" "k < snd (fl_slice f)" "length hs - k = Suc (length hs - Suc k)"
    using Suc.hyps(2) holds_length [OF Suc.prems(2)] by simp_all
  have s: "?s\<lparr>sv_world := sh_world sh\<rparr> = ?s" using Suc.prems(4) by (cases ?s) simp
  have drop: "drop k hs = ?n # drop (Suc k) hs" using k(1) by (simp add: Cons_nth_drop_Suc)
  obtain d1 s1 where t: "serve_target env (fl_proxy f) (fl_request f) (fl_body f) ?n ?s = (d1, s1)"
    by (cases "serve_target env (fl_proxy f) (fl_request f) (fl_body f) ?n ?s")
  have loop: "(if d1 then (True, s1) else serve_loop env (fl_proxy f) (fl_request f) (fl_body f) (drop (Suc k) hs) s1) = (d, s')"
    using Suc.prems(8) t by (simp add: drop serve_loop.simps(2) del: serve_loop_Cons split: bool.splits)
  have off: "offering [] (offering es env) = offering [] env" by (simp add: offering_def)
  have ask: "fly_step env (es, f, sh) = (es, ask_step (offering es env) k f sh)"
    using Suc.prems(1) by (simp add: fly_step_def piping_def advance_def)
  note n = holds_nth [OF Suc.prems(2) k(2)]
  note ask = ask [unfolded ask_step_def Let_def s off]
  have known: "q < length (w_wsProxies (sv_world ?s))" if "np_wsProxy ?n = Some q" for q
    using Suc.prems(4,6) nth_mem [OF k(1)] that by (auto simp: ws_known_def)
  have ended: "has_ended (sv_websocket s1)"
  proof (cases d1)
    case False
    with serve_target_websocket [OF t] Suc.prems(5) show ?thesis by (simp add: has_ended_def)
  qed (use loop Suc.prems(9) in simp)
  have longer: "\<exists>rest f' sh'. fly env (Suc (length hs - k) + length es) (es, f, sh) = (rest, f', sh') \<and> P f' sh'"
    if "fly env m (es, f, sh) = (rest, f', sh')" "fl_pc f' = Finished" "m \<le> Suc (length hs - k) + length es" "P f' sh'"
    for P m rest f' sh'
    using fly_lands [OF that(1) _ that(3)] that(2,4) by (auto simp: landed_def)
  from serve_target_opens [OF t ended known Suc.prems(5)] show ?case
  proof
    assume same: "serve_target (offering [] env) (fl_proxy f) (fl_request f) (fl_body f) ?n ?s = (d1, s1) \<and>
      (d1 \<longrightarrow> (\<forall>conn c px. sv_websocket s1 \<noteq> Some (Served (Running conn c px))))"
    show ?case
    proof (cases d1)
      case True
      let ?f = "f\<lparr>fl_pc := Finished, fl_serving := s1\<rparr>"
      have "fly_step env (es, f, sh) = (es, returns Finished s1 f sh)"
        using k(2) n True same by (auto simp: ask split: option.split ws_served.split session_end.split)
      then obtain sh1 where a: "fly_step env (es, f, sh) = (es, ?f, sh1)" "sh_world sh1 = sv_world s1" "sh_crash sh1 = sh_crash sh"
        by (simp add: returns_def releaseHealthyProviders_def)
      then have "fly env 1 (es, f, sh) = (es, ?f, sh1)" by simp
      from longer [OF this] a(2,3) True loop show ?thesis by auto
    next
      case False
      let ?f = "f\<lparr>fl_pc := Asks (Suc k), fl_serving := s1\<rparr>" and ?sh = "sh\<lparr>sh_world := sv_world s1\<rparr>"
      have "fly_step env (es, f, sh) = (es, ?f, ?sh)" using k(2) n False same by (simp add: ask)
      moreover have "evolves (pr_now env) (sh_world sh) (sv_world s1)"
        using serve_target_starts [where env = env and s = ?s] same Suc.prems(4) by auto
      then have "ws_known (sv_world s1) hs" using Suc.prems(6) by (rule ws_known_evolves)
      moreover have "sv_websocket s1 = None" using serve_target_websocket [OF t] False Suc.prems(5) by simp
      ultimately show ?thesis
        using Suc.hyps(1) [of "Suc k" ?f ?sh] Suc.hyps(2) Suc.prems(2,7,9) loop k False by (cases d) simp_all
    qed
  next
    assume "\<exists>q conn px s2 info frame p'. d1 \<and>
      serve_target (offering [] env) (fl_proxy f) (fl_request f) (fl_body f) ?n ?s = (True, s2) \<and> GetWebSocketProxy ?n = Some q \<and>
      sv_websocket s2 = Some (Served (Running conn new_conn px)) \<and> q < length (w_wsProxies (sv_world s2)) \<and>
      serve_session (wcl_isCloseError (pr_call env)) conn (wcl_events (pr_call env)) new_conn (w_wsProxies (sv_world s2) ! q) =
        Terminated info frame p' \<and>
      s1 = s2\<lparr>sv_world := upd_ws q (\<lambda>_. p') (sv_world s2), sv_websocket := Some (Served (Terminated info frame p'))\<rparr>"
    then obtain q conn px s2 info frame p' where o: "d1"
      "serve_target (offering [] env) (fl_proxy f) (fl_request f) (fl_body f) ?n ?s = (True, s2)" "GetWebSocketProxy ?n = Some q"
      "sv_websocket s2 = Some (Served (Running conn new_conn px))" "q < length (w_wsProxies (sv_world s2))"
      "serve_session (wcl_isCloseError (pr_call env)) conn es new_conn (w_wsProxies (sv_world s2) ! q) = Terminated info frame p'"
      "s1 = s2\<lparr>sv_world := upd_ws q (\<lambda>_. p') (sv_world s2), sv_websocket := Some (Served (Terminated info frame p'))\<rparr>"
      unfolding Suc.prems(7) by blast
    let ?f = "f\<lparr>fl_pc := Pipes q conn, fl_ws := Some q, fl_conn := new_conn, fl_serving := s2\<rparr>"
    let ?sh = "sh\<lparr>sh_world := sv_world s2\<rparr>"
    have a: "fly_step env (es, f, sh) = (es, ?f, ?sh)" using k(2) n o(2-4) by (simp add: ask)
    obtain rest f' sh' where "fly env (length es) (es, ?f, ?sh) = (rest, f', sh')" "fl_pc f' = Finished"
      "sh_world sh' = sv_world s1" "fl_serving f' = s1" "sh_crash sh' = sh_crash sh"
      using fly_pipes [of ?f q conn ?sh env es info frame p'] o(5-7) by auto
    with longer [of "Suc (length es)" rest f' sh'] a o(1) loop show ?case by simp
  qed
qed

lemma uninterrupted_flight:
  assumes "f = new_flight env path p r w (sh_world sh)" and "ws_known (sh_world sh) (px_targets p)"
    and "has_ended (sv_websocket (ServeHTTP env p (handler_request env path p r) (fl_serving f)))"
    and "es = wcl_events (pr_call env)"
  shows "\<exists>rest f' sh'. fly env (2 * length (px_targets p) + 3 + length es) (es, f, sh) = (rest, f', sh') \<and> fl_pc f' = Finished \<and>
    fl_serving f' = ServeHTTP env p (handler_request env path p r) (fl_serving f) \<and>
    sh_world sh' = sv_world (fl_serving f') \<and> sh_crash sh' = sh_crash sh"
proof -
  let ?m = "length (px_targets p)" and ?r = "handler_request env path p r" and ?s = "fl_serving f"
  let ?steps = "2 * ?m + 3 + length es"
  have f: "fl_pc f = Starts" "fl_proxy f = p" "fl_request f = ?r" "fl_upgrade f = pr_isWebSocketUpgrade env ?r"
    "sv_world ?s = sh_world sh" "fl_path f = path" "sv_websocket ?s = None"
    using assms(1) by (simp_all add: new_flight_def Let_def)
  define b where "b = (if pr_isWebSocketUpgrade env ?r then Inr [] else rq_body ?r)"
  have start: "fly_step env (es, f, sh) = (es, start_step None f sh)"
    by (simp add: fly_step_def piping_def advance_def f)
  note start = start [unfolded start_step_def f b_def [symmetric]]
  have serve: "ServeHTTP env p ?r ?s = (case b of
       Inl err \<Rightarrow> write_error ?r ''Failed to read request body'' 400 [] ?s
     | Inr bodyBytes \<Rightarrow>
         (let connType = getConnectionType env ?r; healthyProviders = getHealthyProviders connType p (sv_world ?s)
          in if length healthyProviders = 0 then
               write_error ?r (''No healthy providers available for chain '' @ hcm_path (px_hcm p)) 503 bodyBytes ?s
             else
               (case serve_loop env p ?r bodyBytes healthyProviders ?s of
                  (True, s1) \<Rightarrow> s1
                | (False, s1) \<Rightarrow>
                    write_error ?r (''All providers failed for chain '' @ hcm_path (px_hcm p)) 503 bodyBytes s1)))"
    unfolding ServeHTTP_def b_def ..
  have lands: "\<exists>rest f' sh'. fly env ?steps (es, f, sh) = (rest, f', sh') \<and> fl_pc f' = Finished \<and>
      fl_serving f' = ServeHTTP env p ?r ?s \<and> sh_world sh' = sv_world (fl_serving f') \<and> sh_crash sh' = sh_crash sh"
    if "fly env n (es, f, sh) = (rest, f', sh')" "fl_pc f' = Finished" "fl_serving f' = ServeHTTP env p ?r ?s"
      "sh_world sh' = sv_world (fl_serving f')" "sh_crash sh' = sh_crash sh" "n \<le> ?steps" for n rest f' sh'
    using fly_lands [OF that(1) _ that(6)] that(2-5) by (auto simp: landed_def)
  show ?thesis
  proof (cases b)
    case (Inl err)
    let ?f = "f\<lparr>fl_pc := Finished, fl_serving := write_error ?r ''Failed to read request body'' 400 [] ?s\<rparr>"
    have "fly env 1 (es, f, sh) = (es, ?f, sh)" using start Inl by simp
    moreover have "ServeHTTP env p ?r ?s = write_error ?r ''Failed to read request body'' 400 [] ?s"
      using serve Inl by simp
    ultimately show ?thesis using lands [of 1 es ?f sh] f(5) by (simp add: world_simps)
  next
    case (Inr body)
    let ?ok = "provider_IsHealthy (getConnectionType env ?r) (sh_world sh)"
    let ?hs = "filter ?ok (px_targets p)"
    let ?heap = "sh_heap sh @ [replicate ?m None]"
    let ?f1 = "f\<lparr>fl_body := body, fl_slice := (length (sh_heap sh), 0), fl_pc := Collects 0\<rparr>"
    let ?sh1 = "sh\<lparr>sh_heap := ?heap\<rparr>"
    have one: "fly_step env (es, f, sh) = (es, ?f1, ?sh1)"
      using start Inr by (simp add: pool_Get_def)
    obtain sl heap where two: "fly env ?m (es, ?f1, ?sh1) = (es, ?f1\<lparr>fl_slice := sl, fl_pc := Collects ?m\<rparr>, sh\<lparr>sh_heap := heap\<rparr>)"
      and h: "holds heap sl ?hs"
      using fly_collects [of ?f1 0 ?sh1 env es] f by (auto simp: holds_Nil)
    let ?f2 = "?f1\<lparr>fl_slice := sl, fl_pc := Collects ?m\<rparr>" and ?sh2 = "sh\<lparr>sh_heap := heap\<rparr>"
    note len = holds_length [OF h]
    have s: "?s\<lparr>sv_world := sh_world sh\<rparr> = ?s" using f(5) by (cases ?s) simp
    have fly: "fly env (Suc ?m + n) (es, f, sh) = fly env n (es, ?f2, ?sh2)" for n
      using fly_add [of env "Suc ?m" n "(es, f, sh)"] one two by simp
    show ?thesis
    proof (cases "?hs = []")
      case True
      let ?err = "write_error ?r (''No healthy providers available for chain '' @ hcm_path (px_hcm p)) 503 body ?s"
      obtain sh3 where "fly_step env (es, ?f2, ?sh2) = (es, ?f2\<lparr>fl_pc := Finished, fl_serving := ?err\<rparr>, sh3)"
        and w: "sh_world sh3 = sh_world sh" "sh_crash sh3 = sh_crash sh"
        using len True f
        by (auto simp: fly_step_def piping_def advance_def collect_step_def check_step_def returns_def
            releaseHealthyProviders_def s world_simps)
      then have "fly env (Suc ?m + 1) (es, f, sh) = (es, ?f2\<lparr>fl_pc := Finished, fl_serving := ?err\<rparr>, sh3)" unfolding fly by simp
      from lands [OF this] show ?thesis
        using serve Inr True f(5) w by (simp add: getHealthyProviders_def world_simps)
    next
      case False
      let ?f3 = "?f2\<lparr>fl_pc := Asks 0\<rparr>"
      have three: "fly_step env (es, ?f2, ?sh2) = (es, ?f3, ?sh2)"
        using len False f by (auto simp: fly_step_def piping_def advance_def collect_step_def check_step_def Let_def)
      obtain d s' where loop: "serve_loop env p ?r body ?hs ?s = (d, s')" by (cases "serve_loop env p ?r body ?hs ?s")
      have all: "ServeHTTP env p ?r ?s = (if d then s' else write_error ?r
          (''All providers failed for chain '' @ hcm_path (px_hcm p)) 503 body s')"
        using serve Inr False f(5) loop by (cases d) (simp_all add: getHealthyProviders_def)
      then have "has_ended (sv_websocket s')" using assms(3) by (simp add: write_error_def split: if_splits)
      moreover have "ws_known (sh_world sh) ?hs" using assms(2) by (auto simp: ws_known_def)
      ultimately obtain rest f' sh' where four: "fly env (Suc (length ?hs) + length es) (es, ?f3, ?sh2) = (rest, f', sh')"
        "fl_pc f' = Finished" "sh_world sh' = sv_world s'" "fl_serving f' = ServeHTTP env p ?r ?s" "sh_crash sh' = sh_crash sh"
        using fly_asks [of ?f3 0 ?sh2 ?hs es env d s'] h f loop assms(4) all by auto
      have "fly env (Suc ?m + Suc (Suc (length ?hs) + length es)) (es, f, sh) = (rest, f', sh')"
        unfolding fly using three four(1) by simp
      note lands = lands [OF this four(2,4)]
      have "length ?hs \<le> ?m" by simp
      moreover have "sv_world s' = sv_world (ServeHTTP env p ?r ?s)" using all by (simp add: world_simps)
      ultimately show ?thesis using lands four(3-5) by simp
    qed
  qed
qed

lemma running_ws_known:
  assumes "reach (conc_init config seed g) (conc_any late g) (t, sh, fs)" and "(path, p) \<in> set (gw_proxies g)"
  shows "ws_known (sh_world sh) (px_targets p)"
  using concurrent.always [OF assms(1)] assms(2)
  by (fastforce simp: conc_inv_def sys_inv_def list_all_iff ws_known_def wired_def split: option.splits)

text \<open>The steps of one request are steps of the gateway, as long as nothing crashes.\<close>

lemma advance_crash:
  "advance env c f sh = (f', sh') \<Longrightarrow> sh_crash sh' = None \<Longrightarrow> sh_crash sh = None"
  by (auto simp: advance_def start_step_def collect_step_def check_step_def ask_step_def pipe_step_def returns_def
      releaseHealthyProviders_def pool_Get_def Let_def
      split: pc.splits sum.splits prod.splits if_splits option.splits bool.splits ws_served.splits session_end.splits)

lemma fly_crash: "fly env n (es, f, sh) = (es', f', sh') \<Longrightarrow> sh_crash sh' = None \<Longrightarrow> sh_crash sh = None"
proof (induction n arbitrary: es f sh)
  case (Suc n)
  obtain es1 f1 sh1 where step: "fly_step env (es, f, sh) = (es1, f1, sh1)" by (cases "fly_step env (es, f, sh)")
  then have "advance (offering es env) None f sh = (f1, sh1)" by (simp add: fly_step_def)
  from advance_crash [OF this] Suc step show ?case by simp
qed simp

lemma fly_reach:
  "fly env n (es, f, sh) = (es', f', sh') \<Longrightarrow> reach (conc_init config seed g) (conc_any late g) (t, sh, fs @ [f]) \<Longrightarrow>
   pr_now env = t \<Longrightarrow> pr_isWebSocketUpgrade env (fl_request f) = fl_upgrade f \<Longrightarrow> sh_crash sh' = None \<Longrightarrow>
   reach (conc_init config seed g) (conc_any late g) (t, sh', fs @ [f'])"
proof (induction n arbitrary: es f sh)
  case (Suc n)
  obtain es1 f1 sh1 where step: "fly_step env (es, f, sh) = (es1, f1, sh1)" by (cases "fly_step env (es, f, sh)")
  then have fly: "fly env n (es1, f1, sh1) = (es', f', sh')" using Suc.prems(1) by simp
  show ?case
  proof (cases "landed f")
    case True
    with fly_landed [OF True, of env "Suc n" es sh] Suc.prems(1,2) show ?thesis by simp
  next
    case False
    have a: "advance (offering es env) None f sh = (f1, sh1)" using step by (simp add: fly_step_def)
    have env: "pr_now (offering es env) = t" "pr_isWebSocketUpgrade (offering es env) (fl_request f) = fl_upgrade f"
      using Suc.prems(3,4) by simp_all
    have up: "sh_crash sh = None" by (rule fly_crash [OF Suc.prems(1,5)])
    from conc_step.proceeds [OF up False env a, where xs = fs and ys = "[]" and g = g]
    have "conc_any late g (t, sh, fs @ [f]) (t, sh1, fs @ [f1])" unfolding conc_any_def by blast
    with Suc.prems(2) have "reach (conc_init config seed g) (conc_any late g) (t, sh1, fs @ [f1])" by (rule reach_step)
    with Suc.IH [OF fly] Suc.prems(3-5) advance_frames [OF a] show ?thesis by simp
  qed
qed simp

lemma arriving_flight:
  assumes "reach (conc_init config seed g) (conc_any late g) (t, sh, fs)" and "sh_crash sh = None"
    and "mux_serve (gw_routes g) (rq_path r) = Found path" and "map_of (gw_proxies g) path = Some p" and "fresh_writer w"
  shows "reach (conc_init config seed g) (conc_any late g) (t, sh, fs @ [new_flight env path p r w (sh_world sh)])"
proof (rule reach_step [OF assms(1)])
  show "conc_any late g (t, sh, fs) (t, sh, fs @ [new_flight env path p r w (sh_world sh)])"
    unfolding conc_any_def using conc_step.arrives [OF assms(2-5)] by blast
qed


section \<open>A health check that is not interrupted\<close>


section \<open>A request to a running gateway\<close>

lemma serve_loop_websocket:
  "serve_loop env p r body ns s = (d, s') \<Longrightarrow> \<not> pr_isWebSocketUpgrade env r \<Longrightarrow> sv_websocket s' = sv_websocket s"
proof (induction ns arbitrary: s)
  case (Cons n ns)
  obtain d1 s1 where t: "serve_target env p r body n s = (d1, s1)" by (cases "serve_target env p r body n s")
  with Cons serve_target_websocket [OF t] show ?case
    by (cases d1) (simp_all add: serve_loop.simps(2) del: serve_loop_Cons)
qed simp

lemma ServeHTTP_websocket:
  assumes "\<not> pr_isWebSocketUpgrade env r"
  shows "sv_websocket (ServeHTTP env p r s) = sv_websocket s"
  using serve_loop_websocket [OF _ assms]
  by (auto simp: ServeHTTP_def write_error_def Let_def split: sum.split bool.split prod.split)


end
