(* ===== verification/Samples.thy ===== *)
theory Samples
  imports Flights
begin

text \<open>
  Sample runs of the gateway of the sample configuration: the theorems on running gateways at concrete inputs.
\<close>

section \<open>A gateway with nothing in flight\<close>

text \<open>The goroutines of the checkers were started at time 0.\<close>

abbreviation idle :: "World \<Rightarrow> Shared" where
  "idle w \<equiv> \<lparr>sh_world = w, sh_heap = [], sh_free = [], sh_checks = (\<lambda>h. Waits (Start 0 (checker w h))), sh_crash = None\<rparr>"

abbreviation sample_reach :: "bool \<Rightarrow> RPCGateway \<Rightarrow> concurrent \<Rightarrow> bool" where
  "sample_reach late g \<equiv> reach (conc_init sample_gateway_config (\<lambda>p. 0) g) (conc_any late g)"

definition sample_post :: ServerRequest where
  "sample_post = sample_request\<lparr>rq_path := ''/eth''\<rparr>"

text \<open>The gateway, its first proxy and the two providers of it.\<close>

definition sample_gateway :: "RPCGateway \<Rightarrow> World \<Rightarrow> Proxy \<Rightarrow> NodeProvider \<Rightarrow> NodeProvider \<Rightarrow> bool" where
  "sample_gateway g w p a n \<longleftrightarrow>
     NewRPCGateway sample_gateway_config (\<lambda>p. 0) empty_world = Returns (Inr (g, w)) \<and>
     gw_config g = sample_gateway_config \<and> (''eth'', p) \<in> set (gw_proxies g) \<and>
     map_of (gw_proxies g) ''eth'' = Some p \<and> mux_serve (gw_routes g) (rq_path sample_post) = Found ''eth'' \<and>
     px_targets p = [a, n] \<and> np_config a = mk_target ''a'' ''https://a'' [] ''wss://a'' \<and>
     np_config n = mk_target ''b'' ''https://b'' [] [] \<and> wired w a \<and> wired w n \<and> all_healthy w"

lemma sample_running:
  obtains g w p a n where "sample_gateway g w p a n" "\<And>late. sample_reach late g (0, idle w, [])"
proof -
  obtain g w where b: "NewRPCGateway sample_gateway_config (\<lambda>p. 0) empty_world = Returns (Inr (g, w))"
    "map fst (gw_proxies g) = [''eth'', ''e'']"
    by (rule sample_gateway_built)
  have config: "gw_config g = sample_gateway_config" by (rule NewRPCGateway_cases [OF b(1)])
  let ?pc = "gc_Proxies sample_gateway_config ! 0"
  have pc: "?pc \<in> set (gc_Proxies sample_gateway_config)" "pc_Path ?pc = ''eth''" "\<not> gc_RandomizeProviders sample_gateway_config"
    "pc_Targets ?pc = [mk_target ''a'' ''https://a'' [] ''wss://a'', mk_target ''b'' ''https://b'' [] []]"
    by (simp_all add: sample_gateway_config_def)
  obtain j p where p: "(''eth'', p) \<in> set (gw_proxies g)" "entry_made False j ?pc w p"
    using gateway_entry [OF b(1) sample_paths_distinct pc(1)] pc(2,3) by metis
  obtain a n where ts: "px_targets p = [a, n]" "np_config a = mk_target ''a'' ''https://a'' [] ''wss://a''"
    "np_config n = mk_target ''b'' ''https://b'' [] []" "wired w a" "wired w n"
    using p(2) pc(4) by (auto simp: entry_made_def)
  have clean: "clean_path ''/eth'' = ''/eth''" by code_simp
  have finds: "mux_serve (gw_routes g) (rq_path sample_post) = Found ''eth''" "map_of (gw_proxies g) ''eth'' = Some p"
    using gateway_finds [OF b(1) sample_paths_plain p(1), where r = sample_post and suffix = "[]"] clean
    by (simp_all add: sample_post_def)
  have "all_healthy w"
    by (rule NewRPCGateway_cases [OF b(1)])
       (use build_proxies_keeps [where I = all_healthy] NewProxy_healthy in \<open>fastforce simp: all_healthy_def empty_world_def\<close>)
  with b(1) config p(1) finds ts have gw: "sample_gateway g w p a n" by (simp add: sample_gateway_def)
  have "valid_config sample_gateway_config"
    using sample_paths_distinct by (simp add: valid_config_def sample_gateway_config_def)
  with b(1) have "conc_init sample_gateway_config (\<lambda>p. 0) g (0, idle w, [])"
    by (simp add: conc_init_def sys_init_def)
  then have "sample_reach late g (0, idle w, [])" for late by (rule reach_init)
  with gw show thesis by (rule that)
qed

lemma conc_anyI: "conc_step late g k s s' \<Longrightarrow> conc_any late g s s'"
  unfolding conc_any_def by blast

lemma sample_stops:
  assumes "gw_config g = sample_gateway_config"
  obtains w' where "gateway_Stop None None g w = ([], w')"
  using assms by (simp add: gateway_Stop_def log_close_def isServerClosedError_def IsEnabled_def sample_gateway_config_def)

section \<open>HTTP requests\<close>

definition sample_flight :: "Proxy \<Rightarrow> World \<Rightarrow> Flight" where
  "sample_flight p w = new_flight (sample_env (\<lambda>k. unreachable)) ''eth'' p sample_post (idle_writer None) w"

lemma sample_flight_simps [simp]:
  "fl_pc (sample_flight p w) = Starts" "\<not> fl_upgrade (sample_flight p w)" "fl_proxy (sample_flight p w) = p"
  "fl_path (sample_flight p w) = ''eth''" "rq_body (fl_request (sample_flight p w)) = Inr ''ping''"
  by (simp_all add: sample_flight_def new_flight_def handler_request_def sample_post_def Let_def)

lemma sample_arrives:
  assumes "sample_gateway g w p a n" and "sh_crash sh = None"
  shows "conc_any late g (t, sh, fs) (t, sh, fs @ [sample_flight p (sh_world sh)])"
  unfolding sample_flight_def
  by (rule conc_anyI, rule conc_step.arrives) (use assms in \<open>simp_all add: sample_gateway_def\<close>)



text \<open>Two requests at the same time, each with an array of its own.\<close>

theorem slices_are_private_witness:
  "\<exists>g sh f1 f2. reach (conc_init sample_gateway_config (\<lambda>p. 0) g) (conc_any False g) (0, sh, [f1, f2]) \<and>
    fl_pc f1 = Collects 0 \<and> fl_pc f2 = Collects 0 \<and> distinct (owned f1 @ owned f2)"
proof -
  obtain g w p a n where g: "sample_gateway g w p a n" and r: "sample_reach False g (0, idle w, [])"
    by (rule sample_running) blast
  let ?env = "sample_env (\<lambda>k. unreachable)" and ?f = "sample_flight p w"
  have env: "pr_now ?env = 0" by (simp add: sample_env_def)
  have begins: "\<exists>f' sh'. conc_any False g (0, sh, xs @ ?f # ys) (0, sh', xs @ f' # ys) \<and> fl_pc f' = Collects 0 \<and>
      sh_crash sh' = None" if up: "sh_crash sh = None" for sh xs ys
  proof -
    obtain f' sh' where "advance ?env None ?f sh = (f', sh')" "fl_pc f' = Collects 0" "sh_crash sh' = None"
      using up by (simp add: advance_def start_step_def pool_Get_def)
    with conc_step.proceeds [OF up _ env _ this(1)] show ?thesis unfolding conc_any_def by (fastforce simp: landed_def)
  qed
  have "conc_any False g (0, idle w, []) (0, idle w, [?f])" "conc_any False g (0, idle w, [?f]) (0, idle w, [?f, ?f])"
    using sample_arrives [OF g, of "idle w" False 0 "[]"] sample_arrives [OF g, of "idle w" False 0 "[?f]"] by simp_all
  with r have r2: "sample_reach False g (0, idle w, [?f, ?f])" by (blast intro: reach_step)
  obtain f2 sh2 where 2: "conc_any False g (0, idle w, [?f, ?f]) (0, sh2, [?f, f2])" "fl_pc f2 = Collects 0" "sh_crash sh2 = None"
    using begins [of "idle w" "[?f]" "[]"] by auto
  obtain f1 sh1 where 1: "conc_any False g (0, sh2, [?f, f2]) (0, sh1, [f1, f2])" "fl_pc f1 = Collects 0"
    using begins [OF 2(3), of "[]" "[f2]"] by auto
  have "sample_reach False g (0, sh1, [f1, f2])"
    by (rule reach_step [OF reach_step [OF r2 2(1)] 1(1)])
  with slices_are_private [OF this] 1(2) 2(2) show ?thesis by auto
qed

lemma fly_frames: "fly env m (es, f, sh) = (es', f', sh') \<Longrightarrow> fl_upgrade f' = fl_upgrade f"
proof (induction m arbitrary: es f sh)
  case (Suc m)
  obtain es1 f1 sh1 where step: "fly_step env (es, f, sh) = (es1, f1, sh1)" by (cases "fly_step env (es, f, sh)")
  then have "advance (offering es env) None f sh = (f1, sh1)" by (simp add: fly_step_def)
  from advance_frames [OF this] Suc step show ?case by simp
qed simp

lemma sample_served:
  assumes "sample_gateway g w p a n" and "sample_reach late g (0, idle w, [])"
  obtains f sh where "sample_reach late g (0, sh, [f])" "fl_pc f = Finished" "\<not> fl_upgrade f"
proof -
  let ?env = "sample_env (\<lambda>k. unreachable)" and ?f = "sample_flight p w"
  have env: "pr_now ?env = 0" "wcl_events (pr_call ?env) = []" by (simp_all add: sample_env_def sample_call_def)
  have find: "mux_serve (gw_routes g) (rq_path sample_post) = Found ''eth''" "map_of (gw_proxies g) ''eth'' = Some p"
    using assms(1) by (simp_all add: sample_gateway_def)
  have known: "ws_known w (px_targets p)" using running_ws_known [OF assms(2)] map_of_SomeD [OF find(2)] by simp
  have "has_ended (sv_websocket (ServeHTTP ?env p (handler_request ?env ''eth'' p sample_post) (fl_serving ?f)))"
    using ServeHTTP_websocket [of ?env "handler_request ?env ''eth'' p sample_post" p "fl_serving ?f"]
    by (simp add: has_ended_def sample_flight_def new_flight_def Let_def)
  then obtain es f sh where fly: "fly ?env (2 * length (px_targets p) + 3) ([], ?f, idle w) = (es, f, sh)"
    "fl_pc f = Finished" "sh_crash sh = None"
    using uninterrupted_flight [of ?f ?env "''eth''" p sample_post "idle_writer None" "idle w" "[]"] known env(2)
    by (auto simp: sample_flight_def)
  have "sample_reach late g (0, idle w, [] @ [?f])"
    using reach_step [OF assms(2) sample_arrives [OF assms(1)]] by simp
  from fly_reach [OF fly(1) this env(1) _ fly(3)] have r: "sample_reach late g (0, sh, [f])" by simp
  have "fl_upgrade f = fl_upgrade ?f" using fly_frames [OF fly(1)] by simp
  with r fly(2) show thesis by (intro that) simp_all
qed

theorem concurrent_responses_witness:
  "\<exists>g sh f. reach (conc_init sample_gateway_config (\<lambda>p. 0) g) (conc_any False g) (0, sh, [f]) \<and> fl_pc f = Finished \<and>
    one_source (sv_writer (fl_serving f))"
proof -
  obtain g w p a n where g: "sample_gateway g w p a n" and r: "sample_reach False g (0, idle w, [])"
    by (rule sample_running) blast
  obtain f sh where f: "sample_reach False g (0, sh, [f])" "fl_pc f = Finished" "\<not> fl_upgrade f"
    by (rule sample_served [OF g r])
  with concurrent_responses [OF f(1), of f] show ?thesis by auto
qed



section \<open>A health check\<close>


section \<open>Websockets\<close>

text \<open>A client that asks for a websocket, and what then happens on its connection.\<close>

definition sample_socket :: "pipe_event list \<Rightarrow> proxy_env" where
  "sample_socket es = (sample_env (\<lambda>k. unreachable))\<lparr>pr_isWebSocketUpgrade := \<lambda>r. True,
     pr_call := sample_call\<lparr>wcl_events := es\<rparr>\<rparr>"

lemma sample_socket_simps [simp]:
  "pr_isWebSocketUpgrade (sample_socket es) r" "pr_test (sample_socket es) = sample_ws_env" "pr_now (sample_socket es) = 0"
  "wcl_events (pr_call (sample_socket es)) = es" "wcl_env (pr_call (sample_socket es)) = sample_ws_env"
  "wcl_upgrade (pr_call (sample_socket es)) = None" "getConnectionType (sample_socket es) r = ''websocket''"
  by (simp_all add: sample_socket_def sample_env_def sample_call_def getConnectionType_def)

lemma sample_dial [simp]: "createNewConnection sample_ws_env q = (Some 7, log_wire (Dialed 7) q)"
  by (simp add: createNewConnection_def sample_ws_env_def)

definition sample_client :: "pipe_event list \<Rightarrow> Proxy \<Rightarrow> World \<Rightarrow> Flight" where
  "sample_client es p w = new_flight (sample_socket es) ''eth'' p sample_post (idle_writer None) w"

lemma sample_websocket:
  assumes "sample_gateway g w p a n"
  obtains q where "np_wsProxy a = Some q" "q < length (w_wsProxies w)" "provider_IsHealthy ''websocket'' w a"
  using assms
  by (auto simp: sample_gateway_def wired_def provider_IsHealthy_def healthy_checker_def all_healthy_def list_all_length
      mk_target_def split: option.splits)

text \<open>Five steps later the connection of the client is open.\<close>

lemma sample_opens:
  assumes "sample_gateway g w p a n"
  obtains q f sh where "fly (sample_socket es) 5 (es, sample_client es p w, idle w) = (es, f, sh)"
    "fl_pc f = Pipes q 7" "fl_conn f = new_conn" "sh_crash sh = None" "q < length (w_wsProxies (sh_world sh))"
proof -
  let ?env = "sample_socket es" and ?f = "sample_client es p w"
  obtain q where q: "np_wsProxy a = Some q" "q < length (w_wsProxies w)" "provider_IsHealthy ''websocket'' w a"
    by (rule sample_websocket [OF assms])
  have p: "px_targets p = [a, n]" using assms by (simp add: sample_gateway_def)
  have f: "fl_pc ?f = Starts" "fl_upgrade ?f" "fl_proxy ?f = p" "fl_path ?f = ''eth''" "sv_world (fl_serving ?f) = w"
    by (simp_all add: sample_client_def new_flight_def Let_def)
  let ?f1 = "?f\<lparr>fl_body := [], fl_slice := (0, 0), fl_pc := Collects 0\<rparr>"
  let ?sh1 = "(idle w)\<lparr>sh_heap := [[None, None]]\<rparr>"
  have one: "fly_step ?env (es, ?f, idle w) = (es, ?f1, ?sh1)"
    using f p by (simp add: fly_step_def piping_def advance_def start_step_def pool_Get_def numeral_2_eq_2)
  obtain sl heap where two: "fly ?env 2 (es, ?f1, ?sh1) = (es, ?f1\<lparr>fl_slice := sl, fl_pc := Collects 2\<rparr>, ?sh1\<lparr>sh_heap := heap\<rparr>)"
    and h: "holds heap sl (a # filter (provider_IsHealthy ''websocket'' w) [n])"
    using fly_collects [of ?f1 0 ?sh1 ?env es] f p q by (auto simp: holds_Nil numeral_2_eq_2)
  let ?f2 = "?f1\<lparr>fl_slice := sl, fl_pc := Collects 2\<rparr>" and ?sh2 = "?sh1\<lparr>sh_heap := heap\<rparr>"
  let ?f3 = "?f2\<lparr>fl_pc := Asks 0\<rparr>"
  have three: "fly_step ?env (es, ?f2, ?sh2) = (es, ?f3, ?sh2)"
    using f p holds_length [OF h] by (simp add: fly_step_def piping_def advance_def collect_step_def check_step_def Let_def)
  have n: "sh_heap ?sh2 ! fst (fl_slice ?f3) ! 0 = Some a" "0 < snd (fl_slice ?f3)"
    using holds_nth [OF h, of 0] holds_length [OF h] by simp_all
  let ?px = "log_wire (Dialed 7) (log_wire (ClosedConn 7) (log_wire (Dialed 7) (w_wsProxies w ! q)))"
  let ?w = "upd_ws q (\<lambda>_. ?px) w"
  have s: "(fl_serving ?f)\<lparr>sv_world := w\<rparr> = fl_serving ?f" using f(5) by (cases "fl_serving ?f") simp
  have serve: "serve_target (offering [] ?env) p r b a (fl_serving ?f) =
      (True, (fl_serving ?f)\<lparr>sv_world := ?w, sv_websocket := Some (Served (Running 7 new_conn ?px))\<rparr>)" for r b
    using q f(5) by (simp add: serve_target_def GetWebSocketProxy_def provider_ServeHTTP_def ws_ServeHTTP_def
        served_proxy_def upd_ws_nth Let_def)
  let ?f4 = "?f3\<lparr>fl_pc := Pipes q 7, fl_ws := Some q, fl_conn := new_conn,
    fl_serving := (fl_serving ?f)\<lparr>sv_world := ?w, sv_websocket := Some (Served (Running 7 new_conn ?px))\<rparr>\<rparr>"
  have off: "offering [] (offering es ?env) = offering [] ?env" by (simp add: offering_def)
  have four: "fly_step ?env (es, ?f3, ?sh2) = (es, ?f4, ?sh2\<lparr>sh_world := ?w\<rparr>)"
    using n serve f(3) q(1)
    by (simp add: fly_step_def piping_def advance_def ask_step_def off s Let_def GetWebSocketProxy_def)
  have "(5::nat) = Suc (2 + 2)" by simp
  then have "fly ?env 5 (es, ?f, idle w) = fly ?env 2 (fly ?env 2 (fly_step ?env (es, ?f, idle w)))"
    by (simp only: fly.simps fly_add)
  also have "\<dots> = (es, ?f4, ?sh2\<lparr>sh_world := ?w\<rparr>)"
    unfolding one two using three four by (simp add: numeral_2_eq_2)
  finally show thesis using q(2) by (intro that [of ?f4 "?sh2\<lparr>sh_world := ?w\<rparr>" q]) (simp_all add: upd_ws_simps)
qed

lemma sample_client_reach:
  assumes "sample_gateway g w p a n" and "sample_reach late g (0, idle w, [])"
    and "fly (sample_socket es) m (es, sample_client es p w, idle w) = (rest, f, sh)" and "sh_crash sh = None"
  shows "sample_reach late g (0, sh, [f])"
proof -
  have "sample_reach late g (0, idle w, [] @ [sample_client es p w])"
    using arriving_flight [OF assms(2), of sample_post "''eth''" p "idle_writer None" "sample_socket es"] assms(1)
    by (simp add: sample_client_def sample_gateway_def)
  from fly_reach [OF assms(3) this _ _ assms(4)] show ?thesis
    by (simp add: sample_client_def new_flight_def Let_def)
qed

text \<open>The client subscribes and is answered: the subscription is tracked, and it is the client's.\<close>

theorem tracked_by_open_websockets_witness:
  "\<exists>g sh f q. reach (conc_init sample_gateway_config (\<lambda>p. 0) g) (conc_any False g) (0, sh, [f]) \<and>
    q < length (w_wsProxies (sh_world sh)) \<and> ''0xa'' \<in> set (wp_subscriptions (w_wsProxies (sh_world sh) ! q)) \<and>
    set (wp_subscriptions (w_wsProxies (sh_world sh) ! q)) \<subseteq> set (cs_subscriptions (fl_conn f))"
proof -
  obtain g w p a n where g: "sample_gateway g w p a n" and r: "sample_reach False g (0, idle w, [])"
    by (rule sample_running) blast
  let ?es = "[Message ClientToTarget subscribe_msg, Message TargetToClient subscribed_msg]"
  let ?env = "sample_socket ?es"
  obtain q f sh where o: "fly ?env 5 (?es, sample_client ?es p w, idle w) = (?es, f, sh)"
    "fl_pc f = Pipes q 7" "fl_conn f = new_conn" "sh_crash sh = None" "q < length (w_wsProxies (sh_world sh))"
    by (rule sample_opens [OF g])
  let ?p = "w_wsProxies (sh_world sh) ! q"
  let ?sh = "sh\<lparr>sh_world := upd_ws q (\<lambda>_. TrackSubscription ''0xa'' ?p) (sh_world sh)\<rparr>"
  let ?f = "f\<lparr>fl_conn := subscribed_conn\<rparr>"
  have "fly ?env 2 (?es, f, sh) = ([], ?f, ?sh)"
    using o(2,3,5)
    by (simp add: numeral_2_eq_2 fly_step_def piping_def advance_def pipe_step_def subscribe_msg_step subscribed_msg_step
        upd_ws_nth Let_def)
  then have "fly ?env (5 + 2) (?es, sample_client ?es p w, idle w) = ([], ?f, ?sh)" using o(1) by (simp only: fly_add)
  from sample_client_reach [OF g r this] o(4) have reached: "sample_reach False g (0, ?sh, [?f])" by simp
  have q: "q < length (w_wsProxies (sh_world ?sh))" using o(5) by (simp add: upd_ws_simps)
  have "open_subs [?f] q = set (cs_subscriptions (fl_conn ?f))" using o(2) by (simp add: open_subs_def client_subs_def)
  moreover have "''0xa'' \<in> set (wp_subscriptions (w_wsProxies (sh_world ?sh) ! q))"
    using o(5) by (simp add: upd_ws_nth TrackSubscription_def)
  ultimately show ?thesis
    using tracked_by_open_websockets [OF reached q] reached q
    by (intro exI [of _ g] exI [of _ ?sh] exI [of _ ?f] exI [of _ q] conjI) simp_all
qed

text \<open>The upstream answers the client with an identifier that is an array.\<close>

abbreviation bad_msg :: string where
  "bad_msg \<equiv> ''{\"id\":[]}''"

theorem unhashable_identifier_stops_gateway_witness:
  "\<exists>g sh f. reach (conc_init sample_gateway_config (\<lambda>p. 0) g) (conc_any False g) (0, sh, [f]) \<and>
    conc_step False g (Some 0) (0, sh, [f]) (0, sh\<lparr>sh_crash := Some unhashable_panic\<rparr>, [f]) \<and>
    \<not> conc_step False g (Some 0) (0, sh\<lparr>sh_crash := Some unhashable_panic\<rparr>, [f]) (0, sh, [f])"
proof -
  obtain g w p a n where g: "sample_gateway g w p a n" and r: "sample_reach False g (0, idle w, [])"
    by (rule sample_running) blast
  obtain q f sh where o: "fly (sample_socket []) 5 ([], sample_client [] p w, idle w) = ([], f, sh)"
    "fl_pc f = Pipes q 7" "fl_conn f = new_conn" "sh_crash sh = None" "q < length (w_wsProxies (sh_world sh))"
    by (rule sample_opens [OF g])
  have reached: "sample_reach False g (0, sh, [f])" by (rule sample_client_reach [OF g r o(1,4)])
  have "json_unmarshal bad_msg = Some (JObj [(''id'', JArr [])])" by code_simp
  then obtain m where m: "unmarshal_map bad_msg = Some m" "m ''id'' = Some (GArr [])"
    by (auto simp: unmarshal_map_def any_map_def gomap_of_def)
  have "fl_pc ([f] ! 0) = Pipes q 7" "0 < length [f]" using o(2) by simp_all
  from unhashable_identifier_stops_gateway [OF this o(4) m _ disjI1 [OF refl], of False g 0 "Some 0" "(0, sh, [f])"]
  show ?thesis using reached by (intro exI [of _ g] exI [of _ sh] exI [of _ f]) simp
qed

lemma sample_session_ends:
  "serve_session ic conn sample_events new_conn p = Terminated \<lparr>uc_err = CloseError 1001 [], uc_isGracefulClose = False\<rparr> False
     (snd (cleanupConnectionSubscriptions subscribed_conn (TrackSubscription ''0xa'' p)) \<lparr>wp_wire := wp_wire p @ [ClosedConn conn]\<rparr>)"
  by (simp add: sample_events_def subscribe_msg_step subscribed_msg_step pipe_read_error_def closeAll_def
      TrackSubscription_def cleanupConnectionSubscriptions_def subscribed_conn_def log_wire_def)


end
