(* ===== verification/Spec2Isabelle.thy ===== *)
theory Spec2Isabelle
  imports Samples
begin

text \<open>
  A model of the RPC gateway (the Go packages below \<open>src/\<close>) and its correctness.

  \<^bold>\<open>The program.\<close> The gateway forwards JSON-RPC requests to providers. \<open>main.go\<close> reads a YAML
  configuration and starts an \<open>RPCGateway\<close> (\<open>internal/rpcgateway/rpcgateway.go\<close>), which makes one \<open>Proxy\<close>
  (\<open>internal/proxy/proxy.go\<close>) per configured path and routes each request by its first path segment. A proxy has
  one \<open>NodeProvider\<close> (\<open>nodeprovider.go\<close>) per target, with up to two \<open>HealthChecker\<close>s
  (\<open>healthchecker.go\<close>, \<open>healthchecker_utils.go\<close>), for HTTP and for websockets, and a \<open>WebSocketProxy\<close>
  (\<open>websocketproxy.go\<close>). The checkers of a path belong to its \<open>HealthCheckManager\<close>
  (\<open>healthcheckmanager.go\<close>), which compares their block numbers. A failed check, a lagging block number or a
  failed request taints a checker: its provider gets no requests until a timer removes the taint. Before a websocket
  checker is tainted, its websocket proxy ends the subscriptions that it tracks. Requests and checks of a path
  share one HTTP client (\<open>httpclient.go\<close>). \<open>internal/errors/errors.go\<close> writes error responses,
  \<open>internal/metrics\<close> is the metrics server.

  \<^bold>\<open>The theories\<close>, in the order of their imports:
  \<^item> GoPrelude, GoJson, GoHttp, GoMux, GoTime model what the code uses of Go's library: time values in int64 arithmetic,
    error values with their wrap chains, channels with a default branch, JSON (syntax, decoding into values and
    structs, numbers as float64), headers and response writers, \<open>http.ServeMux\<close>, \<open>time.ParseDuration\<close>.
  \<^item> Interfaces has the contracts between components as locales: step relations with absorbing predicates and invariants,
    get-or-create tables, and tainting as the request loop needs it. Each is interpreted where it is provided: the
    tables in HttpClient, the invariants in Taint, WebSocket and CheckLoop, tainting in ProxyServe.
  \<^item> Config has the configuration types; HttpClient is \<open>httpclient.go\<close>.
  \<^item> Taint has the checker object, its taint state with timers and wake-ups, and the step relation \<open>taint_step\<close> of all
    goroutines that touch it; \<open>status_step\<close> is the abstract machine that it refines.
  \<^item> HealthUtils and HealthCheck are the probes: what is sent, and what an answer means.
  \<^item> WebSocket is \<open>websocketproxy.go\<close>; \<open>ws_step\<close> interleaves the connections of several clients.
  \<^item> World puts the objects that are shared through pointers into one state: a pointer is an index into a list of checkers,
    websocket proxies or clients. It has \<open>Taint\<close> with its callback. Manager is the manager and the outcome of a
    health check; CheckLoop is the goroutine of a checker.
  \<^item> NodeProvider and Proxy define providers, the construction of a proxy and its request handler; ProxySetup shows how a
    new proxy is wired, ProxyServe what the handler answers.
  \<^item> Gateway defines the gateway, the metrics server and the program; GatewaySetup shows what is built, GatewayServe where
    requests go.
  \<^item> System is the gateway as a whole: what each operation does to the shared objects, and the invariant they keep.
    Concurrent lets any number of requests run at the same time as the health checks, timers and the shutdown (\<open>conc_step\<close>): a health
    check is split into the steps at which its probes end, a request into the steps at which it meets shared state, takes its slice of providers from the pool of its proxy, and may become a websocket, which handles
    one message per step. Progress counts the steps of a request, Sessions is about the websockets of such a run, Flights follows a single
    request through it, Samples has concrete runs. This theory has the program's outcomes and a request to a new gateway from end to end.

  The names of definitions are those of the Go functions, prefixed where two types have a method of one name
  (\<open>manager_Close\<close>, \<open>factory_Close\<close>, \<open>provider_Name\<close>, \<open>ws_ServeHTTP\<close>, \<open>gateway_Start\<close>).

  \<^bold>\<open>What is shown.\<close> A request reaches the proxy of its path and no other; its healthy providers are asked in order, refusing ones
  are tainted, the first answer reaches the client unchanged, and a response never mixes two sources. When none answers the
  client gets one error with its own identifier. When requests run at the same time, a response still has one source, no two requests share a slice of the pool, none waits
  for another, each ends after a bounded number of its own steps (a websocket after those and its messages), and one that is not interrupted is
  answered as if it were alone. Every provider of the finished gateway is wired to its own checkers and
  websocket proxy. Taints last between ten seconds and twenty minutes, double with each relapse, and end, under the condition
  stated with the property on the order of wake-ups; without it a taint can last for ever, which is shown as well. A
  health check taints exactly in the cases that are listed. Checks are paced. Tracked subscriptions belong to clients that are connected,
  unless a pipe handles a message after the end of its connection; one message with an unhashable identifier ends the process.
  The probes accept exactly the answers that they should. The program serves exactly when its configuration and
  ports allow it. Several theorems describe behaviour that comments or the README promise differently; their texts say so.

  \<^bold>\<open>Environment.\<close> Networks, files, clocks and third-party packages are arguments: \<open>http_env\<close> answers HTTP requests, \<open>probe_env\<close> the
  probes, \<open>ws_env\<close> and \<open>ws_call\<close> the websocket package, \<open>proxy_env\<close> a handler, \<open>main_env\<close> the program. Concurrency is modelled
  by step relations where goroutines meet in shared state: a checker's taint, a websocket proxy's subscriptions, the
  check loop, and the requests of the whole gateway. The exchange of a request with one provider is one step there, at the time of its
  outcome, and so is each message of a websocket and each probe of a health check; \<open>ServeHTTP\<close> and \<open>CheckAndSetHealth\<close> are what happens
  when nothing interrupts, and the two views are shown to agree.

  \<^bold>\<open>Bounds.\<close> The JSON parser recurses on fuel, twice the length of the text plus one; a lemma of GoJson shows that more fuel
  changes nothing. Every other function terminates by its structure or a measure, so that all loops of the code that are modelled end; a request
  among others takes at most two steps per provider and three more, besides the messages of a websocket.
  Block numbers and counters are words of their width, durations int64 with wrap-around where the code multiplies or adds.

  \<^bold>\<open>Not modelled.\<close> Log records (except the error messages of a shutdown), YAML decoding and flag parsing, sockets, TLS and HTTP itself,
  the Prometheus library, the pool of buffers (a buffer from it is reset before use), deadlines of contexts (a request that
  times out is an error of \<open>do_request\<close>), and data races on the maps of a websocket connection (a message is handled in one step). Patterns of \<open>http.ServeMux\<close>
  with braces, blanks or percent signs are refused by the model; the properties of the gateway require plain paths.
\<close>

section \<open>The program\<close>

text \<open>The conditions under which the program gets to serve requests.\<close>

definition port_free :: "main_env \<Rightarrow> string \<Rightarrow> bool" where
  "port_free env port \<longleftrightarrow> me_listen env ('':'' @ port) = None"

definition may_serve :: "main_env \<Rightarrow> RPCGatewayConfig \<Rightarrow> bool" where
  "may_serve env config \<longleftrightarrow>
     list_all (\<lambda>pc. \<exists>t. ParseDuration (pc_Timeout pc) = Inr t) (gc_Proxies config) \<and> port_free env (gc_Port config) \<and>
     (IsEnabled (gc_Metrics config) \<longrightarrow> port_free env (show_nat (unat (met_Port (gc_Metrics config)))))"

lemma first_bad_timeout_None:
  "first_bad_timeout pcs = None \<longleftrightarrow> list_all (\<lambda>pc. \<exists>t. ParseDuration (pc_Timeout pc) = Inr t) pcs"
  by (induction pcs) (auto split: sum.split)

lemma gateway_Start_cases:
  "(\<exists>cs m. gateway_Start listen g = Inr (cs, m)) \<longleftrightarrow>
     listen ('':'' @ gc_Port (gw_config g)) = None \<and>
     (IsEnabled (gc_Metrics (gw_config g)) \<longrightarrow>
        listen ('':'' @ show_nat (unat (met_Port (gc_Metrics (gw_config g))))) = None)"
  by (auto simp: gateway_Start_def checkPortAvailability_def Let_def split: option.split)

lemma SetRandomizeProviders_config:
  "gc_Metrics (gw_config (SetRandomizeProviders seed b g)) = gc_Metrics (gw_config g)"
  "gc_Port (gw_config (SetRandomizeProviders seed b g)) = gc_Port (gw_config g)"
  by (simp_all add: SetRandomizeProviders_def Let_def)

definition serves :: "action list \<Rightarrow> bool" where
  "serves as \<longleftrightarrow> (\<exists>g w cs m logs w'. as = [Serve g w cs m, Shutdown logs w'])"

text \<open>What the program does once its configuration was decoded.\<close>

lemma main_with_config:
  assumes "\<not> fl_version flags" and "fl_config flags \<noteq> []" and "me_readFile env (fl_config flags) = Inr data"
    and "me_yaml env data = Inr config" and "list_all (plain_segment \<circ> pc_Path) (gc_Proxies config)"
  shows "if may_serve env config then serves (main_program env flags w)
    else \<exists>msg. main_program env flags w = [writeError msg, Exit 1]"
proof (cases "first_bad_timeout (gc_Proxies config)")
  case (Some err)
  with NewRPCGateway_outcome [OF assms(5), of "me_seed env" w] first_bad_timeout_None [of "gc_Proxies config"] assms
  show ?thesis by (auto simp: main_program_def NewRPCGatewayFromConfigFile_def may_serve_def)
next
  case None
  with NewRPCGateway_outcome [OF assms(5), of "me_seed env" w] obtain g w1 where
    g: "NewRPCGateway config (me_seed env) w = Returns (Inr (g, w1))" by auto
  have cfg: "gw_config g = config" by (rule NewRPCGateway_cases [OF g])
  let ?g = "if fl_randomizeProviders flags then SetRandomizeProviders (me_flagSeed env) True g else g"
  have "(\<exists>cs m. gateway_Start (me_listen env) ?g = Inr (cs, m)) \<longleftrightarrow> may_serve env config"
    unfolding gateway_Start_cases may_serve_def port_free_def
    using None first_bad_timeout_None [of "gc_Proxies config"] cfg by (simp add: SetRandomizeProviders_config)
  with g assms show ?thesis
    by (cases "gateway_Start (me_listen env) ?g")
       (auto simp: main_program_def NewRPCGatewayFromConfigFile_def serves_def Let_def split: prod.split)
qed

text \<open>
  C20. The program serves requests exactly when it is given a configuration file that can be read and decoded, every timeout
  in it parses, and its ports are free; asked for its version it exits with status 0, and in every other case
  it writes an error and exits with status 1. It never crashes when the configured paths are plain.
\<close>

theorem main_program_outcome:
  assumes "\<And>data config. me_yaml env data = Inr config \<Longrightarrow> list_all (plain_segment \<circ> pc_Path) (gc_Proxies config)"
  shows "if fl_version flags then last (main_program env flags w) = Exit 0 \<and> \<not> serves (main_program env flags w)
    else if fl_config flags \<noteq> [] \<and> (\<exists>data config. me_readFile env (fl_config flags) = Inr data \<and>
        me_yaml env data = Inr config \<and> may_serve env config)
    then serves (main_program env flags w)
    else \<exists>msg rest. main_program env flags w = writeError msg # rest @ [Exit 1]"
proof (cases "fl_version flags \<or> fl_config flags = []")
  case True
  then show ?thesis by (auto simp: main_program_def printVersion_def serves_def)
next
  case False
  show ?thesis
  proof (cases "\<exists>data config. me_readFile env (fl_config flags) = Inr data \<and> me_yaml env data = Inr config")
    case True
    then obtain data config where c: "me_readFile env (fl_config flags) = Inr data" "me_yaml env data = Inr config"
      by blast
    then have only: "(\<exists>data config. me_readFile env (fl_config flags) = Inr data \<and> me_yaml env data = Inr config \<and>
        may_serve env config) \<longleftrightarrow> may_serve env config" by auto
    from False have flags: "\<not> fl_version flags" "fl_config flags \<noteq> []" by simp_all
    from main_with_config [OF flags c assms [OF c(2)], of w] flags show ?thesis
      unfolding only by (cases "may_serve env config") auto
  next
    case none: False
    then have "\<exists>err. NewRPCGatewayFromConfigFile (me_readFile env) (me_yaml env) (fl_config flags) (me_seed env) w =
        Returns (Inl err)"
      by (auto simp: NewRPCGatewayFromConfigFile_def split: sum.split)
    with False none show ?thesis by (auto simp: main_program_def)
  qed
qed

definition sample_main :: "(string \<Rightarrow> goerr option) \<Rightarrow> main_env" where
  "sample_main listen = \<lparr>me_arg0 = ''rpcgateway'', me_Version = ''dev'', me_GitCommit = [], me_BuildTime = [],
     me_readFile = (\<lambda>f. Inr f), me_yaml = (\<lambda>d. Inr sample_gateway_config), me_listen = listen,
     me_seed = (\<lambda>p. 0), me_flagSeed = (\<lambda>p. 0), me_session = id, me_close = None, me_metricsClose = None\<rparr>"

lemma sample_main_simps [simp]:
  "me_readFile (sample_main listen) f = Inr f" "me_yaml (sample_main listen) d = Inr sample_gateway_config"
  by (simp_all add: sample_main_def)

theorem main_program_outcome_witness:
  "serves (main_program (sample_main (\<lambda>a. None))
     \<lparr>fl_config = ''config.yml'', fl_randomizeProviders = True, fl_version = False\<rparr> empty_world)"
proof -
  have ok: "may_serve (sample_main (\<lambda>a. None)) sample_gateway_config"
    using sample_timeouts_ok unfolding first_bad_timeout_None
    by (simp add: may_serve_def port_free_def sample_main_def)
  have "list_all (plain_segment \<circ> pc_Path) (gc_Proxies config)"
    if "me_yaml (sample_main (\<lambda>a. None)) data = Inr config" for data config
    using that sample_paths_plain by simp
  from main_program_outcome [where env = "sample_main (\<lambda>a. None)", OF this, where w = empty_world
      and flags = "\<lparr>fl_config = ''config.yml'', fl_randomizeProviders = True, fl_version = False\<rparr>"] ok
  show ?thesis by simp
qed

section \<open>A request to a new gateway\<close>

text \<open>
  C2. A new gateway, from the request of a client to its answer: the request is sent to the providers configured for its
  path, in the configured order and at their configured URLs, until one answers; the client gets
  the status, the headers and the whole body of that answer.
\<close>

theorem new_gateway_answers:
  assumes "NewRPCGateway config seed w = Returns (Inr (g, w'))" and "all_healthy w"
    and "\<not> gc_RandomizeProviders config" and "list_all (plain_segment \<circ> pc_Path) (gc_Proxies config)"
    and "distinct (map pc_Path (gc_Proxies config))" and "list_all distinct_names (gc_Proxies config)"
    and "pc \<in> set (gc_Proxies config)" and "pc_Targets pc = ts1 @ t # ts2"
    and "list_all (\<lambda>u. target_http_url u \<noteq> []) (ts1 @ [t])"
    and "\<And>path. \<not> pr_isWebSocketUpgrade env (r\<lparr>rq_path := path\<rparr>)" and "rq_body r = Inr body"
    and "rq_path r = ''/'' @ pc_Path pc @ rest" and "rest = [] \<or> hd rest = CHR ''/''"
    and "clean_path (rq_path r) = rq_path r"
    and "\<And>m u. new_request (pr_http env) m u = None"
    and "\<And>k req. k < length ts1 \<Longrightarrow> hr_url req = provider_url pc rest (ts1 ! k) \<Longrightarrow>
      refused (do_request (pr_http env) k req)"
    and "\<And>req. hr_url req = provider_url pc rest t \<Longrightarrow> do_request (pr_http env) (length ts1) req = Inr resp"
    and "\<not> HasNodeProviderFailed (rs_status resp)" and "rs_err resp = None"
    and "sv_world s = w'" and "sv_sent s = []" and "fresh_writer (sv_writer s)" and "rw_fail (sv_writer s) = None"
  shows "\<exists>s'. gateway_ServeHTTP env g r s = Replies s' \<and>
    rw_sent (sv_writer s') = Some (rs_status resp, sent_header (sv_writer s) resp) \<and>
    rw_body (sv_writer s') = (if rs_body resp = [] then [] else [Upstream (npc_Name t) (rs_body resp)]) \<and>
    map fst (sv_sent s') = map npc_Name (ts1 @ [t]) \<and>
    map (hr_url \<circ> snd) (sv_sent s') = map (provider_url pc rest) (ts1 @ [t])"
proof -
  obtain j p where p: "(pc_Path pc, p) \<in> set (gw_proxies g)" "entry_made (gc_RandomizeProviders config) j pc w' p"
    by (rule gateway_entry [OF assms(1,5,6,7)]) (use assms(3) in simp)
  have made: "map np_config (px_targets p) = ts1 @ t # ts2" "list_all (wired w') (px_targets p)"
    "px_chainType p = pc_ChainType pc"
    using p(2) assms(3,8) by (simp_all add: entry_made_def)
  obtain ns1 n ns2 where ns: "px_targets p = ns1 @ n # ns2" "map np_config ns1 = ts1" "np_config n = t"
    using made(1) by (auto simp: map_eq_append_conv map_eq_Cons_conv)
  have all: "all_healthy w'"
    by (rule NewRPCGateway_cases [OF assms(1)]) (use build_proxies_keeps [where I = all_healthy] NewProxy_healthy assms(2) in blast)
  have healthy: "provider_IsHealthy ''http'' w' m" if "m \<in> set (ns1 @ [n])" for m
    using that made(2) assms(9) ns all by (intro wired_http) (auto simp: list_all_iff)
  then have hp: "getHealthyProviders ''http'' p (sv_world s) = ns1 @ n # filter (provider_IsHealthy ''http'' w') ns2"
    using assms(20) by (simp add: getHealthyProviders_def ns(1) filter_id_conv)
  have wf: "proxy_wf p (sv_world s)" using wired_proxy_wf [OF made(2)] assms(20) by simp
  have "refused (do_request (pr_http env) k req)"
    if "k < length ns1" "hr_url req = provider_url pc rest (np_config (ns1 ! k))" for k req
    using assms(16) that ns(2) by fastforce
  with gateway_first_answer [OF assms(1,4) p(1) made(3) wf hp assms(10-15), of resp] assms(17-19,21-23) ns(2,3)
  show ?thesis by (fastforce simp: provider_Name_def)
qed

theorem new_gateway_answers_witness:
  "\<exists>g w' s'. NewRPCGateway sample_gateway_config (\<lambda>p. 0) empty_world = Returns (Inr (g, w')) \<and>
    gateway_ServeHTTP (sample_env (\<lambda>k. if k = 0 then unreachable else Inr (pong None))) g
      (sample_request\<lparr>rq_path := ''/eth''\<rparr>) ((sample_serving None)\<lparr>sv_world := w'\<rparr>) = Replies s' \<and>
    rw_body (sv_writer s') = [Upstream ''b'' ''pong''] \<and> map fst (sv_sent s') = [''a'', ''b'']"
proof -
  obtain g w' where b: "NewRPCGateway sample_gateway_config (\<lambda>p. 0) empty_world = Returns (Inr (g, w'))"
    by (rule sample_gateway_built)
  let ?env = "sample_env (\<lambda>k. if k = 0 then unreachable else Inr (pong None))"
  let ?pc = "gc_Proxies sample_gateway_config ! 0"
  let ?a = "mk_target ''a'' ''https://a'' [] ''wss://a''" and ?b = "mk_target ''b'' ''https://b'' [] []"
  have clean: "clean_path ''/eth'' = ''/eth''" by code_simp
  have ok: "all_healthy empty_world" "\<not> gc_RandomizeProviders sample_gateway_config"
    "?pc \<in> set (gc_Proxies sample_gateway_config)" "pc_Targets ?pc = [?a] @ ?b # []" "pc_Path ?pc = ''eth''"
    by (simp_all add: all_healthy_def empty_world_def sample_gateway_config_def)
  have urls: "list_all (\<lambda>u. target_http_url u \<noteq> []) ([?a] @ [?b])" by (simp add: mk_target_def)
  have refuses: "refused (do_request (pr_http ?env) k req)" if "k < length [?a]" for k req
    using that by (simp add: refused_def)
  have answers: "do_request (pr_http ?env) (length [?a]) req = Inr (pong None)" for req by simp
  have resp: "\<not> HasNodeProviderFailed (rs_status (pong None))" "rs_err (pong None) = None" "rs_body (pong None) = ''pong''"
    by (simp_all add: pong_def HasNodeProviderFailed_def)
  have "\<exists>s'. gateway_ServeHTTP ?env g (sample_request\<lparr>rq_path := ''/eth''\<rparr>) ((sample_serving None)\<lparr>sv_world := w'\<rparr>) =
      Replies s' \<and>
    rw_sent (sv_writer s') = Some (rs_status (pong None), sent_header (idle_writer None) (pong None)) \<and>
    rw_body (sv_writer s') = (if rs_body (pong None) = [] then [] else [Upstream (npc_Name ?b) (rs_body (pong None))]) \<and>
    map fst (sv_sent s') = map npc_Name ([?a] @ [?b]) \<and>
    map (hr_url \<circ> snd) (sv_sent s') = map (provider_url ?pc []) ([?a] @ [?b])"
    using new_gateway_answers [OF b ok(1,2) sample_paths_plain sample_paths_distinct ok(3,4) urls,
        where env = ?env and r = "sample_request\<lparr>rq_path := ''/eth''\<rparr>" and rest = "[]" and body = "''ping''"
          and resp = "pong None" and s = "(sample_serving None)\<lparr>sv_world := w'\<rparr>"]
      refuses answers resp(1,2) clean ok(5) by simp
  with b resp(3) show ?thesis by (auto simp: mk_target_def)
qed

end
